(* ===== verification/Prelude.thy ===== *)
theory Prelude
  imports Main "HOL-Library.Word" "HOL-Library.Sublist"
begin

text \<open>
  What every component of the development shares: the machine types of the program (wide
  strings are lists of 16-bit units, a \<open>DWORD\<close> is a 32-bit word, handles and offsets are 64-bit
  words), the wide string functions of the C runtime that the handlers call, the monad in which
  the stateful code is written, and the two proof calculi over it: \<open>wpf\<close>, a weakest
  precondition that simp computes, and \<open>preserves\<close>, which carries an invariant through a
  handler one statement at a time.
\<close>

unbundle bit_operations_syntax

named_theorems wp_simps \<open>weakest precondition rules\<close>
named_theorems preserves_intros \<open>introduction rules for preserved invariants\<close>

subsection \<open>Machine types\<close>

type_synonym u8 = "8 word"
type_synonym wchar = "16 word"
type_synonym dword = "32 word"
type_synonym ulong64 = "64 word"
type_synonym wstr = "wchar list"

definition W :: "string \<Rightarrow> wstr" where
  "W s = map (\<lambda>c. of_nat (of_char c)) s"

abbreviation has_flag :: "dword \<Rightarrow> dword \<Rightarrow> bool" where
  "has_flag v f \<equiv> v AND f \<noteq> 0"

abbreviation BACKSLASH :: wchar where "BACKSLASH \<equiv> 0x5C"
abbreviation COLON :: wchar where "COLON \<equiv> 0x3A"
abbreviation DOT :: wchar where "DOT \<equiv> 0x2E"
abbreviation STAR :: wchar where "STAR \<equiv> 0x2A"
abbreviation UNDERSCORE :: wchar where "UNDERSCORE \<equiv> 0x5F"

text \<open>The low and the high half of a 64-bit value, as the code passes offsets to the system.\<close>

definition lo32 :: "ulong64 \<Rightarrow> dword" where
  "lo32 x = ucast (x AND 0xFFFFFFFF)"

definition hi32 :: "ulong64 \<Rightarrow> dword" where
  "hi32 x = ucast (drop_bit 32 x AND 0xFFFFFFFF)"

definition mk64 :: "dword \<Rightarrow> dword \<Rightarrow> ulong64" where
  "mk64 hi lo = push_bit 32 (ucast hi) OR ucast lo"

lemma low_mask: "(0xFFFFFFFF :: ulong64) = mask 32"
  by (simp add: mask_eq_exp_minus_1)

lemma lo32_ucast: "lo32 x = ucast x"
  unfolding lo32_def low_mask by (rule bit_word_eqI) (auto simp: bit_simps simp del: mask_numeral)

lemma hi32_ucast: "hi32 x = ucast (drop_bit 32 x)"
  unfolding hi32_def low_mask by (rule bit_word_eqI) (auto simp: bit_simps simp del: mask_numeral)

lemma mk64_split: "mk64 (hi32 x) (lo32 x) = x"
  unfolding mk64_def hi32_ucast lo32_ucast by (rule bit_word_eqI) (auto simp: bit_simps)

lemma unat_inject: "unat x = unat y \<longleftrightarrow> x = (y :: 'a :: len word)"
  by (simp add: word_unat_eq_iff)

lemma unat_less_power: "unat (x :: 'a :: len word) < 2 ^ LENGTH('a)"
  by (rule unsigned_less)

subsection \<open>Wide C strings\<close>

text \<open>
  A \<open>LPCWSTR\<close> argument is the list of its units before the terminating zero. The
  \<open>c_str()\<close> of a \<open>std::wstring\<close> ends, for a C function, at its first zero unit.
\<close>

definition c_str :: "wstr \<Rightarrow> wstr" where
  "c_str w = takeWhile (\<lambda>c. c \<noteq> 0) w"

definition towlower :: "wchar \<Rightarrow> wchar" where
  "towlower c = (if 0x41 \<le> c \<and> c \<le> 0x5A then c + 0x20 else c)"

text \<open>\<open>_wcsnicmp(a, b, n) == 0\<close>\<close>

definition wcsnicmp_eq :: "wstr \<Rightarrow> wstr \<Rightarrow> nat \<Rightarrow> bool" where
  "wcsnicmp_eq a b n \<longleftrightarrow> map towlower (take n a) = map towlower (take n b)"

text \<open>
  The checked copies of the C runtime: a result that does not fit, with its terminator, in
  \<open>n\<close> units calls the invalid parameter handler, which ends the process: \<open>None\<close>.
\<close>

definition wcsncpy_s :: "nat \<Rightarrow> wstr \<Rightarrow> nat \<Rightarrow> wstr option" where
  "wcsncpy_s n src count = (if length (take count src) < n then Some (take count src) else None)"

definition wcsncat_s :: "wstr \<Rightarrow> nat \<Rightarrow> wstr \<Rightarrow> nat \<Rightarrow> wstr option" where
  "wcsncat_s dst n src count =
     (if length dst + length (take count src) < n then Some (dst @ take count src) else None)"

lemma wcsnicmp_eq_length:
  "wcsnicmp_eq a b n \<Longrightarrow> n \<le> length b \<Longrightarrow> n \<le> length a"
  unfolding wcsnicmp_eq_def by (drule arg_cong [where f = length]) simp

lemma c_str_nul_free: "0 \<notin> set (c_str w)"
  by (auto simp: c_str_def dest: set_takeWhileD)

lemma c_str_id [simp]: "0 \<notin> set w \<Longrightarrow> c_str w = w"
  by (auto simp: c_str_def takeWhile_eq_all_conv)

subsection \<open>Programs\<close>

text \<open>
  A piece of code is a function of the state that returns a value or stops with a fault, and the
  state it leaves. The faults are the ways in which the C++ code has no defined result:
  the runtime's invalid parameter handler, an access outside an object, a read of a value that
  was never written, an exception of a library that nothing catches, and a wait that never ends, the use of an object that was deleted, and an abort of a library
  (Qt's \<open>qFatal\<close>).
\<close>

datatype fault =
    InvalidParameter
  | OutOfBounds
  | NullPointer
  | Uninitialised
  | LibraryException
  | NeverReturns
  | DeletedObject
  | Aborted

datatype 'a outcome = Ret 'a | Fault fault

type_synonym ('s, 'a) prog = "'s \<Rightarrow> 'a outcome \<times> 's"

definition return :: "'a \<Rightarrow> ('s, 'a) prog" where
  "return a = (\<lambda>s. (Ret a, s))"

definition fail :: "fault \<Rightarrow> ('s, 'a) prog" where
  "fail e = (\<lambda>s. (Fault e, s))"

definition bind :: "('s, 'a) prog \<Rightarrow> ('a \<Rightarrow> ('s, 'b) prog) \<Rightarrow> ('s, 'b) prog" where
  "bind m f = (\<lambda>s. case m s of (Ret a, s') \<Rightarrow> f a s' | (Fault e, s') \<Rightarrow> (Fault e, s'))"

definition gets :: "('s \<Rightarrow> 'a) \<Rightarrow> ('s, 'a) prog" where
  "gets f = (\<lambda>s. (Ret (f s), s))"

definition modify :: "('s \<Rightarrow> 's) \<Rightarrow> ('s, unit) prog" where
  "modify f = (\<lambda>s. (Ret (), f s))"

definition whenM :: "bool \<Rightarrow> ('s, unit) prog \<Rightarrow> ('s, unit) prog" where
  "whenM b m = (if b then m else return ())"

definition or_fault :: "fault \<Rightarrow> 'a option \<Rightarrow> ('s, 'a) prog" where
  "or_fault e v = (case v of None \<Rightarrow> fail e | Some a \<Rightarrow> return a)"

definition lift_outcome :: "'a outcome \<Rightarrow> ('s, 'a) prog" where
  "lift_outcome r = (\<lambda>s. (r, s))"

subsection \<open>Weakest preconditions\<close>

text \<open>\<open>wpf m Q F s\<close>: started in \<open>s\<close>, \<open>m\<close> returns with \<open>Q\<close> or faults with \<open>F\<close>.\<close>

definition wpf ::
  "('s, 'a) prog \<Rightarrow> ('a \<Rightarrow> 's \<Rightarrow> bool) \<Rightarrow> (fault \<Rightarrow> 's \<Rightarrow> bool) \<Rightarrow> 's \<Rightarrow> bool" where
  "wpf m Q F s = (case m s of (Ret a, s') \<Rightarrow> Q a s' | (Fault e, s') \<Rightarrow> F e s')"

lemma wpf_return [wp_simps]: "wpf (return a) Q F s = Q a s"
  by (simp add: wpf_def return_def)

lemma wpf_fail [wp_simps]: "wpf (fail e) Q F s = F e s"
  by (simp add: wpf_def fail_def)

lemma wpf_bind [wp_simps]: "wpf (bind m f) Q F s = wpf m (\<lambda>a. wpf (f a) Q F) F s"
  by (simp add: wpf_def bind_def split: prod.split outcome.split)

lemma wpf_gets [wp_simps]: "wpf (gets f) Q F s = Q (f s) s"
  by (simp add: wpf_def gets_def)

lemma wpf_modify [wp_simps]: "wpf (modify f) Q F s = Q () (f s)"
  by (simp add: wpf_def modify_def)

lemma wpf_if [wp_simps]:
  "wpf (if b then m else m') Q F s = (if b then wpf m Q F s else wpf m' Q F s)"
  by simp

lemma wpf_whenM [wp_simps]: "wpf (whenM b m) Q F s = (if b then wpf m Q F s else Q () s)"
  by (simp add: whenM_def wp_simps)

lemma wpf_or_fault [wp_simps]:
  "wpf (or_fault e v) Q F s = (case v of None \<Rightarrow> F e s | Some a \<Rightarrow> Q a s)"
  by (simp add: or_fault_def wp_simps split: option.split)

lemma wpf_lift_outcome [wp_simps]:
  "wpf (lift_outcome r) Q F s = (case r of Ret a \<Rightarrow> Q a s | Fault e \<Rightarrow> F e s)"
  by (simp add: wpf_def lift_outcome_def split: outcome.split)

lemma wpf_case_option [wp_simps]:
  "wpf (case v of None \<Rightarrow> m | Some a \<Rightarrow> f a) Q F s =
    (case v of None \<Rightarrow> wpf m Q F s | Some a \<Rightarrow> wpf (f a) Q F s)"
  by (simp split: option.split)

lemma wpf_case_sum [wp_simps]:
  "wpf (case v of Inl a \<Rightarrow> f a | Inr b \<Rightarrow> h b) Q F s =
    (case v of Inl a \<Rightarrow> wpf (f a) Q F s | Inr b \<Rightarrow> wpf (h b) Q F s)"
  by (simp split: sum.split)

lemma wpf_case_prod [wp_simps]:
  "wpf (case p of (a, b) \<Rightarrow> f a b) Q F s = (case p of (a, b) \<Rightarrow> wpf (f a b) Q F s)"
  by (simp split: prod.split)

lemma wpf_let [wp_simps]: "wpf (let x = a in f x) Q F s = (let x = a in wpf (f x) Q F s)"
  by (simp add: Let_def)

lemma wpf_mono:
  assumes "wpf m Q F s"
    and "\<And>a s'. Q a s' \<Longrightarrow> Q' a s'" and "\<And>e s'. F e s' \<Longrightarrow> F' e s'"
  shows "wpf m Q' F' s"
  using assms by (auto simp: wpf_def split: prod.splits outcome.splits)

lemma wpf_conj:
  "wpf m Q F s \<Longrightarrow> wpf m Q' F' s \<Longrightarrow> wpf m (\<lambda>a s. Q a s \<and> Q' a s) (\<lambda>e s. F e s \<and> F' e s) s"
  by (simp add: wpf_def split: prod.splits outcome.splits)

lemma snd_by_wpf: "wpf m (\<lambda>_. P) (\<lambda>_. P) s \<Longrightarrow> P (snd (m s))"
  by (auto simp: wpf_def split: prod.splits outcome.splits)

lemma run_by_wpf: "m s = (Ret a, s') \<Longrightarrow> wpf m Q F s \<Longrightarrow> Q a s'"
  by (simp add: wpf_def)

lemma result_by_wpf: "wpf m (\<lambda>a s'. P (Ret a) s') (\<lambda>e s'. P (Fault e) s') s \<Longrightarrow> P (fst (m s)) (snd (m s))"
  by (auto simp: wpf_def split: prod.splits outcome.splits)

subsection \<open>Preserved invariants\<close>

definition preserves :: "('s \<Rightarrow> bool) \<Rightarrow> ('s, 'a) prog \<Rightarrow> bool" where
  "preserves I m \<longleftrightarrow> (\<forall>s. I s \<longrightarrow> I (snd (m s)))"

lemma preservesD: "preserves I m \<Longrightarrow> I s \<Longrightarrow> I (snd (m s))"
  by (simp add: preserves_def)

lemma preserves_run: "preserves I m \<Longrightarrow> I s \<Longrightarrow> m s = (r, s') \<Longrightarrow> I s'"
  by (drule preservesD) auto

lemma preserves_return [preserves_intros]: "preserves I (return a)"
  by (simp add: preserves_def return_def)

lemma preserves_fail [preserves_intros]: "preserves I (fail e)"
  by (simp add: preserves_def fail_def)

lemma preserves_gets [preserves_intros]: "preserves I (gets f)"
  by (simp add: preserves_def gets_def)

lemma preserves_modify: "(\<And>s. I s \<Longrightarrow> I (f s)) \<Longrightarrow> preserves I (modify f)"
  by (simp add: preserves_def modify_def)

lemma preserves_bind [preserves_intros]:
  "preserves I m \<Longrightarrow> (\<And>a. preserves I (f a)) \<Longrightarrow> preserves I (bind m f)"
  by (fastforce simp: preserves_def bind_def split: prod.splits outcome.splits)

lemma preserves_if [preserves_intros]:
  "(b \<Longrightarrow> preserves I m) \<Longrightarrow> (\<not> b \<Longrightarrow> preserves I m') \<Longrightarrow> preserves I (if b then m else m')"
  by simp

lemma preserves_whenM [preserves_intros]: "(b \<Longrightarrow> preserves I m) \<Longrightarrow> preserves I (whenM b m)"
  by (auto simp: whenM_def preserves_return)

lemma preserves_or_fault [preserves_intros]: "preserves I (or_fault e v)"
  by (auto simp: or_fault_def intro: preserves_intros split: option.split)

lemma preserves_lift_outcome [preserves_intros]: "preserves I (lift_outcome r)"
  by (simp add: preserves_def lift_outcome_def)

lemma preserves_case_option [preserves_intros]:
  "(v = None \<Longrightarrow> preserves I m) \<Longrightarrow> (\<And>a. v = Some a \<Longrightarrow> preserves I (f a)) \<Longrightarrow>
    preserves I (case v of None \<Rightarrow> m | Some a \<Rightarrow> f a)"
  by (simp split: option.split)

lemma preserves_case_sum [preserves_intros]:
  "(\<And>a. v = Inl a \<Longrightarrow> preserves I (f a)) \<Longrightarrow> (\<And>b. v = Inr b \<Longrightarrow> preserves I (h b)) \<Longrightarrow>
    preserves I (case v of Inl a \<Rightarrow> f a | Inr b \<Rightarrow> h b)"
  by (simp split: sum.split)

lemma preserves_case_prod [preserves_intros]:
  "(\<And>a b. p = (a, b) \<Longrightarrow> preserves I (f a b)) \<Longrightarrow> preserves I (case p of (a, b) \<Rightarrow> f a b)"
  by (simp split: prod.split)

lemma preserves_let [preserves_intros]:
  "(\<And>x. x = a \<Longrightarrow> preserves I (f x)) \<Longrightarrow> preserves I (let x = a in f x)"
  by (simp add: Let_def)

text \<open>A program that a wp proof shows to keep \<open>I\<close>.\<close>

lemma preserves_by_wpf:
  "(\<And>s. I s \<Longrightarrow> wpf m (\<lambda>_. I) (\<lambda>_. I) s) \<Longrightarrow> preserves I m"
  by (simp add: preserves_def snd_by_wpf)

lemma wpf_by_preserves: "preserves I m \<Longrightarrow> I s \<Longrightarrow> wpf m (\<lambda>_. I) (\<lambda>_. I) s"
  by (fastforce simp: preserves_def wpf_def split: prod.split outcome.split)

end
