(* ===== verification/Win32.thy ===== *)
theory Win32
  imports Prelude
begin

text \<open>
  The system interface of the program. The Windows API and the Dokan library are not part of the
  repository, so their answers are a parameter: a record \<open>os\<close> with one function per call, from the
  history of the calls made so far and the arguments to the answer. Every behaviour of the system
  that a run can meet, changes made by other processes included, is one such record. The calls
  themselves are recorded, newest first, in the \<open>trace\<close> of the state, and the safety properties
  of the handlers (handles closed, paths confined, impersonation ended) are about that trace.

  Two conventions state what is documented of the calls. A search (\<open>FindFirstFile\<close> and the calls of
  \<open>FindNextFile\<close> that follow) answers with the entries it enumerates, a finite list, and
  \<open>GetLastError\<close> after a \<open>SetLastError\<close> answers the value set. Diagnostic output
  (\<open>DbgPrint::print\<close>, \<open>CheckFlag\<close>, \<open>std::cout\<close>) has no effect on the state and is left out.
\<close>

type_synonym handle = ulong64
type_synonym ntstatus = dword
type_synonym sd = "u8 list"

subsection \<open>Constants of the Windows SDK\<close>

abbreviation INVALID_HANDLE_VALUE :: handle where "INVALID_HANDLE_VALUE \<equiv> 0xFFFFFFFFFFFFFFFF"
abbreviation INVALID_FILE_ATTRIBUTES :: dword where "INVALID_FILE_ATTRIBUTES \<equiv> 0xFFFFFFFF"
abbreviation INVALID_FILE_SIZE :: dword where "INVALID_FILE_SIZE \<equiv> 0xFFFFFFFF"

abbreviation GENERIC_READ :: dword where "GENERIC_READ \<equiv> 0x80000000"
abbreviation GENERIC_WRITE :: dword where "GENERIC_WRITE \<equiv> 0x40000000"
abbreviation WRITE_DAC :: dword where "WRITE_DAC \<equiv> 0x40000"
abbreviation WRITE_OWNER :: dword where "WRITE_OWNER \<equiv> 0x80000"
abbreviation ACCESS_SYSTEM_SECURITY :: dword where "ACCESS_SYSTEM_SECURITY \<equiv> 0x01000000"
abbreviation FILE_READ_DATA :: dword where "FILE_READ_DATA \<equiv> 0x1"
abbreviation FILE_WRITE_DATA :: dword where "FILE_WRITE_DATA \<equiv> 0x2"

abbreviation FILE_SHARE_READ :: dword where "FILE_SHARE_READ \<equiv> 0x1"
abbreviation FILE_SHARE_WRITE :: dword where "FILE_SHARE_WRITE \<equiv> 0x2"
abbreviation FILE_SHARE_DELETE :: dword where "FILE_SHARE_DELETE \<equiv> 0x4"

abbreviation FILE_ATTRIBUTE_READONLY :: dword where "FILE_ATTRIBUTE_READONLY \<equiv> 0x1"
abbreviation FILE_ATTRIBUTE_DIRECTORY :: dword where "FILE_ATTRIBUTE_DIRECTORY \<equiv> 0x10"
abbreviation FILE_ATTRIBUTE_ARCHIVE :: dword where "FILE_ATTRIBUTE_ARCHIVE \<equiv> 0x20"
abbreviation FILE_ATTRIBUTE_NORMAL :: dword where "FILE_ATTRIBUTE_NORMAL \<equiv> 0x80"

abbreviation FILE_FLAG_WRITE_THROUGH :: dword where "FILE_FLAG_WRITE_THROUGH \<equiv> 0x80000000"
abbreviation FILE_FLAG_NO_BUFFERING :: dword where "FILE_FLAG_NO_BUFFERING \<equiv> 0x20000000"
abbreviation FILE_FLAG_SEQUENTIAL_SCAN :: dword where "FILE_FLAG_SEQUENTIAL_SCAN \<equiv> 0x08000000"
abbreviation FILE_FLAG_DELETE_ON_CLOSE :: dword where "FILE_FLAG_DELETE_ON_CLOSE \<equiv> 0x04000000"
abbreviation FILE_FLAG_BACKUP_SEMANTICS :: dword where "FILE_FLAG_BACKUP_SEMANTICS \<equiv> 0x02000000"
abbreviation FILE_FLAG_POSIX_SEMANTICS :: dword where "FILE_FLAG_POSIX_SEMANTICS \<equiv> 0x01000000"
abbreviation FILE_FLAG_OPEN_REPARSE_POINT :: dword
  where "FILE_FLAG_OPEN_REPARSE_POINT \<equiv> 0x00200000"

abbreviation CREATE_NEW :: dword where "CREATE_NEW \<equiv> 1"
abbreviation CREATE_ALWAYS :: dword where "CREATE_ALWAYS \<equiv> 2"
abbreviation OPEN_EXISTING :: dword where "OPEN_EXISTING \<equiv> 3"
abbreviation OPEN_ALWAYS :: dword where "OPEN_ALWAYS \<equiv> 4"
abbreviation TRUNCATE_EXISTING :: dword where "TRUNCATE_EXISTING \<equiv> 5"

abbreviation FILE_DIRECTORY_FILE :: dword where "FILE_DIRECTORY_FILE \<equiv> 0x1"
abbreviation FILE_NON_DIRECTORY_FILE :: dword where "FILE_NON_DIRECTORY_FILE \<equiv> 0x40"

abbreviation FILE_BEGIN :: dword where "FILE_BEGIN \<equiv> 0"
abbreviation FILE_END :: dword where "FILE_END \<equiv> 2"

abbreviation STATUS_SUCCESS :: ntstatus where "STATUS_SUCCESS \<equiv> 0"
abbreviation STATUS_BUFFER_OVERFLOW :: ntstatus where "STATUS_BUFFER_OVERFLOW \<equiv> 0x80000005"
abbreviation STATUS_INVALID_HANDLE :: ntstatus where "STATUS_INVALID_HANDLE \<equiv> 0xC0000008"
abbreviation STATUS_ACCESS_DENIED :: ntstatus where "STATUS_ACCESS_DENIED \<equiv> 0xC0000022"
abbreviation STATUS_OBJECT_NAME_COLLISION :: ntstatus
  where "STATUS_OBJECT_NAME_COLLISION \<equiv> 0xC0000035"
abbreviation STATUS_FILE_IS_A_DIRECTORY :: ntstatus where "STATUS_FILE_IS_A_DIRECTORY \<equiv> 0xC00000BA"
abbreviation STATUS_DIRECTORY_NOT_EMPTY :: ntstatus where "STATUS_DIRECTORY_NOT_EMPTY \<equiv> 0xC0000101"
abbreviation STATUS_NOT_A_DIRECTORY :: ntstatus where "STATUS_NOT_A_DIRECTORY \<equiv> 0xC0000103"
abbreviation STATUS_CANNOT_DELETE :: ntstatus where "STATUS_CANNOT_DELETE \<equiv> 0xC0000121"

abbreviation ERROR_SUCCESS :: dword where "ERROR_SUCCESS \<equiv> 0"
abbreviation ERROR_NO_MORE_FILES :: dword where "ERROR_NO_MORE_FILES \<equiv> 18"
abbreviation ERROR_HANDLE_EOF :: dword where "ERROR_HANDLE_EOF \<equiv> 38"
abbreviation ERROR_ALREADY_EXISTS :: dword where "ERROR_ALREADY_EXISTS \<equiv> 183"

subsection \<open>Data the system fills in\<close>

record find_data =
  cFileName :: wstr
  find_attributes :: dword
  find_creation :: ulong64
  find_access :: ulong64
  find_write :: ulong64
  find_size_high :: dword
  find_size_low :: dword

record by_handle_info =
  dwFileAttributes :: dword
  ftCreationTime :: ulong64
  ftLastAccessTime :: ulong64
  ftLastWriteTime :: ulong64
  dwVolumeSerialNumber :: dword
  nFileSizeHigh :: dword
  nFileSizeLow :: dword
  nNumberOfLinks :: dword
  nFileIndex :: ulong64

subsection \<open>Calls\<close>

datatype open_call =
    CreateFileCall wstr dword dword "sd option" dword dword
      \<comment> \<open>path, access, share mode, security descriptor, disposition, flags\<close>
  | RequestorTokenCall
  | ProcessTokenCall
  | LinkedTokenCall handle

datatype path_call =
    GetFileAttributesCall
  | SetFileAttributesCall dword
  | CreateDirectoryCall "sd option"
  | RemoveDirectoryCall
  | DeleteFileCall
  | VolumeInformationCall
  | DiskFreeSpaceCall

datatype handle_call =
    HandleInformationCall
  | ReadFileCall dword "ulong64 option" \<comment> \<open>length, and the offset when overlapped\<close>
  | WriteFileCall "u8 list"
  | FlushCall
  | SetFilePointerCall ulong64 dword
  | FileSizeCall
  | InformationByHandleCall
  | SetDispositionCall bool
  | SetRenameCall bool wstr
  | SetEndOfFileInfoCall ulong64
  | LockFileCall dword dword dword dword
  | UnlockFileCall dword dword dword dword
  | SetEndOfFileCall
  | SetFileTimeCall "ulong64 option" "ulong64 option" "ulong64 option"

datatype event =
    Opened open_call handle
  | Closed handle
  | SearchOpened wstr handle
  | SearchClosed handle
  | OnPath path_call wstr
  | OnHandle handle_call handle bool
  | LastErrorSet dword
  | Impersonated handle bool
  | Reverted bool
  | FilledFindData find_data
  | FilledStreamData find_data bool
  | QueriedProcesses
  | SecurityCall

type_synonym hist = "event list"

record world =
  trace :: hist

text \<open>The system: what it answers to each call.\<close>

record os =
  os_GetLastError :: "hist \<Rightarrow> dword"
  os_open :: "hist \<Rightarrow> open_call \<Rightarrow> handle"
  os_path :: "hist \<Rightarrow> path_call \<Rightarrow> wstr \<Rightarrow> bool"
  os_handle :: "hist \<Rightarrow> handle_call \<Rightarrow> handle \<Rightarrow> bool"
  os_FileAttributes :: "hist \<Rightarrow> wstr \<Rightarrow> dword"
  os_ReadData :: "hist \<Rightarrow> handle \<Rightarrow> dword \<Rightarrow> ulong64 option \<Rightarrow> u8 list"
  os_Written :: "hist \<Rightarrow> handle \<Rightarrow> u8 list \<Rightarrow> dword"
  os_FilePointer :: "hist \<Rightarrow> handle \<Rightarrow> ulong64 \<Rightarrow> dword \<Rightarrow> dword"
  os_FileSize :: "hist \<Rightarrow> handle \<Rightarrow> ulong64"
  os_Information :: "hist \<Rightarrow> handle \<Rightarrow> by_handle_info"
  os_Search :: "hist \<Rightarrow> wstr \<Rightarrow> handle \<times> find_data \<times> find_data list"
  os_StreamSearch :: "hist \<Rightarrow> wstr \<Rightarrow> handle \<times> find_data \<times> find_data list"
  os_VolumeInformation :: "hist \<Rightarrow> wstr \<Rightarrow> dword \<times> dword \<times> wstr"
  os_DiskFreeSpace :: "hist \<Rightarrow> wstr \<Rightarrow> ulong64 \<times> ulong64 \<times> ulong64"
  os_Impersonate :: "hist \<Rightarrow> handle \<Rightarrow> bool"
  os_Revert :: "hist \<Rightarrow> bool"
  os_malloc :: "hist \<Rightarrow> ulong64 \<Rightarrow> bool"
  os_FillStream :: "hist \<Rightarrow> find_data \<Rightarrow> bool"
  os_Processes :: "hist \<Rightarrow> (dword \<times> wstr) list option"
  os_garbage :: "hist \<Rightarrow> nat \<Rightarrow> u8"
  dokan_NtStatusFromWin32 :: "dword \<Rightarrow> ntstatus"
  dokan_MapFlags :: "dword \<Rightarrow> dword \<Rightarrow> dword \<Rightarrow> dword \<Rightarrow> dword \<times> dword \<times> dword"

definition syscall :: "(hist \<Rightarrow> 'a) \<Rightarrow> ('a \<Rightarrow> event) \<Rightarrow> ('w world_scheme, 'a) prog" where
  "syscall f ev = (\<lambda>s. let r = f (trace s) in (Ret r, s\<lparr>trace := ev r # trace s\<rparr>))"

lemma wpf_syscall [wp_simps]:
  "wpf (syscall f ev) Q F s = Q (f (trace s)) (s\<lparr>trace := ev (f (trace s)) # trace s\<rparr>)"
  by (simp add: wpf_def syscall_def Let_def)

lemma preserves_syscall:
  "(\<And>s. I s \<Longrightarrow> I (s\<lparr>trace := ev (f (trace s)) # trace s\<rparr>)) \<Longrightarrow> preserves I (syscall f ev)"
  by (simp add: preserves_def syscall_def Let_def)

fun last_error :: "('a) os_scheme \<Rightarrow> hist \<Rightarrow> dword" where
  "last_error E (LastErrorSet v # t) = v"
| "last_error E t = os_GetLastError E t"

definition GetLastError :: "('a) os_scheme \<Rightarrow> ('w world_scheme, dword) prog" where
  "GetLastError E = gets (\<lambda>s. last_error E (trace s))"

definition SetLastError :: "dword \<Rightarrow> ('w world_scheme, unit) prog" where
  "SetLastError v = syscall (\<lambda>t. ()) (\<lambda>_. LastErrorSet v)"

definition open_handle :: "('a) os_scheme \<Rightarrow> open_call \<Rightarrow> ('w world_scheme, handle) prog" where
  "open_handle E c = syscall (\<lambda>t. os_open E t c) (Opened c)"

definition CreateFile ::
  "('a) os_scheme \<Rightarrow> wstr \<Rightarrow> dword \<Rightarrow> dword \<Rightarrow> sd option \<Rightarrow> dword \<Rightarrow> dword \<Rightarrow>
    ('w world_scheme, handle) prog" where
  "CreateFile E path access share sec disp flags =
     open_handle E (CreateFileCall path access share sec disp flags)"

definition CloseHandle :: "handle \<Rightarrow> ('w world_scheme, unit) prog" where
  "CloseHandle h = syscall (\<lambda>t. ()) (\<lambda>_. Closed h)"

definition on_path ::
  "('a) os_scheme \<Rightarrow> path_call \<Rightarrow> wstr \<Rightarrow> ('w world_scheme, bool) prog" where
  "on_path E c p = syscall (\<lambda>t. os_path E t c p) (\<lambda>_. OnPath c p)"

definition on_handle ::
  "('a) os_scheme \<Rightarrow> handle_call \<Rightarrow> handle \<Rightarrow> ('w world_scheme, bool) prog" where
  "on_handle E c h = syscall (\<lambda>t. os_handle E t c h) (\<lambda>b. OnHandle c h b)"

text \<open>A call on a handle that also fills in a value, meaningful when the call succeeds.\<close>

definition on_handle_out ::
  "('a) os_scheme \<Rightarrow> handle_call \<Rightarrow> handle \<Rightarrow> (hist \<Rightarrow> 'v) \<Rightarrow>
    ('w world_scheme, bool \<times> 'v) prog" where
  "on_handle_out E c h f = syscall (\<lambda>t. (os_handle E t c h, f t)) (\<lambda>r. OnHandle c h (fst r))"

definition GetFileAttributes :: "('a) os_scheme \<Rightarrow> wstr \<Rightarrow> ('w world_scheme, dword) prog" where
  "GetFileAttributes E p =
     syscall (\<lambda>t. os_FileAttributes E t p) (\<lambda>_. OnPath GetFileAttributesCall p)"

text \<open>\<open>ReadFile\<close> fills in at most the bytes asked for.\<close>

definition ReadFile ::
  "('a) os_scheme \<Rightarrow> handle \<Rightarrow> dword \<Rightarrow> ulong64 option \<Rightarrow>
    ('w world_scheme, bool \<times> u8 list) prog" where
  "ReadFile E h n off =
     on_handle_out E (ReadFileCall n off) h (\<lambda>t. take (unat n) (os_ReadData E t h n off))"

definition WriteFile ::
  "('a) os_scheme \<Rightarrow> handle \<Rightarrow> u8 list \<Rightarrow> ('w world_scheme, bool \<times> dword) prog" where
  "WriteFile E h bytes = on_handle_out E (WriteFileCall bytes) h (\<lambda>t. os_Written E t h bytes)"

definition SetFilePointerEx ::
  "('a) os_scheme \<Rightarrow> handle \<Rightarrow> ulong64 \<Rightarrow> dword \<Rightarrow> ('w world_scheme, bool) prog" where
  "SetFilePointerEx E h dist meth = on_handle E (SetFilePointerCall dist meth) h"

text \<open>\<open>SetFilePointer\<close> answers the low half of the new position.\<close>

definition SetFilePointer ::
  "('a) os_scheme \<Rightarrow> handle \<Rightarrow> ulong64 \<Rightarrow> dword \<Rightarrow> ('w world_scheme, dword) prog" where
  "SetFilePointer E h dist meth =
     syscall (\<lambda>t. os_FilePointer E t h dist meth) (\<lambda>_. OnHandle (SetFilePointerCall dist meth) h True)"

text \<open>\<open>GetFileSize\<close> answers the low half and stores the high half.\<close>

definition GetFileSize ::
  "('a) os_scheme \<Rightarrow> handle \<Rightarrow> ('w world_scheme, dword \<times> dword) prog" where
  "GetFileSize E h =
     syscall (\<lambda>t. (lo32 (os_FileSize E t h), hi32 (os_FileSize E t h)))
       (\<lambda>_. OnHandle FileSizeCall h True)"

definition GetFileSizeEx ::
  "('a) os_scheme \<Rightarrow> handle \<Rightarrow> ('w world_scheme, bool \<times> ulong64) prog" where
  "GetFileSizeEx E h = on_handle_out E FileSizeCall h (\<lambda>t. os_FileSize E t h)"

definition FindFirstFile ::
  "('a) os_scheme \<Rightarrow> wstr \<Rightarrow> ('w world_scheme, handle \<times> find_data \<times> find_data list) prog" where
  "FindFirstFile E p = syscall (\<lambda>t. os_Search E t p) (\<lambda>r. SearchOpened p (fst r))"

definition FindFirstStream ::
  "('a) os_scheme \<Rightarrow> wstr \<Rightarrow> ('w world_scheme, handle \<times> find_data \<times> find_data list) prog" where
  "FindFirstStream E p = syscall (\<lambda>t. os_StreamSearch E t p) (\<lambda>r. SearchOpened p (fst r))"

definition FindClose :: "handle \<Rightarrow> ('w world_scheme, unit) prog" where
  "FindClose h = syscall (\<lambda>t. ()) (\<lambda>_. SearchClosed h)"

definition ImpersonateLoggedOnUser ::
  "('a) os_scheme \<Rightarrow> handle \<Rightarrow> ('w world_scheme, bool) prog" where
  "ImpersonateLoggedOnUser E h = syscall (\<lambda>t. os_Impersonate E t h) (Impersonated h)"

definition RevertToSelf :: "('a) os_scheme \<Rightarrow> ('w world_scheme, bool) prog" where
  "RevertToSelf E = syscall (os_Revert E) Reverted"

text \<open>The callbacks with which a handler hands entries to the Dokan library.\<close>

definition FillFindData :: "find_data \<Rightarrow> ('w world_scheme, unit) prog" where
  "FillFindData d = syscall (\<lambda>t. ()) (\<lambda>_. FilledFindData d)"

definition FillFindStreamData ::
  "('a) os_scheme \<Rightarrow> find_data \<Rightarrow> ('w world_scheme, bool) prog" where
  "FillFindStreamData E d = syscall (\<lambda>t. os_FillStream E t d) (FilledStreamData d)"

lemmas sys_defs = GetLastError_def SetLastError_def open_handle_def CreateFile_def
  CloseHandle_def on_path_def on_handle_def on_handle_out_def GetFileAttributes_def ReadFile_def
  WriteFile_def SetFilePointerEx_def SetFilePointer_def GetFileSize_def GetFileSizeEx_def
  FindFirstFile_def FindFirstStream_def FindClose_def ImpersonateLoggedOnUser_def
  RevertToSelf_def FillFindData_def FillFindStreamData_def

subsection \<open>What a trace says\<close>

text \<open>
  The handles that are open: how often a value was answered by a successful open, less how often
  it was closed. Neither \<open>INVALID_HANDLE_VALUE\<close>, the answer of a failed open, nor \<open>NULL\<close> is the
  handle of an object.
\<close>

definition live :: "handle \<Rightarrow> bool" where
  "live h \<longleftrightarrow> h \<noteq> 0 \<and> h \<noteq> INVALID_HANDLE_VALUE"

fun open_count :: "handle \<Rightarrow> event \<Rightarrow> int" where
  "open_count h (Opened c h') = of_bool (live h' \<and> h = h')"
| "open_count h (Closed h') = - of_bool (live h' \<and> h = h')"
| "open_count h _ = 0"

definition net_open :: "hist \<Rightarrow> handle \<Rightarrow> int" where
  "net_open t h = sum_list (map (open_count h) t)"

fun search_count :: "handle \<Rightarrow> event \<Rightarrow> int" where
  "search_count h (SearchOpened p h') = of_bool (h' \<noteq> INVALID_HANDLE_VALUE \<and> h = h')"
| "search_count h (SearchClosed h') = - of_bool (h' \<noteq> INVALID_HANDLE_VALUE \<and> h = h')"
| "search_count h _ = 0"

definition net_search :: "hist \<Rightarrow> handle \<Rightarrow> int" where
  "net_search t h = sum_list (map (search_count h) t)"

lemma net_open_simps [simp]:
  "net_open [] h = 0"
  "net_open (e # t) h = open_count h e + net_open t h"
  by (simp_all add: net_open_def)

lemma net_search_simps [simp]:
  "net_search [] h = 0"
  "net_search (e # t) h = search_count h e + net_search t h"
  by (simp_all add: net_search_def)

text \<open>Whether the thread runs with the caller's token: a successful impersonation not yet ended. A
  \<open>RevertToSelf\<close> that fails ends nothing.\<close>

fun impersonating :: "hist \<Rightarrow> bool" where
  "impersonating [] = False"
| "impersonating (Impersonated h b # t) = (b \<or> impersonating t)"
| "impersonating (Reverted b # t) \<longleftrightarrow> \<not> b \<and> impersonating t"
| "impersonating (_ # t) = impersonating t"

text \<open>The path a call is about, where it names one.\<close>

fun path_of :: "event \<Rightarrow> wstr option" where
  "path_of (Opened (CreateFileCall p a sh sec d f) h) = Some p"
| "path_of (SearchOpened p h) = Some p"
| "path_of (OnPath c p) = Some p"
| "path_of (OnHandle (SetRenameCall b p) h r) = Some p"
| "path_of _ = None"

end
