(* ===== verification/WinSec.thy ===== *)
theory WinSec
  imports Win32
begin

text \<open>
  Security identifiers and descriptors (seamless_smb_lib/WinSec.cpp): the identity of the
  unelevated user behind the process, the default descriptor that \<open>WinSec\<close> builds once and caches,
  and the assembly of a self-relative descriptor in \<open>RtlpSetSecurityObject\<close>. A SID, an ACL and a
  descriptor are the bytes they occupy; the calls of the security API that read or convert them
  are parameters (record \<open>secos\<close>, which extends the system of theory Win32).
\<close>

type_synonym sid = "u8 list"

record ace =
  ace_flags :: u8
  ace_mask :: dword
  ace_sid :: sid

record secos = os +
  sec_control :: "sd \<Rightarrow> 16 word"
  sec_length :: "sd \<Rightarrow> dword"
  sec_MakeSelfRelative :: "sd \<Rightarrow> dword \<Rightarrow> sd \<times> dword"
  sec_to_string :: "sd \<Rightarrow> wstr option"
  sec_GetPrivate :: "sd \<Rightarrow> dword \<Rightarrow> sd option"
  sec_SetPrivate :: "dword \<Rightarrow> sd \<Rightarrow> sd option \<Rightarrow> sd option"
  sec_owner :: "sd \<Rightarrow> sid option option"
  sec_group :: "sd \<Rightarrow> sid option option"
  sec_dacl :: "sd \<Rightarrow> (bool \<times> bool \<times> u8 list option) option"
  sec_sacl :: "sd \<Rightarrow> (bool \<times> bool \<times> u8 list option) option"
  sec_IsValidSid :: "sid \<Rightarrow> bool"
  sec_ElevationType :: "hist \<Rightarrow> handle \<Rightarrow> dword option"
  sec_TokenUser :: "hist \<Rightarrow> handle \<Rightarrow> sid option"
  sec_TokenGroup :: "hist \<Rightarrow> handle \<Rightarrow> sid option"
  sec_HeapAlloc :: "hist \<Rightarrow> dword \<Rightarrow> bool"
  sec_ExplicitEntries :: "ace list \<Rightarrow> dword"
  sec_BuildDescriptor :: "sid \<Rightarrow> sid option \<Rightarrow> ace list \<Rightarrow> sd option"

record winsec = world +
  SDCached :: "sd option"

abbreviation SE_SELF_RELATIVE :: "16 word" where "SE_SELF_RELATIVE \<equiv> 0x8000"
abbreviation TokenElevationTypeFull :: dword where "TokenElevationTypeFull \<equiv> 2"
abbreviation ERROR_ELEVATION_REQUIRED :: dword where "ERROR_ELEVATION_REQUIRED \<equiv> 740"

definition isSelfRelative :: "('a) secos_scheme \<Rightarrow> sd \<Rightarrow> bool" where
  "isSelfRelative E d \<longleftrightarrow> sec_control E d AND SE_SELF_RELATIVE \<noteq> 0"

text \<open>
  One concrete system, at which the theorems with hypotheses about the system are instantiated:
  every call succeeds, handles are numbered by the length of the history, files are empty.
\<close>

definition sample_system :: secos where
  "sample_system = \<lparr>
     os_GetLastError = (\<lambda>t. 5),
     os_open = (\<lambda>t c. of_nat (length t) + 0x100),
     os_path = (\<lambda>t c p. True),
     os_handle = (\<lambda>t c h. True),
     os_FileAttributes = (\<lambda>t p. INVALID_FILE_ATTRIBUTES),
     os_ReadData = (\<lambda>t h n off. []),
     os_Written = (\<lambda>t h bs. of_nat (length bs)),
     os_FilePointer = (\<lambda>t h d m. 0),
     os_FileSize = (\<lambda>t h. 0),
     os_Information = (\<lambda>t h. \<lparr>dwFileAttributes = 0x20, ftCreationTime = 0, ftLastAccessTime = 0,
        ftLastWriteTime = 0, dwVolumeSerialNumber = 0, nFileSizeHigh = 0, nFileSizeLow = 0,
        nNumberOfLinks = 1, nFileIndex = 0\<rparr>),
     os_Search = (\<lambda>t p. (0x200, \<lparr>cFileName = [DOT], find_attributes = 0x10, find_creation = 0,
        find_access = 0, find_write = 0, find_size_high = 0, find_size_low = 0\<rparr>, [])),
     os_StreamSearch = (\<lambda>t p. (0x200, \<lparr>cFileName = [COLON], find_attributes = 0,
        find_creation = 0, find_access = 0, find_write = 0, find_size_high = 0,
        find_size_low = 0\<rparr>, [])),
     os_VolumeInformation = (\<lambda>t p. (255, 0, [])),
     os_DiskFreeSpace = (\<lambda>t p. (0, 0, 0)),
     os_Impersonate = (\<lambda>t h. True),
     os_Revert = (\<lambda>t. True),
     os_malloc = (\<lambda>t n. True),
     os_FillStream = (\<lambda>t d. True),
     os_Processes = (\<lambda>t. Some []),
     os_garbage = (\<lambda>t n. 0),
     dokan_NtStatusFromWin32 = (\<lambda>e. 0xC0000000 OR e),
     dokan_MapFlags = (\<lambda>a att opt d. (a, att, d)),
     sec_control = (\<lambda>d. SE_SELF_RELATIVE),
     sec_length = (\<lambda>d. of_nat (length d)),
     sec_MakeSelfRelative = (\<lambda>d n. (d, n)),
     sec_to_string = (\<lambda>d. Some (map ucast d)),
     sec_GetPrivate = (\<lambda>d info. Some d),
     sec_SetPrivate = (\<lambda>info m d. Some m),
     sec_owner = (\<lambda>d. Some (Some (take 12 d))),
     sec_group = (\<lambda>d. Some (Some (take 12 d))),
     sec_dacl = (\<lambda>d. Some (True, False, Some (drop 12 d))),
     sec_sacl = (\<lambda>d. Some (False, False, None)),
     sec_IsValidSid = (\<lambda>s. True),
     sec_ElevationType = (\<lambda>t h. Some TokenElevationTypeFull),
     sec_TokenUser = (\<lambda>t h. Some [1, 1, 0, 0, 0, 0, 0, 5, 9, 0, 0, 0]),
     sec_TokenGroup = (\<lambda>t h. Some [1, 1, 0, 0, 0, 0, 0, 5, 7, 0, 0, 0]),
     sec_HeapAlloc = (\<lambda>t n. True),
     sec_ExplicitEntries = (\<lambda>as. ERROR_SUCCESS),
     sec_BuildDescriptor = (\<lambda>ow gr as. Some (ow @ concat (map ace_sid as)))\<rparr>"

subsection \<open>The unelevated user\<close>

definition BOOL_TO_ERROR :: "('a) os_scheme \<Rightarrow> bool \<Rightarrow> ('w world_scheme, dword) prog" where
  "BOOL_TO_ERROR E b = (if b then return 0 else GetLastError E)"

text \<open>
  The token linked to an elevated process token: error code and handle. \<open>OpenProcessToken\<close> and the
  query for the linked token answer \<open>INVALID_HANDLE_VALUE\<close> when they fail.
\<close>

definition open_linked_token ::
  "('a) secos_scheme \<Rightarrow> ('w world_scheme, dword \<times> handle) prog" where
  "open_linked_token E =
    bind (open_handle E ProcessTokenCall) (\<lambda>hToken.
    bind (BOOL_TO_ERROR E (hToken \<noteq> INVALID_HANDLE_VALUE)) (\<lambda>err.
    if err \<noteq> 0 then return (err, INVALID_HANDLE_VALUE)
    else
      bind (syscall (\<lambda>t. sec_ElevationType E t hToken) (\<lambda>_. SecurityCall)) (\<lambda>tet.
      bind (case tet of
              None \<Rightarrow> bind (GetLastError E) (\<lambda>err. return (err, INVALID_HANDLE_VALUE))
            | Some ty \<Rightarrow>
                if ty = TokenElevationTypeFull then
                  bind (open_handle E (LinkedTokenCall hToken)) (\<lambda>linked.
                  bind (BOOL_TO_ERROR E (linked \<noteq> INVALID_HANDLE_VALUE)) (\<lambda>err.
                  return (err, linked)))
                else return (ERROR_ELEVATION_REQUIRED, INVALID_HANDLE_VALUE)) (\<lambda>res.
      bind (CloseHandle hToken) (\<lambda>_.
      return res)))))"

definition GetNotElevatedSIDS ::
  "('a) secos_scheme \<Rightarrow> ('w world_scheme, dword \<times> sid option \<times> sid option) prog" where
  "GetNotElevatedSIDS E =
    bind (open_linked_token E) (\<lambda>(err, linked).
    if err \<noteq> 0 then return (err, None, None)
    else
      bind (syscall (\<lambda>t. sec_TokenUser E t linked) (\<lambda>_. SecurityCall)) (\<lambda>user.
      case user of
        None \<Rightarrow> bind (GetLastError E) (\<lambda>err. return (err, None, None))
      | Some owner \<Rightarrow>
          bind (syscall (\<lambda>t. sec_TokenGroup E t linked) (\<lambda>_. SecurityCall)) (\<lambda>grp.
          bind (or_fault NullPointer grp) (\<lambda>group.
          bind (CloseHandle linked) (\<lambda>_.
          return (0, Some owner, Some group))))))"

subsection \<open>The default descriptor\<close>

text \<open>The SIDs that \<open>AllocateAndInitializeSid\<close> builds: revision 1, authority, sub-authorities.\<close>

definition le32 :: "dword \<Rightarrow> u8 list" where
  "le32 x = [ucast x, ucast (drop_bit 8 x), ucast (drop_bit 16 x), ucast (drop_bit 24 x)]"

definition mk_sid :: "u8 \<Rightarrow> dword list \<Rightarrow> sid" where
  "mk_sid auth subs = [1, of_nat (length subs), 0, 0, 0, 0, 0, auth] @ concat (map le32 subs)"

definition sid_ntauth :: sid where "sid_ntauth = mk_sid 5 [18]"
definition sid_admins :: sid where "sid_admins = mk_sid 5 [32, 544]"
definition sid_everyone :: sid where "sid_everyone = mk_sid 1 [0]"

definition GetLengthSid :: "sid \<Rightarrow> dword" where
  "GetLengthSid s = of_nat (length s)"

abbreviation sizeof_ACL :: dword where "sizeof_ACL \<equiv> 8"
abbreviation sizeof_ACCESS_ALLOWED_ACE :: dword where "sizeof_ACCESS_ALLOWED_ACE \<equiv> 12"
abbreviation sizeof_DWORD :: dword where "sizeof_DWORD \<equiv> 4"

text \<open>An access control list under construction: its allocated size and its entries.\<close>

record acl =
  acl_size :: dword
  aces :: "ace list"

definition ace_size :: "ace \<Rightarrow> nat" where
  "ace_size a = 8 + length (ace_sid a)"

definition acl_used :: "ace list \<Rightarrow> nat" where
  "acl_used as = 8 + sum_list (map ace_size as)"

text \<open>\<open>AddAccessAllowedAceEx\<close> adds the entry if it fits; the code ignores the answer.\<close>

definition AddAccessAllowedAceEx :: "u8 \<Rightarrow> dword \<Rightarrow> sid \<Rightarrow> acl \<Rightarrow> acl" where
  "AddAccessAllowedAceEx fl m s l =
    (let a = \<lparr>ace_flags = fl, ace_mask = m, ace_sid = s\<rparr> in
     if acl_used (aces l) + ace_size a \<le> unat (acl_size l)
     then l\<lparr>aces := aces l @ [a]\<rparr> else l)"

abbreviation FILE_GENERIC_READ :: dword where "FILE_GENERIC_READ \<equiv> 0x120089"
abbreviation FILE_GENERIC_WRITE :: dword where "FILE_GENERIC_WRITE \<equiv> 0x120116"
abbreviation FILE_GENERIC_EXECUTE :: dword where "FILE_GENERIC_EXECUTE \<equiv> 0x1200A0"
abbreviation DELETE_RIGHT :: dword where "DELETE_RIGHT \<equiv> 0x10000"
abbreviation READ_CONTROL :: dword where "READ_CONTROL \<equiv> 0x20000"
abbreviation SYNCHRONIZE :: dword where "SYNCHRONIZE \<equiv> 0x100000"

definition full_mask :: dword where
  "full_mask = DELETE_RIGHT OR FILE_GENERIC_READ OR FILE_GENERIC_WRITE OR FILE_GENERIC_EXECUTE OR
     READ_CONTROL OR WRITE_DAC OR WRITE_OWNER OR SYNCHRONIZE"

definition user_mask :: dword where
  "user_mask = FILE_GENERIC_READ OR FILE_GENERIC_WRITE OR FILE_GENERIC_EXECUTE OR READ_CONTROL OR
     SYNCHRONIZE"

definition valid_owner :: "('a) secos_scheme \<Rightarrow> sid option \<Rightarrow> sid option" where
  "valid_owner E owner =
    (case owner of Some s \<Rightarrow> if sec_IsValidSid E s then Some s else None | None \<Rightarrow> None)"

definition default_acl_size :: "sid option \<Rightarrow> dword" where
  "default_acl_size owner =
    (let cb = sizeof_ACL + sizeof_ACCESS_ALLOWED_ACE * 8;
         cb = cb + (GetLengthSid sid_ntauth - sizeof_DWORD);
         cb = cb + (GetLengthSid sid_ntauth - sizeof_DWORD);
         cb = cb + (GetLengthSid sid_admins - sizeof_DWORD);
         cb = cb + (GetLengthSid sid_admins - sizeof_DWORD);
         cb = (case owner of Some s \<Rightarrow>
                 cb + (GetLengthSid s - sizeof_DWORD) + (GetLengthSid s - sizeof_DWORD)
               | None \<Rightarrow> cb);
         cb = cb + (GetLengthSid sid_everyone - sizeof_DWORD);
         cb = cb + (GetLengthSid sid_everyone - sizeof_DWORD)
     in (cb + (sizeof_DWORD - 1)) AND 0xfffffffc)"

definition default_dacl :: "sid option \<Rightarrow> acl" where
  "default_dacl owner =
    (let l = \<lparr>acl_size = default_acl_size owner, aces = []\<rparr>;
         l = AddAccessAllowedAceEx 3 full_mask sid_ntauth l;
         l = AddAccessAllowedAceEx 0 full_mask sid_ntauth l;
         l = AddAccessAllowedAceEx 3 full_mask sid_admins l;
         l = AddAccessAllowedAceEx 0 full_mask sid_admins l;
         l = (case owner of Some s \<Rightarrow>
                AddAccessAllowedAceEx 0 user_mask s (AddAccessAllowedAceEx 3 full_mask s l)
              | None \<Rightarrow> l);
         l = AddAccessAllowedAceEx 3 full_mask sid_everyone l
     in AddAccessAllowedAceEx 0 user_mask sid_everyone l)"

text \<open>
  The result is the status and the descriptor stored through the pointer argument, if one was. When
  \<open>BuildSecurityDescriptorW\<close> fails the code goes on with a null descriptor and a size that was never
  written.
\<close>

definition CreateDefaultSelfRelativeSD ::
  "('a) secos_scheme \<Rightarrow> ('w winsec_scheme, dword \<times> sd option) prog" where
  "CreateDefaultSelfRelativeSD E =
    bind (gets SDCached) (\<lambda>cached.
    case cached of
      Some d \<Rightarrow> return (ERROR_SUCCESS, Some d)
    | None \<Rightarrow>
        bind (GetNotElevatedSIDS E) (\<lambda>(err, owner, group).
        let owner' = valid_owner E owner; dacl = default_dacl owner' in
        if sec_ExplicitEntries E (aces dacl) \<noteq> ERROR_SUCCESS
        then return (sec_ExplicitEntries E (aces dacl), None)
        else
          bind (or_fault Uninitialised
                 (case owner' of
                    Some s \<Rightarrow> sec_BuildDescriptor E s group (aces dacl)
                  | None \<Rightarrow> sec_BuildDescriptor E sid_everyone (Some sid_everyone) (aces dacl)))
            (\<lambda>lcsd.
          bind (modify (\<lambda>s. s\<lparr>SDCached := Some lcsd\<rparr>)) (\<lambda>_.
          return (ERROR_SUCCESS, Some lcsd)))))"

subsection \<open>Properties of the default descriptor\<close>

lemma default_sid_lengths:
  "length sid_ntauth = 12" "length sid_admins = 16" "length sid_everyone = 12"
  by (simp_all add: sid_ntauth_def sid_admins_def sid_everyone_def mk_sid_def le32_def)

text \<open>Rounding up to a multiple of four, as both size computations do.\<close>

lemma mask2_numeral: "(0xfffffffc :: dword) = NOT (mask 2)"
  by (simp add: mask_eq_exp_minus_1)

lemma unat_and_not_mask2: "unat (y AND NOT (mask 2) :: dword) = unat y - unat y mod 4"
proof -
  have "Suc (Suc (n - 2)) = n" if "\<not> n < 2" for n :: nat using that by simp
  then have "y AND NOT (mask 2) = push_bit 2 (drop_bit 2 y)"
    by (intro bit_word_eqI) (auto simp: bit_simps not_less simp del: mask_numeral)
  also have "unat \<dots> = unat (drop_bit 2 y) * 4 mod 2 ^ 32"
    by (simp add: push_bit_eq_mult unat_word_ariths)
  also have "unat (drop_bit 2 y) = unat y div 4"
    by (simp add: drop_bit_eq_div unat_div)
  also have "unat y div 4 * 4 mod 2 ^ 32 = unat y div 4 * 4"
  proof (rule mod_less)
    have "unat y < 2 ^ 32" by (rule order_less_le_trans [OF unsigned_less]) simp
    then show "unat y div 4 * 4 < 2 ^ 32" by presburger
  qed
  finally show ?thesis by (metis minus_mod_eq_div_mult)
qed

lemma align4_ge:
  assumes "unat x + 3 < 2 ^ 32"
  shows "unat x \<le> unat ((x + 3) AND 0xfffffffc :: dword)"
proof -
  have "unat (x + 3) = unat x + 3" using assms by (simp add: unat_word_ariths)
  moreover have "(unat x + 3) mod 4 \<le> 3" by simp
  ultimately show ?thesis unfolding mask2_numeral unat_and_not_mask2 by simp
qed

text \<open>The allocated list has room for every entry the code adds to it.\<close>

definition default_entries :: "sid option \<Rightarrow> (u8 \<times> dword \<times> sid) list" where
  "default_entries owner =
     ([(3, full_mask, sid_ntauth), (0, full_mask, sid_ntauth),
       (3, full_mask, sid_admins), (0, full_mask, sid_admins)] @
      (case owner of Some s \<Rightarrow> [(3, full_mask, s), (0, user_mask, s)] | None \<Rightarrow> []) @
      [(3, full_mask, sid_everyone), (0, user_mask, sid_everyone)])"

definition mk_ace :: "u8 \<times> dword \<times> sid \<Rightarrow> ace" where
  "mk_ace e = (case e of (f, m, s) \<Rightarrow> \<lparr>ace_flags = f, ace_mask = m, ace_sid = s\<rparr>)"

lemma default_acl_size_Some:
  assumes "length s \<le> 68"
  shows "152 + 2 * length s \<le> unat (default_acl_size (Some s))"
proof -
  have "default_acl_size (Some s) = (of_nat (152 + 2 * length s) + 3) AND 0xfffffffc"
    by (simp add: default_acl_size_def GetLengthSid_def default_sid_lengths Let_def)
  moreover have "unat (of_nat (152 + 2 * length s) :: dword) = 152 + 2 * length s"
    using assms by (simp only: unsigned_of_nat) (simp add: take_bit_nat_eq_self)
  ultimately show ?thesis
    using align4_ge [of "of_nat (152 + 2 * length s)"] assms by simp
qed

lemma default_acl_size_None: "unat (default_acl_size None) = 160"
  by (simp add: default_acl_size_def GetLengthSid_def default_sid_lengths Let_def)

definition add_entry :: "u8 \<times> dword \<times> sid \<Rightarrow> acl \<Rightarrow> acl" where
  "add_entry e l = (case e of (f, m, s) \<Rightarrow> AddAccessAllowedAceEx f m s l)"

lemma add_entries_fit:
  "acl_used (aces l) + sum_list (map (\<lambda>(f, m, s). 8 + length s) es) \<le> unat (acl_size l) \<Longrightarrow>
    aces (fold add_entry es l) = aces l @ map mk_ace es"
proof (induction es arbitrary: l)
  case (Cons e es)
  then have "add_entry e l = l\<lparr>aces := aces l @ [mk_ace e]\<rparr>"
    by (auto simp: add_entry_def AddAccessAllowedAceEx_def ace_size_def mk_ace_def Let_def
        split: prod.splits)
  then show ?case using Cons
    by (auto simp: acl_used_def ace_size_def mk_ace_def split: prod.splits)
qed simp

lemma default_dacl_fold:
  "default_dacl owner =
     fold add_entry (default_entries owner) \<lparr>acl_size = default_acl_size owner, aces = []\<rparr>"
  by (simp add: default_dacl_def default_entries_def add_entry_def Let_def split: option.split)

text \<open>
  C22: The size computed for the default DACL is enough. With an owner SID of at most 68 bytes (the
  largest a SID can be), or with none, no \<open>AddAccessAllowedAce\<close> is dropped for lack of room: the list
  holds exactly the inheriting and the direct entry of SYSTEM, Administrators, the owner, and
  Everyone, in this order.
\<close>

theorem default_dacl_complete:
  assumes "\<And>s. owner = Some s \<Longrightarrow> length s \<le> 68"
  shows "aces (default_dacl owner) = map mk_ace (default_entries owner)"
proof -
  have "acl_used [] + sum_list (map (\<lambda>(f, m, s). 8 + length s) (default_entries owner))
      \<le> unat (default_acl_size owner)"
    using assms default_acl_size_Some default_acl_size_None
    by (cases owner) (simp_all add: default_entries_def acl_used_def default_sid_lengths)
  then show ?thesis
    unfolding default_dacl_fold by (subst add_entries_fit) simp_all
qed

theorem default_dacl_complete_witness:
  "aces (default_dacl (Some (mk_sid 5 [21, 1, 2, 3, 1001]))) =
    map mk_ace (default_entries (Some (mk_sid 5 [21, 1, 2, 3, 1001])))"
  by (rule default_dacl_complete) (simp add: mk_sid_def le32_def)

end
