(* ===== verification/SetSecurityObject.thy ===== *)
theory SetSecurityObject
  imports WinSec
begin

text \<open>
  The assembly of a new self-relative security descriptor (\<open>WinSec::RtlpSetSecurityObject\<close> and
  \<open>WinSec::RtlCreateSecurityDescriptorRelative\<close>, seamless_smb_lib/WinSec.cpp): each of the four parts
  comes from the modification or from the old descriptor, and all are laid out behind the header.
  The new block is a list of bytes of the allocated size, and each copy is checked against it.
\<close>

abbreviation OWNER_SECURITY_INFORMATION :: dword where "OWNER_SECURITY_INFORMATION \<equiv> 1"
abbreviation GROUP_SECURITY_INFORMATION :: dword where "GROUP_SECURITY_INFORMATION \<equiv> 2"
abbreviation DACL_SECURITY_INFORMATION :: dword where "DACL_SECURITY_INFORMATION \<equiv> 4"
abbreviation SACL_SECURITY_INFORMATION :: dword where "SACL_SECURITY_INFORMATION \<equiv> 8"

abbreviation ERROR_INVALID_OWNER :: dword where "ERROR_INVALID_OWNER \<equiv> 1307"
abbreviation ERROR_INVALID_PRIMARY_GROUP :: dword where "ERROR_INVALID_PRIMARY_GROUP \<equiv> 1308"
abbreviation ERROR_UNKNOWN_REVISION :: dword where "ERROR_UNKNOWN_REVISION \<equiv> 1305"
abbreviation SECURITY_DESCRIPTOR_REVISION :: dword where "SECURITY_DESCRIPTOR_REVISION \<equiv> 1"

abbreviation SE_DACL_PRESENT :: "16 word" where "SE_DACL_PRESENT \<equiv> 0x4"
abbreviation SE_DACL_DEFAULTED :: "16 word" where "SE_DACL_DEFAULTED \<equiv> 0x8"
abbreviation SE_SACL_PRESENT :: "16 word" where "SE_SACL_PRESENT \<equiv> 0x10"
abbreviation SE_SACL_DEFAULTED :: "16 word" where "SE_SACL_DEFAULTED \<equiv> 0x20"

record relative_sd =
  Revision :: u8
  Control :: "16 word"
  off_Owner :: dword
  off_Group :: dword
  off_Sacl :: dword
  off_Dacl :: dword
  block :: "u8 list" \<comment> \<open>the whole allocation, the 20 bytes of the header included\<close>

abbreviation sizeof_RELATIVE :: dword where "sizeof_RELATIVE \<equiv> 20"

definition ROUND_UP4 :: "dword \<Rightarrow> dword" where
  "ROUND_UP4 n = (n + 4 - 1) AND NOT 3"

text \<open>\<open>AclSize\<close> is a 16-bit field.\<close>

definition AclSize :: "u8 list \<Rightarrow> dword" where
  "AclSize a = ucast (of_nat (length a) :: 16 word)"

definition memcpy_at :: "dword \<Rightarrow> u8 list \<Rightarrow> u8 list \<Rightarrow> u8 list option" where
  "memcpy_at off bs buf =
    (if unat off + length bs \<le> length buf
     then Some (take (unat off) buf @ bs @ drop (unat off + length bs) buf) else None)"

text \<open>\<open>RtlCreateSecurityDescriptorRelative\<close> writes through its argument, null included.\<close>

definition RtlCreateSecurityDescriptorRelative ::
  "relative_sd option \<Rightarrow> dword \<Rightarrow> (dword \<times> relative_sd option) outcome" where
  "RtlCreateSecurityDescriptorRelative p revision =
    (if revision \<noteq> SECURITY_DESCRIPTOR_REVISION then Ret (ERROR_UNKNOWN_REVISION, p)
     else case p of
       None \<Rightarrow> Fault NullPointer
     | Some d \<Rightarrow> Ret (ERROR_SUCCESS,
         Some (d\<lparr>Revision := 1, Control := SE_SELF_RELATIVE, off_Owner := 0, off_Group := 0,
                 off_Sacl := 0, off_Dacl := 0\<rparr>)))"

definition new_sd_size :: "sid \<Rightarrow> sid \<Rightarrow> u8 list option \<Rightarrow> u8 list option \<Rightarrow> dword" where
  "new_sd_size owner grp dacl sacl =
    sizeof_RELATIVE + ROUND_UP4 (GetLengthSid owner) + ROUND_UP4 (GetLengthSid grp) +
    ROUND_UP4 (case dacl of None \<Rightarrow> 0 | Some a \<Rightarrow> AclSize a) +
    ROUND_UP4 (case sacl of None \<Rightarrow> 0 | Some a \<Rightarrow> AclSize a)"

text \<open>The optional copy of an ACL: the new block, the offset stored, the next destination.\<close>

definition put_acl ::
  "u8 list option \<Rightarrow> dword \<Rightarrow> u8 list \<Rightarrow> (u8 list \<times> dword \<times> dword) option" where
  "put_acl a dest buf =
    (case a of
       None \<Rightarrow> Some (buf, 0, dest)
     | Some acl \<Rightarrow>
         (case memcpy_at dest (take (unat (AclSize acl)) acl) buf of
            None \<Rightarrow> None
          | Some buf' \<Rightarrow> Some (buf', dest, dest + ROUND_UP4 (AclSize acl))))"

definition fill_sd ::
  "16 word \<Rightarrow> sid \<Rightarrow> sid \<Rightarrow> u8 list option \<Rightarrow> u8 list option \<Rightarrow> relative_sd \<Rightarrow> relative_sd option" where
  "fill_sd control owner grp dacl sacl d =
    (case put_acl sacl sizeof_RELATIVE (block d) of None \<Rightarrow> None
     | Some (b1, o1, d1) \<Rightarrow>
    (case put_acl dacl d1 b1 of None \<Rightarrow> None
     | Some (b2, o2, d2) \<Rightarrow>
    (case memcpy_at d2 owner b2 of None \<Rightarrow> None
     | Some b3 \<Rightarrow>
       (let d3 = d2 + ROUND_UP4 (GetLengthSid owner) in
        case memcpy_at d3 grp b3 of None \<Rightarrow> None
        | Some b4 \<Rightarrow>
            Some (d\<lparr>Control := control, off_Sacl := o1, off_Dacl := o2, off_Owner := d2,
                    off_Group := d3, block := b4\<rparr>)))))"

definition flags_if :: "bool \<Rightarrow> 16 word \<Rightarrow> 16 word" where
  "flags_if b f = (if b then f else 0)"

definition RtlpSetSecurityObject ::
  "('a) secos_scheme \<Rightarrow> dword \<Rightarrow> sd \<Rightarrow> sd \<Rightarrow>
    ('w world_scheme, dword \<times> relative_sd option) prog" where
  "RtlpSetSecurityObject E info modification object =
   (let pick = (\<lambda>flag. if has_flag info flag then modification else object) in
    case sec_owner E (pick OWNER_SECURITY_INFORMATION) of
      None \<Rightarrow> bind (GetLastError E) (\<lambda>e. return (e, None))
    | Some ownerp \<Rightarrow>
    (case (case ownerp of Some s \<Rightarrow> if sec_IsValidSid E s then Some s else None | None \<Rightarrow> None) of
      None \<Rightarrow> return (ERROR_INVALID_OWNER, None)
    | Some owner \<Rightarrow>
    (case sec_group E (pick GROUP_SECURITY_INFORMATION) of
      None \<Rightarrow> bind (GetLastError E) (\<lambda>e. return (e, None))
    | Some groupp \<Rightarrow>
    (case (case groupp of Some s \<Rightarrow> if sec_IsValidSid E s then Some s else None | None \<Rightarrow> None) of
      None \<Rightarrow> return (ERROR_INVALID_PRIMARY_GROUP, None)
    | Some grp \<Rightarrow>
    (case sec_dacl E (pick DACL_SECURITY_INFORMATION) of
      None \<Rightarrow> bind (GetLastError E) (\<lambda>e. return (e, None))
    | Some (dpresent, ddefaulted, dacl) \<Rightarrow>
    (case sec_sacl E (pick SACL_SECURITY_INFORMATION) of
      None \<Rightarrow> bind (GetLastError E) (\<lambda>e. return (e, None))
    | Some (spresent, sdefaulted, sacl) \<Rightarrow>
     (let newd = has_flag info DACL_SECURITY_INFORMATION;
          news = has_flag info SACL_SECURITY_INFORMATION;
          control = SE_SELF_RELATIVE OR
            flags_if (newd \<or> dpresent) SE_DACL_PRESENT OR
            flags_if (\<not> newd \<and> ddefaulted) SE_DACL_DEFAULTED OR
            flags_if (news \<or> spresent) SE_SACL_PRESENT OR
            flags_if (\<not> news \<and> sdefaulted) SE_SACL_DEFAULTED;
          size = new_sd_size owner grp dacl sacl in
      bind (gets (\<lambda>s. if sec_HeapAlloc E (trace s) size
              then Some \<lparr>Revision = 0, Control = 0, off_Owner = 0, off_Group = 0, off_Sacl = 0,
                off_Dacl = 0, block = map (os_garbage E (trace s)) [0..<unat size]\<rparr>
              else None)) (\<lambda>p.
      bind (lift_outcome (RtlCreateSecurityDescriptorRelative p SECURITY_DESCRIPTOR_REVISION))
        (\<lambda>(status, p').
      bind (or_fault NullPointer p') (\<lambda>d.
      bind (or_fault OutOfBounds (fill_sd control owner grp dacl sacl d)) (\<lambda>d'.
      return (status, Some d'))))))))))))"

subsection \<open>The layout is exact\<close>

text \<open>The bytes a descriptor holds at an offset.\<close>

definition part :: "relative_sd \<Rightarrow> dword \<Rightarrow> nat \<Rightarrow> u8 list" where
  "part d off n = take n (drop (unat off) (block d))"

definition pad4 :: "nat \<Rightarrow> nat" where
  "pad4 n = (n + 3) - (n + 3) mod 4"

lemma pad4_ge: "n \<le> pad4 n"
proof -
  have "(n + 3) mod 4 \<le> 3" by simp
  then show ?thesis unfolding pad4_def by linarith
qed

lemma pad4_le: "pad4 n \<le> n + 3"
  by (simp add: pad4_def)

lemma unat_ROUND_UP4: "unat n + 3 < 2 ^ 32 \<Longrightarrow> unat (ROUND_UP4 n) = pad4 (unat n)"
proof -
  assume a: "unat n + 3 < 2 ^ 32"
  have "ROUND_UP4 n = (n + 3) AND NOT (mask 2)"
    by (simp add: ROUND_UP4_def mask_eq_exp_minus_1 add.commute)
  moreover have "unat (n + 3) = unat n + 3" using a by (simp add: unat_word_ariths)
  ultimately show ?thesis unfolding pad4_def by (simp only: unat_and_not_mask2)
qed

lemma unat_AclSize: "length a < 65536 \<Longrightarrow> unat (AclSize a) = length a"
  by (simp add: AclSize_def unsigned_ucast_eq unsigned_of_nat take_bit_nat_eq_self)

lemma unat_GetLengthSid: "length s < 2 ^ 32 \<Longrightarrow> unat (GetLengthSid s) = length s"
  by (simp add: GetLengthSid_def unsigned_of_nat take_bit_nat_eq_self)

lemma memcpy_at_Some:
  assumes "unat off + length bs \<le> length buf"
  obtains buf' where "memcpy_at off bs buf = Some buf'" "length buf' = length buf"
    "take (length bs) (drop (unat off) buf') = bs"
    "\<And>p n. p + n \<le> unat off \<Longrightarrow> take n (drop p buf') = take n (drop p buf)"
proof
  let ?b = "take (unat off) buf @ bs @ drop (unat off + length bs) buf"
  show "memcpy_at off bs buf = Some ?b" using assms by (simp add: memcpy_at_def)
  show "length ?b = length buf" and "take (length bs) (drop (unat off) ?b) = bs"
    using assms by simp_all
  show "take n (drop p ?b) = take n (drop p buf)" if "p + n \<le> unat off" for p n
    using that assms by (simp add: take_drop min_def)
qed

definition opt_len :: "u8 list option \<Rightarrow> nat" where
  "opt_len a = (case a of None \<Rightarrow> 0 | Some x \<Rightarrow> length x)"

definition acl_ok :: "u8 list option \<Rightarrow> bool" where
  "acl_ok a \<longleftrightarrow> opt_len a < 65536"

lemma put_acl_Some:
  assumes "acl_ok a" and "unat dest + pad4 (opt_len a) \<le> length buf"
    and "unat dest + pad4 (opt_len a) < 2 ^ 32"
  obtains buf' off next' where "put_acl a dest buf = Some (buf', off, next')"
    "length buf' = length buf" "unat next' = unat dest + pad4 (opt_len a)"
    "\<And>x. a = Some x \<Longrightarrow> off = dest \<and> take (length x) (drop (unat dest) buf') = x"
    "\<And>p n. p + n \<le> unat dest \<Longrightarrow> take n (drop p buf') = take n (drop p buf)"
proof (cases a)
  case None
  show ?thesis
    by (rule that [of buf 0 dest]) (simp_all add: None put_acl_def opt_len_def pad4_def)
next
  case (Some x)
  then have len: "unat (AclSize x) = length x" "length x < 65536"
    using assms(1) by (simp_all add: acl_ok_def opt_len_def unat_AclSize)
  then have up: "unat (ROUND_UP4 (AclSize x)) = pad4 (length x)"
    by (simp add: unat_ROUND_UP4)
  have "unat dest + length x \<le> length buf"
    using assms(2) pad4_ge [of "length x"] by (simp add: Some opt_len_def)
  then obtain buf' where b: "memcpy_at dest x buf = Some buf'" "length buf' = length buf"
    "take (length x) (drop (unat dest) buf') = x"
    "\<And>p n. p + n \<le> unat dest \<Longrightarrow> take n (drop p buf') = take n (drop p buf)"
    by (rule memcpy_at_Some) blast
  show ?thesis
  proof (rule that [of buf' dest "dest + ROUND_UP4 (AclSize x)"])
    show "put_acl a dest buf = Some (buf', dest, dest + ROUND_UP4 (AclSize x))"
      by (simp add: put_acl_def Some b len)
    show "unat (dest + ROUND_UP4 (AclSize x)) = unat dest + pad4 (opt_len a)"
      using assms(3) up by (simp add: unat_word_ariths Some opt_len_def)
  qed (use b Some in auto)
qed

text \<open>The four parts of a filled block are where its header says, behind each other.\<close>

definition holds_parts ::
  "relative_sd \<Rightarrow> sid \<Rightarrow> sid \<Rightarrow> u8 list option \<Rightarrow> u8 list option \<Rightarrow> bool" where
  "holds_parts d owner grp dacl sacl \<longleftrightarrow>
     part d (off_Owner d) (length owner) = owner \<and> part d (off_Group d) (length grp) = grp \<and>
     (\<forall>x. dacl = Some x \<longrightarrow> part d (off_Dacl d) (length x) = x) \<and>
     (\<forall>x. sacl = Some x \<longrightarrow> part d (off_Sacl d) (length x) = x)"

lemma fill_sd_holds_parts:
  assumes "acl_ok sacl" "acl_ok dacl" "length owner \<le> 68" "length grp \<le> 68"
    and size: "length (block d) =
      20 + pad4 (opt_len sacl) + pad4 (opt_len dacl) + pad4 (length owner) + pad4 (length grp)"
  shows "\<exists>d'. fill_sd control owner grp dacl sacl d = Some d' \<and> Control d' = control \<and>
    length (block d') = length (block d) \<and> holds_parts d' owner grp dacl sacl"
proof -
  have small: "pad4 (opt_len sacl) < 65539" "pad4 (opt_len dacl) < 65539"
    "pad4 (length owner) \<le> 71"
    using assms pad4_le [of "opt_len sacl"] pad4_le [of "opt_len dacl"] pad4_le [of "length owner"]
    by (auto simp: acl_ok_def)
  have ge: "length owner \<le> pad4 (length owner)" "length grp \<le> pad4 (length grp)"
    "opt_len sacl \<le> pad4 (opt_len sacl)" "opt_len dacl \<le> pad4 (opt_len dacl)"
    by (rule pad4_ge)+
  obtain b1 o1 d1 where 1: "put_acl sacl sizeof_RELATIVE (block d) = Some (b1, o1, d1)"
    "length b1 = length (block d)" "unat d1 = 20 + pad4 (opt_len sacl)"
    "\<And>x. sacl = Some x \<Longrightarrow> o1 = sizeof_RELATIVE \<and> take (length x) (drop 20 b1) = x"
    by (rule put_acl_Some [OF assms(1), of sizeof_RELATIVE "block d"]) (use size small in auto)
  obtain b2 o2 d2 where 2: "put_acl dacl d1 b1 = Some (b2, o2, d2)"
    "length b2 = length b1" "unat d2 = unat d1 + pad4 (opt_len dacl)"
    "\<And>x. dacl = Some x \<Longrightarrow> o2 = d1 \<and> take (length x) (drop (unat d1) b2) = x"
    "\<And>p n. p + n \<le> unat d1 \<Longrightarrow> take n (drop p b2) = take n (drop p b1)"
    by (rule put_acl_Some [OF assms(2), of d1 b1]) (use size small 1 in auto)
  obtain b3 where 3: "memcpy_at d2 owner b2 = Some b3" "length b3 = length b2"
    "take (length owner) (drop (unat d2) b3) = owner"
    "\<And>p n. p + n \<le> unat d2 \<Longrightarrow> take n (drop p b3) = take n (drop p b2)"
    by (rule memcpy_at_Some [of d2 owner b2]) (use size ge 1 2 in auto)
  define d3 where "d3 = d2 + ROUND_UP4 (GetLengthSid owner)"
  have d3: "unat d3 = unat d2 + pad4 (length owner)"
    unfolding d3_def using assms(3) small 1 2
    by (simp add: unat_word_ariths unat_ROUND_UP4 unat_GetLengthSid)
  obtain b4 where 4: "memcpy_at d3 grp b3 = Some b4" "length b4 = length b3"
    "take (length grp) (drop (unat d3) b4) = grp"
    "\<And>p n. p + n \<le> unat d3 \<Longrightarrow> take n (drop p b4) = take n (drop p b3)"
    by (rule memcpy_at_Some [of d3 grp b3]) (use size ge 1 2 3 d3 in auto)
  let ?d = "d\<lparr>Control := control, off_Sacl := o1, off_Dacl := o2, off_Owner := d2,
      off_Group := d3, block := b4\<rparr>"
  have "holds_parts ?d owner grp dacl sacl"
    using ge 1 2 3 4 d3 by (auto simp: holds_parts_def part_def opt_len_def)
  then show ?thesis
    using 1 2 3 4 by (intro exI [of _ ?d]) (simp add: fill_sd_def d3_def Let_def)
qed

lemma unat_new_sd_size:
  assumes "acl_ok sacl" "acl_ok dacl" "length owner \<le> 68" "length grp \<le> 68"
  shows "unat (new_sd_size owner grp dacl sacl) =
    20 + pad4 (opt_len sacl) + pad4 (opt_len dacl) + pad4 (length owner) + pad4 (length grp)"
proof -
  have up: "unat (ROUND_UP4 (case a of None \<Rightarrow> 0 | Some x \<Rightarrow> AclSize x)) = pad4 (opt_len a)"
    if "acl_ok a" for a
    using that by (cases a) (simp_all add: acl_ok_def opt_len_def unat_ROUND_UP4 unat_AclSize)
  have bounds: "pad4 (opt_len sacl) < 65539" "pad4 (opt_len dacl) < 65539"
    "pad4 (length owner) \<le> 71" "pad4 (length grp) \<le> 71"
    using assms pad4_le [of "opt_len sacl"] pad4_le [of "opt_len dacl"] pad4_le [of "length owner"]
      pad4_le [of "length grp"]
    by (auto simp: acl_ok_def)
  have sids: "unat (ROUND_UP4 (GetLengthSid owner)) = pad4 (length owner)"
    "unat (ROUND_UP4 (GetLengthSid grp)) = pad4 (length grp)"
    using assms(3,4) by (simp_all add: unat_ROUND_UP4 unat_GetLengthSid)
  show ?thesis
    using bounds assms(1,2)
    by (simp add: new_sd_size_def unat_word_ariths up sids)
qed

text \<open>
  C21: When the four parts are there (owner and group valid SIDs of at most 68 bytes, ACLs of at most
  65535 bytes, present or not) and the allocation succeeds, \<open>RtlpSetSecurityObject\<close> succeeds, every
  copy stays inside the block it allocated, the block has exactly the size computed for it, and each
  part can be read back at the offset stored in the header.
\<close>

theorem RtlpSetSecurityObject_layout:
  assumes "sec_owner E (if has_flag info OWNER_SECURITY_INFORMATION then m else ob) = Some (Some owner)"
    and "sec_group E (if has_flag info GROUP_SECURITY_INFORMATION then m else ob) = Some (Some grp)"
    and "sec_dacl E (if has_flag info DACL_SECURITY_INFORMATION then m else ob) = Some (dp, dd, dacl)"
    and "sec_sacl E (if has_flag info SACL_SECURITY_INFORMATION then m else ob) = Some (sp, sdf, sacl)"
    and "sec_IsValidSid E owner" "sec_IsValidSid E grp"
    and "length owner \<le> 68" "length grp \<le> 68" "acl_ok dacl" "acl_ok sacl"
    and "sec_HeapAlloc E (trace s) (new_sd_size owner grp dacl sacl)"
  shows "\<exists>d. fst (RtlpSetSecurityObject E info m ob s) = Ret (ERROR_SUCCESS, Some d) \<and>
    Revision d = 1 \<and> Control d AND SE_SELF_RELATIVE = SE_SELF_RELATIVE \<and>
    length (block d) = unat (new_sd_size owner grp dacl sacl) \<and>
    holds_parts d owner grp dacl sacl"
proof -
  define n where "n = new_sd_size owner grp dacl sacl"
  define d0 where "d0 = \<lparr>Revision = 1, Control = SE_SELF_RELATIVE, off_Owner = 0, off_Group = 0,
    off_Sacl = 0, off_Dacl = 0, block = map (os_garbage E (trace s)) [0..<unat n]\<rparr>"
  define control where "control = SE_SELF_RELATIVE OR
    flags_if (has_flag info DACL_SECURITY_INFORMATION \<or> dp) SE_DACL_PRESENT OR
    flags_if (\<not> has_flag info DACL_SECURITY_INFORMATION \<and> dd) SE_DACL_DEFAULTED OR
    flags_if (has_flag info SACL_SECURITY_INFORMATION \<or> sp) SE_SACL_PRESENT OR
    flags_if (\<not> has_flag info SACL_SECURITY_INFORMATION \<and> sdf) SE_SACL_DEFAULTED"
  have "length (block d0) = unat n" by (simp add: d0_def)
  then obtain d where d: "fill_sd control owner grp dacl sacl d0 = Some d" "Control d = control"
    "length (block d) = unat n" "holds_parts d owner grp dacl sacl"
    using fill_sd_holds_parts [of sacl dacl owner grp d0 control] assms
    unfolding n_def by (auto simp: unat_new_sd_size)
  have rev: "Revision d = 1"
    using d(1) by (auto simp: fill_sd_def d0_def Let_def split: option.splits prod.splits)
  have "control AND SE_SELF_RELATIVE = SE_SELF_RELATIVE"
    unfolding control_def by (rule bit_word_eqI) (auto simp: bit_and_iff bit_or_iff)
  moreover have "fst (RtlpSetSecurityObject E info m ob s) = Ret (ERROR_SUCCESS, Some d)"
    using assms d(1)
    by (simp add: RtlpSetSecurityObject_def RtlCreateSecurityDescriptorRelative_def bind_def
        gets_def lift_outcome_def or_fault_def return_def control_def d0_def n_def Let_def)
  ultimately show ?thesis using d rev by (simp add: n_def)
qed

theorem RtlpSetSecurityObject_layout_witness:
  "\<exists>d. fst (RtlpSetSecurityObject sample_system DACL_SECURITY_INFORMATION (replicate 16 2)
      (replicate 12 1) \<lparr>trace = []\<rparr>) = Ret (ERROR_SUCCESS, Some d) \<and>
    holds_parts d (replicate 12 1) (replicate 12 1) (Some (replicate 4 2)) None"
  using RtlpSetSecurityObject_layout [of sample_system DACL_SECURITY_INFORMATION "replicate 16 2"
      "replicate 12 1" "replicate 12 1" "replicate 12 1" True False "Some (replicate 4 2)" False
      False None "\<lparr>trace = []\<rparr>"]
  by (auto simp: sample_system_def acl_ok_def opt_len_def)

end
