(* ===== verification/AccountLookup.thy ===== *)
theory AccountLookup
  imports WinSec
begin

text \<open>
  The account queries of \<open>WinSec\<close> that no file operation calls (seamless_smb_lib/WinSec.cpp): the
  default access list of the unelevated user, and the SID of an account name. They allocate, so the
  blocks they leave allocated are counted; the answers of the security API are a record.
\<close>

record accounts = secos +
  sec_TokenDefaultDacl :: "hist \<Rightarrow> handle \<Rightarrow> u8 list option option"
  sec_LookupProbe :: "wstr \<Rightarrow> bool \<times> dword \<times> dword \<times> dword"
    \<comment> \<open>success, last error, and the sizes of the SID and of the domain name\<close>
  sec_LookupAccount :: "wstr \<Rightarrow> sid option"
  sec_from_string :: "wstr \<Rightarrow> sd option"
  sec_LocalAlloc :: "nat \<Rightarrow> dword \<Rightarrow> bool" \<comment> \<open>by the number of blocks allocated so far\<close>

abbreviation ERROR_INSUFFICIENT_BUFFER :: dword where "ERROR_INSUFFICIENT_BUFFER \<equiv> 122"

subsection \<open>The default access list\<close>

text \<open>
  The linked token is asked for its default list, which is copied. A token without a default list
  gives a null pointer, which is read. The answer is the error code and the copy.
\<close>

definition GetNotElevatedDefaultDacl ::
  "('a) accounts_scheme \<Rightarrow> ('w world_scheme, dword \<times> u8 list option) prog" where
  "GetNotElevatedDefaultDacl E =
    bind (open_linked_token E) (\<lambda>(err, linked).
    if err \<noteq> 0 then return (err, None)
    else
      bind (syscall (\<lambda>t. sec_TokenDefaultDacl E t linked) (\<lambda>_. SecurityCall)) (\<lambda>r.
      case r of
        None \<Rightarrow> bind (GetLastError E) (\<lambda>err. return (err, None))
      | Some dacl \<Rightarrow> bind (or_fault NullPointer dacl) (\<lambda>a. return (0, Some a))))"

text \<open>Nobody closes the linked token, also when all goes well.\<close>

lemma default_dacl_token_open:
  assumes "live h" and "live tok" and "tok \<noteq> h"
    and "\<And>t. os_open E t ProcessTokenCall = h" and "\<And>t. os_open E t (LinkedTokenCall h) = tok"
    and "\<And>t. sec_ElevationType E t h = Some TokenElevationTypeFull"
    and "\<And>t. sec_TokenDefaultDacl E t tok = Some (Some a)"
  shows "wpf (GetNotElevatedDefaultDacl E)
    (\<lambda>r s'. r = (0, Some a) \<and> net_open (trace s') tok = net_open (trace s) tok + 1) (\<lambda>_ _. False) s"
  using assms
  by (simp add: GetNotElevatedDefaultDacl_def open_linked_token_def BOOL_TO_ERROR_def wp_simps sys_defs
      live_def)

subsection \<open>The SID of an account\<close>

text \<open>The answer, and the number of blocks that stay allocated.\<close>

definition get_sid :: "('a) accounts_scheme \<Rightarrow> wstr \<Rightarrow> sid option \<times> nat" where
  "get_sid E name =
     (let (ok, err, sid_size, dom_size) = sec_LookupProbe E name in
      if \<not> ok \<and> err \<noteq> ERROR_INSUFFICIENT_BUFFER then (None, 0)
      else
        (let have_sid = sec_LocalAlloc E 0 sid_size; n = of_bool have_sid;
             have_domain = sec_LocalAlloc E n dom_size; n = n + of_bool have_domain in
         if \<not> have_sid \<or> \<not> have_domain then
           (None, n - of_bool have_sid - of_bool have_domain)
         else
           (case sec_LookupAccount E name of
              None \<Rightarrow> (None, n - 2)
            | Some sid \<Rightarrow> (Some sid, n - 1))))"

text \<open>The only block that survives is the SID that is handed out.\<close>

lemma get_sid_blocks: "snd (get_sid E name) = of_bool (fst (get_sid E name) \<noteq> None)"
  by (auto simp: get_sid_def Let_def split: prod.split option.split)

subsection \<open>Descriptors as text\<close>

text \<open>
  \<open>SecurityProcessor\<close> (seamless_smb_lib/securityprocessor.cpp). \<open>getAllData\<close> returns after the
  conversion, what follows in its body is never reached. \<open>generateDescriptor\<close> has the pointer by value:
  the answer is the status, the pointer the caller has afterwards, and the block left allocated.
\<close>

definition getAllData ::
  "('a) accounts_scheme \<Rightarrow> sd \<Rightarrow> wstr \<Rightarrow> ('w world_scheme, dword \<times> wstr) prog" where
  "getAllData E d strindsd =
    (case sec_to_string E d of
       None \<Rightarrow> bind (GetLastError E) (\<lambda>err. return (err, strindsd))
     | Some str \<Rightarrow> return (ERROR_SUCCESS, str))"

definition generateDescriptor ::
  "('a) accounts_scheme \<Rightarrow> sd option \<Rightarrow> wstr \<Rightarrow>
    ('w world_scheme, dword \<times> sd option \<times> sd option) prog" where
  "generateDescriptor E pSecurityDescriptor strindsd =
    (case sec_from_string E (c_str strindsd) of
       None \<Rightarrow> bind (GetLastError E) (\<lambda>err. return (err, pSecurityDescriptor, None))
     | Some d \<Rightarrow> return (ERROR_SUCCESS, pSecurityDescriptor, Some d))"

text \<open>
  Text and back: when the conversions are inverse to each other, both calls succeed, and yet the
  caller who started with a null pointer still has one; the descriptor is in a block nobody has.
\<close>

lemma descriptor_text_is_lost:
  assumes "sec_to_string E d = Some str" and "sec_from_string E (c_str str) = Some d"
  shows "wpf (bind (getAllData E d []) (\<lambda>(st, txt).
        bind (generateDescriptor E None txt) (\<lambda>(st', p, lost). return (st, st', p, lost))))
    (\<lambda>r s'. r = (ERROR_SUCCESS, ERROR_SUCCESS, None, Some d) \<and> s' = s) (\<lambda>_ _. False) s"
  by (simp add: getAllData_def generateDescriptor_def wp_simps assms)

end
