(* ===== verification/SecurityPrint.thy ===== *)
theory SecurityPrint
  imports WinSec
begin

text \<open>
  What \<open>WinSec\<close> prints of descriptors, access lists and SIDs (seamless_smb_lib/WinSec.cpp). It is not
  only output: the functions allocate, look accounts up into buffers whose sizes they never set, and
  free a pointer. Modelled are the lines that reach the debug log (format and arguments, the line end left
  out), the blocks allocated, and the faults.
\<close>

datatype arg = Text "wstr option" | Num dword

record log_state =
  lines :: "(string \<times> arg list) list" \<comment> \<open>newest first\<close>
  blocks :: nat

record listed_ace = ace +
  ace_type :: u8

record printer = secos +
  sec_IsValidDescriptor :: "sd \<Rightarrow> bool"
  sec_GetAce :: "u8 list \<Rightarrow> nat \<Rightarrow> listed_ace option"
  sec_LookupAccountSid :: "sid \<Rightarrow> dword \<Rightarrow> dword \<Rightarrow> (wstr \<times> wstr) option \<times> dword \<times> dword"
    \<comment> \<open>by the sizes given: the name and the domain written, and the sizes afterwards\<close>
  sec_ModuleFileName :: "dword \<Rightarrow> wstr"
  sec_NamedSecurity :: "wstr \<Rightarrow> dword \<times> sid option \<times> sid option"

abbreviation ACCESS_ALLOWED_ACE_TYPE :: u8 where "ACCESS_ALLOWED_ACE_TYPE \<equiv> 0"
abbreviation ACCESS_DENIED_ACE_TYPE :: u8 where "ACCESS_DENIED_ACE_TYPE \<equiv> 1"
abbreviation GENERIC_EXECUTE :: dword where "GENERIC_EXECUTE \<equiv> 0x20000000"
abbreviation GENERIC_ALL :: dword where "GENERIC_ALL \<equiv> 0x10000000"
abbreviation MAX_PATH :: dword where "MAX_PATH \<equiv> 260"

text \<open>In debug mode a line is formatted, which reads its strings; \<open>None\<close> is a buffer never written.\<close>

definition m_print :: "bool \<Rightarrow> string \<Rightarrow> arg list \<Rightarrow> (log_state, unit) prog" where
  "m_print debug format args =
    (if \<not> debug then return ()
     else if Text None \<in> set args then fail Uninitialised
     else modify (\<lambda>s. s\<lparr>lines := (format, args) # lines s\<rparr>))"

subsection \<open>Accounts\<close>

text \<open>The two buffers of 512 units and the two size variables.\<close>

record account_buffers =
  oname :: "wstr option"
  namelen :: dword
  doname :: "wstr option"
  domainnamelen :: dword

definition new_buffers :: "dword \<times> dword \<Rightarrow> (log_state, account_buffers) prog" where
  "new_buffers junk =
    bind (modify (\<lambda>s. s\<lparr>blocks := blocks s + 2\<rparr>)) (\<lambda>_.
    return \<lparr>oname = None, namelen = fst junk, doname = None, domainnamelen = snd junk\<rparr>)"

definition LookupAccountSid ::
  "('a) printer_scheme \<Rightarrow> sid \<Rightarrow> account_buffers \<Rightarrow> (log_state, account_buffers) prog" where
  "LookupAccountSid E sid b =
    (let (answer, n, d) = sec_LookupAccountSid E sid (namelen b) (domainnamelen b);
         b = b\<lparr>namelen := n, domainnamelen := d\<rparr> in
     case answer of
       None \<Rightarrow> return b
     | Some (account, domain) \<Rightarrow>
         if length account < 512 \<and> length domain < 512
         then return (b\<lparr>oname := Some account, doname := Some domain\<rparr>)
         else fail OutOfBounds)"

definition printSid ::
  "('a) printer_scheme \<Rightarrow> bool \<Rightarrow> dword \<times> dword \<Rightarrow> sid option \<Rightarrow> (log_state, unit) prog" where
  "printSid E debug junk sido =
    (case sido of
       None \<Rightarrow> return ()
     | Some sid \<Rightarrow>
         bind (new_buffers junk) (\<lambda>b.
         bind (LookupAccountSid E sid b) (\<lambda>b.
         m_print debug ''%s/%s'' [Text (doname b), Text (oname b)])))"

subsection \<open>Access lists\<close>

definition mask_names :: "(dword \<times> string) list" where
  "mask_names =
    [(DELETE_RIGHT, '' DELETE''), (FILE_GENERIC_READ, '' FILE_GENERIC_READ''),
     (FILE_GENERIC_WRITE, '' FILE_GENERIC_WRITE''), (FILE_GENERIC_EXECUTE, '' FILE_GENERIC_EXECUTE''),
     (GENERIC_READ, '' GENERIC_READ''), (GENERIC_WRITE, '' GENERIC_WRITE''),
     (GENERIC_EXECUTE, '' GENERIC_EXECUTE''), (GENERIC_ALL, '' GENERIC_ALL''),
     (READ_CONTROL, '' READ_CONTROL''), (WRITE_DAC, '' WRITE_DAC''), (WRITE_OWNER, '' WRITE_OWNER''),
     (SYNCHRONIZE, '' SYNCHRONIZE'')]"

fun print_all :: "bool \<Rightarrow> string list \<Rightarrow> (log_state, unit) prog" where
  "print_all debug [] = return ()"
| "print_all debug (l # ls) = bind (m_print debug l []) (\<lambda>_. print_all debug ls)"

definition SidStart :: "listed_ace \<Rightarrow> dword" where
  "SidStart a = (case ace_sid a of
     b0 # b1 # b2 # b3 # _ \<Rightarrow> ucast b0 OR push_bit 8 (ucast b1) OR push_bit 16 (ucast b2) OR push_bit 24 (ucast b3)
   | _ \<Rightarrow> 0)"

definition print_entry ::
  "('a) printer_scheme \<Rightarrow> bool \<Rightarrow> listed_ace \<Rightarrow> account_buffers \<Rightarrow> (log_state, account_buffers) prog" where
  "print_entry E debug a b =
    bind (if ace_type a = ACCESS_ALLOWED_ACE_TYPE then
            bind (LookupAccountSid E (ace_sid a) b) (\<lambda>b.
            bind (m_print debug ''ASID %s/%s'' [Text (doname b), Text (oname b)]) (\<lambda>_. return b))
          else if ace_type a = ACCESS_DENIED_ACE_TYPE then
            bind (LookupAccountSid E (ace_sid a) b) (\<lambda>b.
            bind (m_print debug ''DSID %s/%s'' [Text (doname b), Text (oname b)]) (\<lambda>_. return b))
          else bind (m_print debug ''Other ACE'' []) (\<lambda>_. return b)) (\<lambda>b.
    bind (m_print debug ''ACE: mask:%d sidStart:%d header type=%d header flags=%d''
            [Num (ace_mask a), Num (SidStart a), Num (ucast (ace_type a)), Num (ucast (ace_flags a))]) (\<lambda>_.
    bind (print_all debug (map snd (filter (\<lambda>(m, _). ace_mask a AND m \<noteq> 0) mask_names))) (\<lambda>_.
    return b)))"

text \<open>\<open>GetAce\<close> leaves the variable as it was when it fails: the entry before, or nothing.\<close>

fun print_entries ::
  "('a) printer_scheme \<Rightarrow> bool \<Rightarrow> u8 list \<Rightarrow> nat list \<Rightarrow> listed_ace option \<Rightarrow> account_buffers \<Rightarrow>
    (log_state, unit) prog" where
  "print_entries E debug pdacl [] ace b = return ()"
| "print_entries E debug pdacl (i # is) ace b =
    (let ace = (case sec_GetAce E pdacl i of None \<Rightarrow> ace | Some a \<Rightarrow> Some a) in
     bind (or_fault Uninitialised ace) (\<lambda>a.
     bind (print_entry E debug a b) (\<lambda>b.
     print_entries E debug pdacl is ace b)))"

definition AceCount :: "u8 list \<Rightarrow> nat outcome" where
  "AceCount acl =
     (if length acl < 8 then Fault OutOfBounds else Ret (unat (acl ! 4) + 256 * unat (acl ! 5)))"

definition rule_line :: string where
  "rule_line = replicate 57 (CHR ''-'')"

definition printACL ::
  "('a) printer_scheme \<Rightarrow> bool \<Rightarrow> dword \<times> dword \<Rightarrow> u8 list \<Rightarrow> (log_state, unit) prog" where
  "printACL E debug junk pdacl =
    bind (new_buffers junk) (\<lambda>b.
    bind (m_print debug rule_line []) (\<lambda>_.
    bind (lift_outcome (AceCount pdacl)) (\<lambda>n.
    bind (print_entries E debug pdacl [0..<n] None b) (\<lambda>_.
    m_print debug rule_line []))))"

subsection \<open>Descriptors\<close>

text \<open>\<open>LocalFree\<close> of the text is reached on both branches, but only one may have set the pointer.\<close>

definition LocalFree_text :: "wstr option \<Rightarrow> (log_state, unit) prog" where
  "LocalFree_text str =
    (case str of None \<Rightarrow> fail Uninitialised | Some _ \<Rightarrow> modify (\<lambda>s. s\<lparr>blocks := blocks s - 1\<rparr>))"

definition printSD ::
  "('a) printer_scheme \<Rightarrow> bool \<Rightarrow> dword \<times> dword \<Rightarrow> sd option \<Rightarrow> dword \<Rightarrow> (log_state, unit) prog" where
  "printSD E debug junk sdo num =
    (case sdo of
       None \<Rightarrow> return ()
     | Some d \<Rightarrow>
         if sec_IsValidDescriptor E d then
           (let str = sec_to_string E d in
            bind (whenM (str \<noteq> None) (modify (\<lambda>s. s\<lparr>blocks := blocks s + 1\<rparr>))) (\<lambda>_.
            bind (m_print debug ''Security Descriptor %d string %s'' [Num num, Text str]) (\<lambda>_.
            bind (case sec_dacl E d of
                    None \<Rightarrow> or_fault Uninitialised None
                  | Some (present, defaulted, acl) \<Rightarrow>
                      whenM (present \<and> debug)
                        (bind (or_fault NullPointer acl) (\<lambda>a. printACL E debug junk a))) (\<lambda>_.
            LocalFree_text str))))
         else
           bind (m_print debug ''Security Descriptor %d INVALID'' [Num num]) (\<lambda>_.
           LocalFree_text None))"

definition GetExeOwnerAndGroup :: "('a) printer_scheme \<Rightarrow> dword \<times> sid option \<times> sid option" where
  "GetExeOwnerAndGroup E = sec_NamedSecurity E (sec_ModuleFileName E MAX_PATH)"

subsection \<open>What printing does besides\<close>

lemma wpf_m_print [wp_simps]:
  "wpf (m_print debug f as) Q F s =
    (if \<not> debug then Q () s else if Text None \<in> set as then F Uninitialised s
     else Q () (s\<lparr>lines := (f, as) # lines s\<rparr>))"
  by (simp add: m_print_def wp_simps)

definition blocks_are :: "nat \<Rightarrow> log_state \<Rightarrow> bool" where
  "blocks_are n s \<longleftrightarrow> blocks s = n"

lemma blocks_steps:
  "preserves (blocks_are n) (m_print debug f as)" "preserves (blocks_are n) (LookupAccountSid E sid b)"
  by (rule preserves_by_wpf; simp add: LookupAccountSid_def wp_simps blocks_are_def Let_def
      split: prod.split option.split)+

lemma blocks_print_all: "preserves (blocks_are n) (print_all debug ls)"
  by (induction ls) (auto intro: preserves_intros blocks_steps)

lemma blocks_entry: "preserves (blocks_are n) (print_entry E debug a b)"
  unfolding print_entry_def by (intro preserves_intros blocks_steps blocks_print_all)

lemma blocks_entries: "preserves (blocks_are n) (print_entries E debug acl is ace b)"
  by (induction "is" arbitrary: ace b) (auto simp: Let_def intro!: preserves_intros blocks_entry)

text \<open>Printing a list leaves the two name buffers allocated, every time, and printing a SID does too.\<close>

theorem printACL_leaks:
  "wpf (printACL E debug junk acl) (\<lambda>_ s'. blocks s' = blocks s + 2) (\<lambda>_ s'. blocks s' = blocks s + 2) s"
proof -
  let ?body = "\<lambda>b. bind (m_print debug rule_line []) (\<lambda>_. bind (lift_outcome (AceCount acl)) (\<lambda>n.
      bind (print_entries E debug acl [0..<n] None b) (\<lambda>_. m_print debug rule_line [])))"
  have "preserves (blocks_are n) (?body b)" for n b
    by (intro preserves_intros blocks_steps blocks_entries)
  from wpf_by_preserves [OF this]
  have "wpf (?body b) (\<lambda>_ s'. blocks s' = n) (\<lambda>_ s'. blocks s' = n) s'" if "blocks s' = n" for n b s'
    using that by (simp add: blocks_are_def [abs_def])
  then show ?thesis
    unfolding printACL_def new_buffers_def wpf_bind [of "bind _ _"] wpf_bind [of "modify _"] wpf_modify wpf_return
    by simp
qed

text \<open>
  The sizes are set once, to whatever was there, and afterwards they are what the lookup before left:
  with a system that looks at them, an account whose name is not shorter than the one printed before
  is not looked up, and the earlier account is printed in its place.
\<close>

definition sizes_matter :: "('a) printer_scheme \<Rightarrow> (sid \<Rightarrow> wstr \<times> wstr) \<Rightarrow> bool" where
  "sizes_matter E acc \<longleftrightarrow> (\<forall>sid n d. sec_LookupAccountSid E sid n d =
     (let (a, dm) = acc sid in
      if length a < unat n \<and> length dm < unat d
      then (Some (a, dm), of_nat (length a), of_nat (length dm))
      else (None, of_nat (length a) + 1, of_nat (length dm) + 1)))"

theorem earlier_account_printed:
  assumes "sizes_matter E acc" and "acc sid = (a, dm)" and "acc sid' = (a', dm')"
    and "length a < 512" "length dm < 512" and "length a < unat (namelen b)" "length dm < unat (domainnamelen b)"
    and "length a \<le> length a'"
  shows "wpf (bind (LookupAccountSid E sid b) (LookupAccountSid E sid'))
    (\<lambda>b' s'. oname b' = Some a \<and> doname b' = Some dm \<and> s' = s) (\<lambda>_ _. False) s"
proof -
  have "length a < 2 ^ 32" using assms(4) by simp
  then have "unat (of_nat (length a) :: dword) = length a" by (simp add: unat_of_nat)
  then show ?thesis
    using assms by (simp add: LookupAccountSid_def wp_simps sizes_matter_def)
qed

text \<open>Printing a descriptor that is not valid frees a pointer that was never set, debug mode or not.\<close>

theorem printSD_frees_garbage:
  assumes "\<not> sec_IsValidDescriptor E d"
  shows "wpf (printSD E debug junk (Some d) num) (\<lambda>_ _. False) (\<lambda>e _. e = Uninitialised) s"
  using assms by (simp add: printSD_def LocalFree_text_def wp_simps)

theorem printSD_quiet:
  assumes "sec_IsValidDescriptor E d" and "sec_to_string E d = Some str" and "sec_dacl E d = Some r"
  shows "wpf (printSD E False junk (Some d) num) (\<lambda>_ s'. s' = s) (\<lambda>_ _. False) s"
  using assms by (cases r) (simp add: printSD_def LocalFree_text_def wp_simps)

end
