(* ===== verification/Codec.thy ===== *)
theory Codec
  imports Prelude
begin

text \<open>
  The contract of a serializer: what was written for a value is read back as that value, and the
  reader leaves the rest of the stream untouched. The file nodes kept on disk and the mount
  settings exchanged through the settings file are instances.
\<close>

locale codec =
  fixes ok :: "'a \<Rightarrow> bool"
    and enc :: "'a \<Rightarrow> 't list"
    and dec :: "'t list \<Rightarrow> ('a \<times> 't list) option"
  assumes dec_enc: "ok x \<Longrightarrow> dec (enc x @ r) = Some (x, r)"

text \<open>Sequences: a count of items known, the items behind each other.\<close>

fun dec_items :: "('t list \<Rightarrow> ('a \<times> 't list) option) \<Rightarrow> nat \<Rightarrow> 't list \<Rightarrow> ('a list \<times> 't list) option"
  where
  "dec_items dec 0 ts = Some ([], ts)"
| "dec_items dec (Suc n) ts =
     (case dec ts of None \<Rightarrow> None
      | Some (x, r) \<Rightarrow> map_option (\<lambda>(xs, r'). (x # xs, r')) (dec_items dec n r))"

context codec begin

lemma dec_enc_empty: "ok x \<Longrightarrow> dec (enc x) = Some (x, [])"
  using dec_enc [of x "[]"] by simp

lemma enc_inj:
  assumes "ok x" "ok y" "enc x @ r = enc y @ r'"
  shows "x = y \<and> r = r'"
proof -
  have "Some (x, r) = dec (enc y @ r')"
    using dec_enc [OF assms(1), of r] by (simp only: assms(3))
  also have "\<dots> = Some (y, r')" by (rule dec_enc [OF assms(2)])
  finally show ?thesis by blast
qed

lemma dec_items_enc:
  "list_all ok xs \<Longrightarrow> dec_items dec (length xs) (concat (map enc xs) @ r) = Some (xs, r)"
  by (induction xs) (simp_all add: dec_enc)

lemma enc_prefix_free:
  assumes "ok x" "ok y" "prefix (enc x) (enc y)"
  shows "x = y"
proof -
  from assms(3) obtain r where "enc y = enc x @ r" by (auto simp: prefix_def)
  then show ?thesis using enc_inj [OF assms(1,2), of r "[]"] by simp
qed

end

text \<open>
  A reader that notices a missing end: every proper beginning of what was written is refused. Sequences
  of known length then have the same property.
\<close>

locale strict_codec = codec +
  assumes dec_cut: "ok x \<Longrightarrow> strict_prefix p (enc x) \<Longrightarrow> dec p = None"
begin

lemma dec_items_cut:
  "list_all ok xs \<Longrightarrow> strict_prefix p (concat (map enc xs)) \<Longrightarrow> dec_items dec (length xs) p = None"
proof (induction xs arbitrary: p)
  case (Cons x xs)
  show ?case
  proof (cases "strict_prefix p (enc x)")
    case True
    then have "dec p = None" using Cons.prems(1) by (intro dec_cut) simp_all
    then show ?thesis by simp
  next
    case False
    then obtain q where "p = enc x @ q" "strict_prefix q (concat (map enc xs))"
      using Cons.prems(2) by (cases "p = enc x") (auto simp: strict_prefix_def prefix_append)
    then show ?thesis using Cons dec_enc [of x q] by simp
  qed
qed simp

end

end
