(* ===== verification/Nodes.thy ===== *)
theory Nodes
  imports WinSec Codec
begin

text \<open>
  The file nodes of a mount (seamless_smb_lib/nodes.h, filenode.h, filenode.cpp): for each name that
  has one, its attributes and its own security descriptor. Nodes are shared objects, so they live in
  a store under an address, and the list \<open>filenodes\<close> holds addresses: a rename or a new descriptor
  changes the object in place. The boost archive that saves them is a sequence of typed items.
\<close>

type_synonym ptr = nat

record security_informations =
  strdescriptor :: wstr
  descriptor :: "u8 list"
  descriptor_size :: dword

record filenode =
  is_directory :: bool
  attributes :: dword
  fileName :: wstr
  security :: security_informations

definition no_security :: security_informations where
  "no_security = \<lparr>strdescriptor = [], descriptor = [], descriptor_size = 0\<rparr>"

definition new_node :: "wstr \<Rightarrow> bool \<Rightarrow> dword \<Rightarrow> filenode" where
  "new_node name dir attr =
     \<lparr>is_directory = dir, attributes = attr, fileName = name, security = no_security\<rparr>"

record nodes =
  filenodes :: "ptr list"
  store :: "ptr \<Rightarrow> filenode"
  next_ptr :: ptr
  writeCounts :: "handle \<Rightarrow> u8 option"

definition empty_nodes :: nodes where
  "empty_nodes = \<lparr>filenodes = [], store = (\<lambda>_. new_node [] False 0), next_ptr = 0,
     writeCounts = (\<lambda>_. None)\<rparr>"

subsection \<open>Descriptors of one node\<close>

text \<open>
  \<open>SetDescriptor\<close>. A descriptor that is not self-relative is converted in place, source and target
  being the same buffer; the size the call leaves is then copied from that buffer. The string is
  built from a pointer that a failed conversion does not set.
\<close>

definition SetDescriptor ::
  "('a) secos_scheme \<Rightarrow> sd option \<Rightarrow> security_informations \<Rightarrow> security_informations outcome" where
  "SetDescriptor E sdo si =
    (case sdo of
       None \<Rightarrow> Ret si
     | Some d \<Rightarrow>
        (let internalsize = sec_length E d;
             (internal, size) = (if \<not> isSelfRelative E d then sec_MakeSelfRelative E d internalsize
                                 else (d, internalsize)) in
         if unat size > length internal then Fault OutOfBounds
         else (case sec_to_string E internal of
                 None \<Rightarrow> Fault Uninitialised
               | Some str \<Rightarrow> Ret (si\<lparr>descriptor_size := size, descriptor := take (unat size) internal,
                                    strdescriptor := str\<rparr>))))"

text \<open>
  \<open>GetDescriptor\<close> answers a copy of the node's descriptor, or the default one if it has none.
  The comparison of the two strings only chooses a message.
\<close>

definition GetDescriptor ::
  "('a) secos_scheme \<Rightarrow> security_informations \<Rightarrow> ('w winsec_scheme, sd option) prog" where
  "GetDescriptor E si =
    (if descriptor_size si \<noteq> 0 then
       (if unat (descriptor_size si) > length (descriptor si) then fail OutOfBounds
        else return (Some (take (unat (descriptor_size si)) (descriptor si))))
     else bind (CreateDefaultSelfRelativeSD E) (\<lambda>(st, d). return d))"

definition security_ok :: "security_informations \<Rightarrow> bool" where
  "security_ok si \<longleftrightarrow> length (descriptor si) = unat (descriptor_size si)"

lemma SetDescriptor_ok: "SetDescriptor E sdo si = Ret si' \<Longrightarrow> security_ok si \<Longrightarrow> security_ok si'"
  by (auto simp: SetDescriptor_def security_ok_def Let_def split: option.splits if_splits prod.splits)

lemma GetDescriptor_nonempty:
  "security_ok si \<Longrightarrow> descriptor_size si \<noteq> 0 \<Longrightarrow> GetDescriptor E si = return (Some (descriptor si))"
  by (simp add: GetDescriptor_def security_ok_def)

subsection \<open>Operations on the list\<close>

definition node_name :: "nodes \<Rightarrow> ptr \<Rightarrow> wstr" where
  "node_name n p = fileName (store n p)"

definition make_shared :: "filenode \<Rightarrow> nodes \<Rightarrow> ptr \<times> nodes" where
  "make_shared f n =
     (next_ptr n, n\<lparr>store := (store n)(next_ptr n := f), next_ptr := Suc (next_ptr n)\<rparr>)"

definition findFileNode :: "nodes \<Rightarrow> wstr \<Rightarrow> ptr option" where
  "findFileNode n fname = find (\<lambda>p. node_name n p = fname) (filenodes n)"

definition addFileNode :: "ptr option \<Rightarrow> nodes \<Rightarrow> bool \<times> nodes" where
  "addFileNode po n =
    (case po of
       None \<Rightarrow> (False, n)
     | Some p \<Rightarrow>
        (case findFileNode n (node_name n p) of
           None \<Rightarrow> (True, n\<lparr>filenodes := filenodes n @ [p]\<rparr>)
         | Some _ \<Rightarrow> (False, n)))"

definition set_name :: "ptr \<Rightarrow> wstr \<Rightarrow> nodes \<Rightarrow> nodes" where
  "set_name p fname n = n\<lparr>store := (store n)(p := (store n p)\<lparr>fileName := fname\<rparr>)\<rparr>"

definition rename :: "wstr \<Rightarrow> wstr \<Rightarrow> nodes \<Rightarrow> bool \<times> nodes" where
  "rename fname newfname n =
    (if filenodes n = [] then (False, n)
     else case findFileNode n fname of
       None \<Rightarrow> (False, n)
     | Some p \<Rightarrow> (True, set_name p newfname n))"

definition move :: "wstr \<Rightarrow> wstr \<Rightarrow> nodes \<Rightarrow> bool \<times> nodes" where
  "move fname newfname n = rename fname newfname n"

definition deleteFileNode :: "wstr \<Rightarrow> nodes \<Rightarrow> bool \<times> nodes" where
  "deleteFileNode fname n =
    (if filenodes n = [] then (False, n)
     else case findFileNode n fname of
       None \<Rightarrow> (False, n)
     | Some p \<Rightarrow> (True, n\<lparr>filenodes := removeAll p (filenodes n)\<rparr>))"

definition deleteFileNode_ptr :: "ptr \<Rightarrow> nodes \<Rightarrow> bool \<times> nodes" where
  "deleteFileNode_ptr p n =
    (if filenodes n = [] then (False, n)
     else (True, n\<lparr>filenodes := removeAll p (filenodes n)\<rparr>))"

definition set_security :: "ptr \<Rightarrow> security_informations \<Rightarrow> nodes \<Rightarrow> nodes" where
  "set_security p si n = n\<lparr>store := (store n)(p := (store n p)\<lparr>security := si\<rparr>)\<rparr>"

subsection \<open>Invariants\<close>

text \<open>Every listed address is allocated and listed once; every descriptor has its stated size.\<close>

definition nodes_ok :: "nodes \<Rightarrow> bool" where
  "nodes_ok n \<longleftrightarrow> distinct (filenodes n) \<and> (\<forall>p \<in> set (filenodes n). p < next_ptr n) \<and>
     (\<forall>p. security_ok (security (store n p)))"

definition names_distinct :: "nodes \<Rightarrow> bool" where
  "names_distinct n \<longleftrightarrow> distinct (map (node_name n) (filenodes n))"

lemma security_ok_new_node [simp]: "security_ok (security (new_node f d a))"
  by (simp add: new_node_def no_security_def security_ok_def)

lemma nodes_ok_empty: "nodes_ok empty_nodes"
  by (simp add: nodes_ok_def empty_nodes_def)

lemma nodes_ok_make_shared:
  "nodes_ok n \<Longrightarrow> security_ok (security f) \<Longrightarrow> nodes_ok (snd (make_shared f n))"
  by (auto simp: nodes_ok_def make_shared_def less_Suc_eq)

lemma find_in_filenodes: "findFileNode n f = Some p \<Longrightarrow> p \<in> set (filenodes n) \<and> node_name n p = f"
  by (auto simp: findFileNode_def find_Some_iff)

lemma find_none_iff: "findFileNode n f = None \<longleftrightarrow> f \<notin> node_name n ` set (filenodes n)"
  by (auto simp: findFileNode_def find_None_iff)

lemma nodes_ok_addFileNode:
  "nodes_ok n \<Longrightarrow> (\<And>p. po = Some p \<Longrightarrow> p < next_ptr n) \<Longrightarrow> nodes_ok (snd (addFileNode po n))"
  by (auto simp: nodes_ok_def addFileNode_def find_none_iff split: option.split)

lemma nodes_ok_rename: "nodes_ok n \<Longrightarrow> nodes_ok (snd (rename f g n))"
  by (auto simp: nodes_ok_def rename_def set_name_def split: option.split)

lemma nodes_ok_deleteFileNode: "nodes_ok n \<Longrightarrow> nodes_ok (snd (deleteFileNode f n))"
  by (auto simp: nodes_ok_def deleteFileNode_def distinct_removeAll split: option.split)

lemma nodes_ok_deleteFileNode_ptr: "nodes_ok n \<Longrightarrow> nodes_ok (snd (deleteFileNode_ptr p n))"
  by (auto simp: nodes_ok_def deleteFileNode_ptr_def distinct_removeAll)

lemma nodes_ok_set_security: "nodes_ok n \<Longrightarrow> security_ok si \<Longrightarrow> nodes_ok (set_security p si n)"
  by (auto simp: nodes_ok_def set_security_def)

lemmas nodes_ok_ops = nodes_ok_make_shared nodes_ok_addFileNode nodes_ok_rename
  nodes_ok_deleteFileNode nodes_ok_deleteFileNode_ptr nodes_ok_set_security

end
