(* ===== verification/Cache.thy ===== *)
theory Cache
  imports Win32
begin

text \<open>
  The cache of one special file (seamless_smb_lib/cache.cpp, cache.h): the contents and the
  information of \<open>\.bzvol\bzvol_id.xml\<close>, filled by the read and information handlers and meant to be
  dropped by a thread that listens to directory change notifications. A notification is its action
  and its name; a buffer of notifications is a list.
\<close>

definition bzvolfile :: wstr where
  "bzvolfile = W [CHR 0x5C] @ W ''.bzvol'' @ W [CHR 0x5C] @ W ''bzvol_id.xml''"

definition zero_info :: by_handle_info where
  "zero_info = \<lparr>dwFileAttributes = 0, ftCreationTime = 0, ftLastAccessTime = 0,
     ftLastWriteTime = 0, dwVolumeSerialNumber = 0, nFileSizeHigh = 0, nFileSizeLow = 0,
     nNumberOfLinks = 0, nFileIndex = 0\<rparr>"

record cache =
  GetVolumeInformationNotAvailable :: bool
  bzvolInfo :: by_handle_info
  bzvolInfoSet :: bool
  bzvolData :: "u8 list" \<comment> \<open>the allocated block, empty for a null pointer\<close>
  bzvolDataLength :: dword
  bzvolDataOffset :: ulong64

definition empty_cache :: cache where
  "empty_cache = \<lparr>GetVolumeInformationNotAvailable = False, bzvolInfo = zero_info,
     bzvolInfoSet = False, bzvolData = [], bzvolDataLength = 0, bzvolDataOffset = 0\<rparr>"

abbreviation FILE_ACTION_ADDED :: dword where "FILE_ACTION_ADDED \<equiv> 1"
abbreviation FILE_ACTION_REMOVED :: dword where "FILE_ACTION_REMOVED \<equiv> 2"
abbreviation FILE_ACTION_MODIFIED :: dword where "FILE_ACTION_MODIFIED \<equiv> 3"
abbreviation FILE_ACTION_RENAMED_OLD_NAME :: dword where "FILE_ACTION_RENAMED_OLD_NAME \<equiv> 4"
abbreviation FILE_ACTION_RENAMED_NEW_NAME :: dword where "FILE_ACTION_RENAMED_NEW_NAME \<equiv> 5"

type_synonym notification = "dword \<times> wstr"

definition invalidate :: "cache \<Rightarrow> cache" where
  "invalidate c = c\<lparr>bzvolInfoSet := False, bzvolInfo := zero_info, bzvolData := [],
     bzvolDataLength := 0, bzvolDataOffset := 0\<rparr>"

definition handle_notification :: "notification \<Rightarrow> cache \<Rightarrow> cache" where
  "handle_notification ev c =
     (case ev of (action, name) \<Rightarrow>
        if action = FILE_ACTION_ADDED then c
        else if action = FILE_ACTION_REMOVED then c
        else if action = FILE_ACTION_MODIFIED then
          (if name = bzvolfile then invalidate c else c)
        else c)"

fun handle_buffer :: "notification list \<Rightarrow> cache \<Rightarrow> cache" where
  "handle_buffer [] c = c"
| "handle_buffer (ev # evs) c = handle_buffer evs (handle_notification ev c)"

text \<open>
  One turn of the thread's loop: the request for notifications fails, the directory has changed, or
  the wait ended otherwise (the exit event, an error). The result says whether the loop goes on.
\<close>

datatype wake = RequestFailed | Changed "notification list" | OtherWake

fun monitor_turn :: "wake \<Rightarrow> cache \<Rightarrow> bool \<times> cache" where
  "monitor_turn RequestFailed c = (False, c)"
| "monitor_turn (Changed evs) c = (True, handle_buffer evs c)"
| "monitor_turn OtherWake c = (False, c)"

fun MonitorDirectoryChanges :: "wake list \<Rightarrow> cache \<Rightarrow> cache" where
  "MonitorDirectoryChanges [] c = c"
| "MonitorDirectoryChanges (w # ws) c =
     (let (go_on, c') = monitor_turn w c in if go_on then MonitorDirectoryChanges ws c' else c')"

subsection \<open>When the cache is dropped\<close>

definition names_bzvol :: "notification \<Rightarrow> bool" where
  "names_bzvol ev \<longleftrightarrow> fst ev = FILE_ACTION_MODIFIED \<and> snd ev = bzvolfile"

lemma handle_notification_eq:
  "handle_notification ev c = (if names_bzvol ev then invalidate c else c)"
  by (auto simp: handle_notification_def names_bzvol_def split: prod.split)

lemma invalidate_idem [simp]: "invalidate (invalidate c) = invalidate c"
  by (simp add: invalidate_def)

lemma handle_buffer_eq:
  "handle_buffer evs c = (if \<exists>ev \<in> set evs. names_bzvol ev then invalidate c else c)"
  by (induction evs arbitrary: c) (auto simp: handle_notification_eq)

lemma bzvolfile_Cons: "bzvolfile \<noteq> [] \<and> hd bzvolfile = BACKSLASH"
  by (simp add: bzvolfile_def W_def)

text \<open>
  The change thread drops the cached file only on a notification whose name is the cached
  name itself, leading backslash included. The system reports names relative to the watched directory;
  for any run of the thread in which no reported name starts with a backslash, the cache is never
  dropped, whatever was modified.
\<close>

theorem relative_notifications_keep_cache:
  assumes "\<And>evs action name. Changed evs \<in> set ws \<Longrightarrow> (action, name) \<in> set evs \<Longrightarrow>
    name = [] \<or> hd name \<noteq> BACKSLASH"
  shows "MonitorDirectoryChanges ws c = c"
  using assms
proof (induction ws arbitrary: c)
  case (Cons w ws)
  have "monitor_turn w c = (fst (monitor_turn w c), c)"
  proof (cases w)
    case (Changed evs)
    have "\<not> names_bzvol ev" if "ev \<in> set evs" for ev
      using Cons.prems [of evs "fst ev" "snd ev"] that Changed bzvolfile_Cons
      by (auto simp: names_bzvol_def)
    then show ?thesis by (auto simp: Changed handle_buffer_eq)
  qed simp_all
  moreover have "MonitorDirectoryChanges ws c = c"
    by (rule Cons.IH) (use Cons.prems in auto)
  ultimately show ?case by (simp split: prod.split) (metis prod.inject)
qed simp

theorem relative_notifications_keep_cache_witness:
  "MonitorDirectoryChanges
      [Changed [(FILE_ACTION_MODIFIED, W ''.bzvol'' @ [BACKSLASH] @ W ''bzvol_id.xml'')], OtherWake]
      (empty_cache\<lparr>bzvolData := [1, 2], bzvolDataLength := 2\<rparr>) =
    empty_cache\<lparr>bzvolData := [1, 2], bzvolDataLength := 2\<rparr>"
  by (rule relative_notifications_keep_cache) (auto simp: W_def)

end
