(* ===== verification/Paths.thy ===== *)
theory Paths
  imports Prelude
begin

text \<open>
  The options of one mount (\<open>Globals\<close>, seamless_smb_lib/globals.cpp) and the translation of the
  names the Dokan driver passes into paths of the mirrored directory (\<open>FileOps::GetFilePath\<close>,
  seamless_smb_lib/fileops.cpp). Every handler that names a file to the system goes through it.
\<close>

abbreviation DOKAN_MAX_PATH :: nat where "DOKAN_MAX_PATH \<equiv> 32768"

record globals =
  m_RootDirectory :: wstr
  m_MountPoint :: wstr
  m_UNCName :: wstr
  m_volname :: wstr
  m_CaseSensitive :: bool
  m_ImpersonateCallerUser :: bool
  m_HasSeSecurityPrivilege :: bool

definition new_Globals :: globals where
  "new_Globals = \<lparr>m_RootDirectory = [], m_MountPoint = [], m_UNCName = [], m_volname = [],
     m_CaseSensitive = False, m_ImpersonateCallerUser = False, m_HasSeSecurityPrivilege = False\<rparr>"

definition Globals_of :: "wstr \<Rightarrow> wstr \<Rightarrow> wstr \<Rightarrow> globals" where
  "Globals_of root mnt unc =
     new_Globals\<lparr>m_RootDirectory := root, m_MountPoint := mnt, m_UNCName := unc\<rparr>"

text \<open>The setters, and the two constructors that copy: from a reference and from a shared pointer.\<close>

definition Globals_setRootDirectory :: "wstr \<Rightarrow> globals \<Rightarrow> globals" where
  "Globals_setRootDirectory newRootDirectory g = g\<lparr>m_RootDirectory := newRootDirectory\<rparr>"

definition Globals_setMountPoint :: "wstr \<Rightarrow> globals \<Rightarrow> globals" where
  "Globals_setMountPoint newMountPoint g = g\<lparr>m_MountPoint := newMountPoint\<rparr>"

definition Globals_setUNCName :: "wstr \<Rightarrow> globals \<Rightarrow> globals" where
  "Globals_setUNCName newUNCName g = g\<lparr>m_UNCName := newUNCName\<rparr>"

definition Globals_setCaseSensitive :: "bool \<Rightarrow> globals \<Rightarrow> globals" where
  "Globals_setCaseSensitive newCaseSensitive g = g\<lparr>m_CaseSensitive := newCaseSensitive\<rparr>"

definition Globals_setImpersonateCallerUser :: "bool \<Rightarrow> globals \<Rightarrow> globals" where
  "Globals_setImpersonateCallerUser newImpersonateCallerUser g =
     g\<lparr>m_ImpersonateCallerUser := newImpersonateCallerUser\<rparr>"

definition Globals_setVolname :: "wstr \<Rightarrow> globals \<Rightarrow> globals" where
  "Globals_setVolname newVolname g = g\<lparr>m_volname := newVolname\<rparr>"

definition Globals_setHasSeSecurityPrivilege :: "bool \<Rightarrow> globals \<Rightarrow> globals" where
  "Globals_setHasSeSecurityPrivilege newHasSeSecurityPrivilege g =
     g\<lparr>m_HasSeSecurityPrivilege := newHasSeSecurityPrivilege\<rparr>"

lemmas Globals_setters [simp] = Globals_setRootDirectory_def Globals_setMountPoint_def Globals_setUNCName_def
  Globals_setCaseSensitive_def Globals_setImpersonateCallerUser_def Globals_setVolname_def Globals_setHasSeSecurityPrivilege_def

definition Globals_copy :: "globals \<Rightarrow> globals" where
  "Globals_copy other =
     new_Globals\<lparr>m_RootDirectory := m_RootDirectory other, m_MountPoint := m_MountPoint other,
       m_UNCName := m_UNCName other, m_volname := m_volname other,
       m_CaseSensitive := m_CaseSensitive other,
       m_ImpersonateCallerUser := m_ImpersonateCallerUser other,
       m_HasSeSecurityPrivilege := m_HasSeSecurityPrivilege other\<rparr>"

definition Globals_copy_shared :: "globals option \<Rightarrow> globals outcome" where
  "Globals_copy_shared other =
     (case other of None \<Rightarrow> Fault NullPointer | Some g \<Rightarrow> Ret (Globals_copy g))"

lemma Globals_copy_complete [simp]: "Globals_copy g = g"
  by (simp add: Globals_copy_def new_Globals_def)

definition to_path :: "wstr option \<Rightarrow> wstr outcome" where
  "to_path r = (case r of None \<Rightarrow> Fault InvalidParameter | Some p \<Rightarrow> Ret p)"

text \<open>
  The name relative to the root: what follows the UNC name when the name starts with it, unless
  that starts with a dot. A UNC name with an embedded zero compares equal to a name shorter than
  itself, and the pointer \<open>FileName + unclen\<close> then leaves the string.
\<close>

definition GetFilePath_at :: "globals \<Rightarrow> wstr \<Rightarrow> wstr outcome" where
  "GetFilePath_at g fileName =
    (let root = c_str (m_RootDirectory g); unclen = length (m_UNCName g) in
     case wcsncpy_s DOKAN_MAX_PATH root (length root) of
       None \<Rightarrow> Fault InvalidParameter
     | Some path \<Rightarrow>
         if unclen > 0 \<and> wcsnicmp_eq fileName (c_str (m_UNCName g)) unclen then
           (if length fileName < unclen then Fault OutOfBounds
            else if \<not> wcsnicmp_eq (drop unclen fileName) [DOT] 1
            then to_path (wcsncat_s path DOKAN_MAX_PATH (drop unclen fileName)
                           (length fileName - unclen))
            else Ret path)
         else to_path (wcsncat_s path DOKAN_MAX_PATH fileName (length fileName)))"

subsection \<open>What the translation promises\<close>

text \<open>The name is under the UNC name: it starts with it, ignoring the case of ASCII letters.\<close>

definition under_unc :: "globals \<Rightarrow> wstr \<Rightarrow> bool" where
  "under_unc g fn \<longleftrightarrow> m_UNCName g \<noteq> [] \<and>
     wcsnicmp_eq fn (c_str (m_UNCName g)) (length (m_UNCName g))"

definition unc_rest :: "globals \<Rightarrow> wstr \<Rightarrow> wstr" where
  "unc_rest g fn = drop (length (m_UNCName g)) fn"

text \<open>The specification: root directory followed by the relative part.\<close>

definition relative_part :: "globals \<Rightarrow> wstr \<Rightarrow> wstr" where
  "relative_part g fn =
     (if under_unc g fn
      then (if unc_rest g fn \<noteq> [] \<and> hd (unc_rest g fn) = DOT then [] else unc_rest g fn)
      else fn)"

definition mirror_path :: "globals \<Rightarrow> wstr \<Rightarrow> wstr" where
  "mirror_path g fn = c_str (m_RootDirectory g) @ relative_part g fn"

lemma towlower_dot: "towlower c = DOT \<longleftrightarrow> c = DOT"
proof -
  have "c + 0x20 \<noteq> DOT" if "0x41 \<le> c" "c \<le> 0x5A"
  proof
    assume "c + 0x20 = DOT"
    then have "c = DOT - 0x20" by (metis add_diff_cancel_right')
    with that show False by simp
  qed
  then show ?thesis by (auto simp: towlower_def)
qed

lemma wcsnicmp_dot: "wcsnicmp_eq s [DOT] (Suc 0) \<longleftrightarrow> s \<noteq> [] \<and> hd s = DOT"
proof (cases s)
  case (Cons c cs)
  have "towlower DOT = DOT" by (simp add: towlower_dot)
  then show ?thesis using Cons towlower_dot [of c] by (simp add: wcsnicmp_eq_def)
qed (simp add: wcsnicmp_eq_def)

lemma under_unc_length:
  "under_unc g fn \<Longrightarrow> 0 \<notin> set (m_UNCName g) \<Longrightarrow> length (m_UNCName g) \<le> length fn"
  unfolding under_unc_def using wcsnicmp_eq_length by fastforce

lemma GetFilePath_at_eq:
  assumes "0 \<notin> set (m_UNCName g)"
  shows "GetFilePath_at g fn =
    (if length (mirror_path g fn) < DOKAN_MAX_PATH then Ret (mirror_path g fn)
     else Fault InvalidParameter)"
  using under_unc_length [of g fn] assms
  by (auto simp: GetFilePath_at_def mirror_path_def relative_part_def under_unc_def unc_rest_def
      to_path_def wcsncpy_s_def wcsncat_s_def wcsnicmp_dot Let_def)

lemma GetFilePath_at_cases:
  assumes "GetFilePath_at g fn = Ret p"
  shows "p = mirror_path g fn \<and> length p < DOKAN_MAX_PATH"
  using assms
  by (auto simp: GetFilePath_at_def mirror_path_def relative_part_def under_unc_def unc_rest_def
      to_path_def wcsncpy_s_def wcsncat_s_def wcsnicmp_dot Let_def split: if_splits)

lemma GetFilePath_at_prefix:
  "GetFilePath_at g fn = Ret p \<Longrightarrow> prefix (c_str (m_RootDirectory g)) p"
  by (drule GetFilePath_at_cases) (simp add: mirror_path_def)

end
