(* ===== verification/Context.thy ===== *)
theory Context
  imports Nodes Cache Paths
begin

text \<open>
  The state a handler works on: the trace of system calls, the mount's \<open>Context\<close> (options, nodes,
  cached descriptor, cached file; seamless_smb_lib/context.h), the security descriptor of the
  request, and the fields of \<open>DOKAN_FILE_INFO\<close>, which the driver passes in and the handlers update.
  The theory also holds what several handlers share: the path lookup, the process lookup
  (processinfo.cpp), the node operations lifted to this state, and the two notions with which the
  properties of the handlers are stated, \<open>adds\<close> (what a handler appends to the trace) and
  \<open>balanced\<close> (every handle and search it opened is closed).
\<close>

record ctx = winsec +
  globals :: globals
  fs :: nodes
  cache :: cache
  SecurityDescriptor :: "sd option"
  Context :: handle
  IsDirectory :: bool
  DeleteOnClose :: bool
  PagingIo :: bool
  WriteToEndOfFile :: bool
  ProcessId :: dword

definition new_ctx :: "globals \<Rightarrow> ctx" where
  "new_ctx g = \<lparr>trace = [], SDCached = None, globals = g, fs = empty_nodes, cache = empty_cache,
     SecurityDescriptor = None, Context = 0, IsDirectory = False, DeleteOnClose = False,
     PagingIo = False, WriteToEndOfFile = False, ProcessId = 0\<rparr>"

type_synonym 'a handler = "(ctx, 'a) prog"

definition GetFilePath :: "wstr \<Rightarrow> wstr handler" where
  "GetFilePath fn = (\<lambda>s. (GetFilePath_at (globals s) fn, s))"

text \<open>\<open>return DokanNtStatusFromWin32(GetLastError())\<close>\<close>

definition last_status :: "('a) os_scheme \<Rightarrow> ntstatus handler" where
  "last_status E = bind (GetLastError E) (\<lambda>e. return (dokan_NtStatusFromWin32 E e))"

definition bad_handle :: "handle \<Rightarrow> bool" where
  "bad_handle h \<longleftrightarrow> h = 0 \<or> h = INVALID_HANDLE_VALUE"

text \<open>A handle opened for this request only.\<close>

definition close_if :: "bool \<Rightarrow> handle \<Rightarrow> unit handler" where
  "close_if opened h = whenM opened (CloseHandle h)"

subsection \<open>Processes\<close>

text \<open>
  The process list is a chain of entries; the last one has \<open>NextEntryOffset\<close> zero, and the loop stops
  when it reaches it, before looking at it.
\<close>

fun find_process :: "dword \<Rightarrow> (dword \<times> wstr) list \<Rightarrow> wstr option" where
  "find_process pid [] = None"
| "find_process pid [e] = None"
| "find_process pid ((p, name) # e # es) =
     (if p = pid then Some name else find_process pid (e # es))"

definition process_name :: "dword \<Rightarrow> (dword \<times> wstr) list option \<Rightarrow> bool \<times> wstr" where
  "process_name pid procs =
    (case procs of
       None \<Rightarrow> (False, [])
     | Some es \<Rightarrow> (case find_process pid es of None \<Rightarrow> (False, []) | Some n \<Rightarrow> (True, n)))"

definition GetProcessNameFromPID :: "('a) os_scheme \<Rightarrow> dword \<Rightarrow> (bool \<times> wstr) handler" where
  "GetProcessNameFromPID E pid =
    bind (syscall (os_Processes E) (\<lambda>_. QueriedProcesses)) (\<lambda>procs.
    return (process_name pid procs))"

text \<open>
  The process lookup searches every entry of the process list but the last: it answers the name
  of the first entry with the process id among all entries except the last one.
\<close>

theorem find_process_but_last:
  "find_process pid es = map_option snd (find (\<lambda>e. fst e = pid) (butlast es))"
  by (induction pid es rule: find_process.induct) auto

subsection \<open>Nodes of the mount\<close>

definition find_node :: "wstr \<Rightarrow> ptr option handler" where
  "find_node f = gets (\<lambda>s. findFileNode (fs s) f)"

definition add_node :: "ptr option \<Rightarrow> bool handler" where
  "add_node p = (\<lambda>s. let (b, n) = addFileNode p (fs s) in (Ret b, s\<lparr>fs := n\<rparr>))"

definition delete_node :: "wstr \<Rightarrow> bool handler" where
  "delete_node f = (\<lambda>s. let (b, n) = deleteFileNode f (fs s) in (Ret b, s\<lparr>fs := n\<rparr>))"

definition rename_node :: "wstr \<Rightarrow> wstr \<Rightarrow> bool handler" where
  "rename_node f f' = (\<lambda>s. let (b, n) = rename f f' (fs s) in (Ret b, s\<lparr>fs := n\<rparr>))"

text \<open>\<open>std::make_shared<filenode>\<close> followed by \<open>SetDescriptor\<close> on the new object.\<close>

definition make_node ::
  "('a) secos_scheme \<Rightarrow> wstr \<Rightarrow> bool \<Rightarrow> dword \<Rightarrow> sd option \<Rightarrow> ptr handler" where
  "make_node E name dir attrs d =
    bind (lift_outcome (SetDescriptor E d no_security)) (\<lambda>si.
    (\<lambda>s. let (p, n) = make_shared (new_node name dir attrs\<lparr>security := si\<rparr>) (fs s)
         in (Ret p, s\<lparr>fs := n\<rparr>)))"

subsection \<open>Weakest preconditions of the shared steps\<close>

lemma wpf_GetFilePath [wp_simps]:
  "wpf (GetFilePath fn) Q F s =
    (case GetFilePath_at (globals s) fn of Ret p \<Rightarrow> Q p s | Fault e \<Rightarrow> F e s)"
  by (simp add: wpf_def GetFilePath_def)

lemma wpf_GetProcessNameFromPID [wp_simps]:
  "wpf (GetProcessNameFromPID E pid) Q F s =
    Q (process_name pid (os_Processes E (trace s))) (s\<lparr>trace := QueriedProcesses # trace s\<rparr>)"
  by (simp add: GetProcessNameFromPID_def wp_simps)

lemma wpf_find_node [wp_simps]: "wpf (find_node f) Q F s = Q (findFileNode (fs s) f) s"
  by (simp add: find_node_def wp_simps)

lemma wpf_add_node [wp_simps]:
  "wpf (add_node p) Q F s =
    Q (fst (addFileNode p (fs s))) (s\<lparr>fs := snd (addFileNode p (fs s))\<rparr>)"
  by (simp add: wpf_def add_node_def split: prod.split)

lemma wpf_delete_node [wp_simps]:
  "wpf (delete_node f) Q F s =
    Q (fst (deleteFileNode f (fs s))) (s\<lparr>fs := snd (deleteFileNode f (fs s))\<rparr>)"
  by (simp add: wpf_def delete_node_def split: prod.split)

lemma wpf_rename_node [wp_simps]:
  "wpf (rename_node f f') Q F s =
    Q (fst (rename f f' (fs s))) (s\<lparr>fs := snd (rename f f' (fs s))\<rparr>)"
  by (simp add: wpf_def rename_node_def split: prod.split)

lemma wpf_make_node [wp_simps]:
  "wpf (make_node E name dir attrs d) Q F s =
    (case SetDescriptor E d no_security of
       Ret si \<Rightarrow>
         Q (next_ptr (fs s))
           (s\<lparr>fs := snd (make_shared (new_node name dir attrs\<lparr>security := si\<rparr>) (fs s))\<rparr>)
     | Fault e \<Rightarrow> F e s)"
  by (simp add: make_node_def wp_simps split: outcome.split)
    (simp add: wpf_def make_shared_def)

lemma wpf_last_status [wp_simps]:
  "wpf (last_status E) Q F s = Q (dokan_NtStatusFromWin32 E (last_error E (trace s))) s"
  by (simp add: last_status_def GetLastError_def wp_simps)

lemma wpf_close_if [wp_simps]:
  "wpf (close_if b h) Q F s = (if b then Q () (s\<lparr>trace := Closed h # trace s\<rparr>) else Q () s)"
  by (simp add: close_if_def CloseHandle_def wp_simps)

subsection \<open>What a handler adds to the trace\<close>

text \<open>\<open>adds P g t s\<close>: since \<open>t\<close>, only events with \<open>P\<close> happened, and the options are still \<open>g\<close>.\<close>

definition adds :: "(event \<Rightarrow> bool) \<Rightarrow> globals \<Rightarrow> hist \<Rightarrow> ctx \<Rightarrow> bool" where
  "adds P g t s \<longleftrightarrow> globals s = g \<and> (\<exists>new. trace s = new @ t \<and> list_all P new)"

lemma adds_start [simp]: "adds P (globals s) (trace s) s"
  by (simp add: adds_def)

lemma adds_event [simp]:
  "adds P g t s \<Longrightarrow> P e \<Longrightarrow> adds P g t (s\<lparr>trace := e # trace s\<rparr>)"
  by (auto simp: adds_def intro: exI [of _ "e # _"])

lemma adds_frame [simp]:
  "adds P g t (s\<lparr>fs := a\<rparr>) = adds P g t s" "adds P g t (s\<lparr>cache := c\<rparr>) = adds P g t s"
  "adds P g t (s\<lparr>SecurityDescriptor := d\<rparr>) = adds P g t s"
  "adds P g t (s\<lparr>Context := h\<rparr>) = adds P g t s"
  "adds P g t (s\<lparr>IsDirectory := b\<rparr>) = adds P g t s"
  "adds P g t (s\<lparr>SDCached := d\<rparr>) = adds P g t s"
  by (simp_all add: adds_def)

lemma adds_mono: "adds P g t s \<Longrightarrow> (\<And>e. P e \<Longrightarrow> P' e) \<Longrightarrow> adds P' g t s"
  by (auto simp: adds_def list_all_iff)

text \<open>A program all of whose events satisfy \<open>P\<close> keeps \<open>adds P g t\<close>.\<close>

lemma adds_syscall: "(\<And>r. P (ev r)) \<Longrightarrow> preserves (adds P g t) (syscall f ev)"
  by (intro preserves_syscall) simp

lemma adds_GetFilePath:
  "(\<And>p. p = mirror_path g fn \<Longrightarrow> length p < DOKAN_MAX_PATH \<Longrightarrow> preserves (adds P g t) (f p)) \<Longrightarrow>
    preserves (adds P g t) (bind (GetFilePath fn) f)"
  by (auto simp: preserves_def bind_def GetFilePath_def adds_def split: outcome.split
      dest!: GetFilePath_at_cases)

lemma adds_globals:
  "preserves (adds P g t) (f g) \<Longrightarrow> preserves (adds P g t) (bind (gets globals) f)"
  by (auto simp: preserves_def bind_def gets_def adds_def)

lemma adds_modify:
  "(\<And>s. trace (f s) = trace s) \<Longrightarrow> (\<And>s. globals (f s) = globals s) \<Longrightarrow>
    preserves (adds P g t) (modify f)"
  by (intro preserves_modify) (simp add: adds_def)

lemma adds_nodes:
  "preserves (adds P g t) (find_node f)" "preserves (adds P g t) (add_node p)"
  "preserves (adds P g t) (delete_node f)" "preserves (adds P g t) (rename_node f f')"
  "preserves (adds P g t) (make_node E name dir attrs d)"
  by (simp_all add: preserves_by_wpf wp_simps split: outcome.split)

lemma adds_last_status: "preserves (adds P g t) (last_status E)"
  by (simp add: preserves_by_wpf wp_simps)

lemma adds_GetLastError: "preserves (adds P g t) (GetLastError E)"
  by (simp add: GetLastError_def preserves_gets)

lemma adds_GetProcessNameFromPID:
  "P QueriedProcesses \<Longrightarrow> preserves (adds P g t) (GetProcessNameFromPID E pid)"
  by (simp add: GetProcessNameFromPID_def preserves_intros adds_syscall)

lemma adds_system:
  "(\<And>h. P (Opened c h)) \<Longrightarrow> preserves (adds P g t) (open_handle E c)"
  "(\<And>h. P (Opened (CreateFileCall p a sh sec d fl) h)) \<Longrightarrow>
     preserves (adds P g t) (CreateFile E p a sh sec d fl)"
  "P (Closed h) \<Longrightarrow> preserves (adds P g t) (CloseHandle h)"
  "(b \<Longrightarrow> P (Closed h)) \<Longrightarrow> preserves (adds P g t) (close_if b h)"
  "P (OnPath pc p) \<Longrightarrow> preserves (adds P g t) (on_path E pc p)"
  "P (OnPath GetFileAttributesCall p) \<Longrightarrow> preserves (adds P g t) (GetFileAttributes E p)"
  "(\<And>r. P (OnHandle hc h r)) \<Longrightarrow> preserves (adds P g t) (on_handle E hc h)"
  "(\<And>r. P (OnHandle hc h r)) \<Longrightarrow> preserves (adds P g t) (on_handle_out E hc h (v :: hist \<Rightarrow> 'v))"
  "(\<And>h. P (SearchOpened p h)) \<Longrightarrow> preserves (adds P g t) (FindFirstFile E p)"
  "(\<And>h. P (SearchOpened p h)) \<Longrightarrow> preserves (adds P g t) (FindFirstStream E p)"
  "P (SearchClosed h) \<Longrightarrow> preserves (adds P g t) (FindClose h)"
  "(\<And>b. P (Impersonated h b)) \<Longrightarrow> preserves (adds P g t) (ImpersonateLoggedOnUser E h)"
  "(\<And>b. P (Reverted b)) \<Longrightarrow> preserves (adds P g t) (RevertToSelf E)"
  "P (LastErrorSet v') \<Longrightarrow> preserves (adds P g t) (SetLastError v')"
  "P (FilledFindData fd) \<Longrightarrow> preserves (adds P g t) (FillFindData fd)"
  "(\<And>b. P (FilledStreamData fd b)) \<Longrightarrow> preserves (adds P g t) (FillFindStreamData E fd)"
  by (auto simp: sys_defs close_if_def intro!: adds_syscall preserves_intros)

lemma adds_files:
  "(\<And>r. P (OnHandle (ReadFileCall n off) h r)) \<Longrightarrow> preserves (adds P g t) (ReadFile E h n off)"
  "(\<And>r. P (OnHandle (WriteFileCall bs) h r)) \<Longrightarrow> preserves (adds P g t) (WriteFile E h bs)"
  "(\<And>r. P (OnHandle (SetFilePointerCall d m) h r)) \<Longrightarrow>
     preserves (adds P g t) (SetFilePointerEx E h d m)"
  "P (OnHandle (SetFilePointerCall d m) h True) \<Longrightarrow> preserves (adds P g t) (SetFilePointer E h d m)"
  "P (OnHandle FileSizeCall h True) \<Longrightarrow> preserves (adds P g t) (GetFileSize E h)"
  "(\<And>r. P (OnHandle FileSizeCall h r)) \<Longrightarrow> preserves (adds P g t) (GetFileSizeEx E h)"
  by (simp_all add: sys_defs adds_syscall)

lemmas adds_intros = adds_GetFilePath adds_globals adds_modify preserves_intros adds_nodes adds_last_status
  adds_GetLastError adds_GetProcessNameFromPID adds_system adds_files

lemma adds_result:
  "preserves (adds P (globals s) (trace s)) m \<Longrightarrow>
    \<exists>new. trace (snd (m s)) = new @ trace s \<and> list_all P new"
  using preservesD [of "adds P (globals s) (trace s)" m s] by (simp add: adds_def)

text \<open>
  The confinement of a mount: the paths it names to the system lie under its root directory. The
  two volume queries ask about the drive, and a rename may name a stream (\<open>:name\<close>) of the open file.
\<close>

fun confined :: "globals \<Rightarrow> event \<Rightarrow> bool" where
  "confined g (Opened (CreateFileCall p a sh sec d f) h) \<longleftrightarrow> prefix (c_str (m_RootDirectory g)) p"
| "confined g (SearchOpened p h) \<longleftrightarrow> prefix (c_str (m_RootDirectory g)) p"
| "confined g (OnPath c p) \<longleftrightarrow>
     c = VolumeInformationCall \<or> c = DiskFreeSpaceCall \<or> prefix (c_str (m_RootDirectory g)) p"
| "confined g (OnHandle (SetRenameCall b p) h r) \<longleftrightarrow>
     prefix (c_str (m_RootDirectory g)) p \<or> p = [] \<or> hd p = COLON"
| "confined g _ \<longleftrightarrow> True"

lemma prefix_mirror_path [simp]: "prefix (c_str (m_RootDirectory g)) (mirror_path g fn)"
  by (simp add: mirror_path_def)

subsection \<open>Invariants of the nodes\<close>

text \<open>An invariant of the nodes is kept by everything that leaves them alone.\<close>

definition fs_inv :: "(nodes \<Rightarrow> bool) \<Rightarrow> ctx \<Rightarrow> bool" where
  "fs_inv N s \<longleftrightarrow> N (fs s)"

lemma fs_inv_syscall: "preserves (fs_inv N) (syscall f ev)"
  by (intro preserves_syscall) (simp add: fs_inv_def)

lemma fs_inv_modify: "(\<And>s. fs (f s) = fs s) \<Longrightarrow> preserves (fs_inv N) (modify f)"
  by (intro preserves_modify) (simp add: fs_inv_def)

lemma fs_inv_system:
  "preserves (fs_inv N) (open_handle E c)" "preserves (fs_inv N) (CreateFile E p a sh sec d fl)"
  "preserves (fs_inv N) (CloseHandle h)" "preserves (fs_inv N) (close_if b h)"
  "preserves (fs_inv N) (on_path E pc p)" "preserves (fs_inv N) (GetFileAttributes E p)"
  "preserves (fs_inv N) (on_handle E hc h)"
  "preserves (fs_inv N) (on_handle_out E hc h (v :: hist \<Rightarrow> 'v))"
  "preserves (fs_inv N) (FindFirstFile E p)" "preserves (fs_inv N) (FindFirstStream E p)"
  "preserves (fs_inv N) (FindClose h)" "preserves (fs_inv N) (ImpersonateLoggedOnUser E h)"
  "preserves (fs_inv N) (RevertToSelf E)" "preserves (fs_inv N) (SetLastError e)"
  "preserves (fs_inv N) (FillFindData fd)" "preserves (fs_inv N) (FillFindStreamData E fd)"
  "preserves (fs_inv N) (ReadFile E h n off)" "preserves (fs_inv N) (WriteFile E h bs)"
  "preserves (fs_inv N) (SetFilePointerEx E h dist m)"
  "preserves (fs_inv N) (SetFilePointer E h dist m)"
  "preserves (fs_inv N) (GetFileSize E h)" "preserves (fs_inv N) (GetFileSizeEx E h)"
  "preserves (fs_inv N) (GetLastError E)" "preserves (fs_inv N) (last_status E)"
  "preserves (fs_inv N) (GetProcessNameFromPID E pid)" "preserves (fs_inv N) (GetFilePath fn)"
  "preserves (fs_inv N) (find_node fn)"
  by (auto simp: sys_defs close_if_def last_status_def GetProcessNameFromPID_def find_node_def
      GetFilePath_def preserves_def fs_inv_def bind_def return_def gets_def whenM_def syscall_def
      Let_def split: prod.split outcome.split)

lemmas fs_inv_intros = preserves_intros fs_inv_modify fs_inv_system fs_inv_syscall

subsection \<open>Handles and searches\<close>

definition balanced :: "hist \<Rightarrow> hist \<Rightarrow> bool" where
  "balanced t t' \<longleftrightarrow> (\<forall>h. net_open t' h = net_open t h \<and> net_search t' h = net_search t h)"

lemma balanced_refl [simp]: "balanced t t"
  by (simp add: balanced_def)

lemma balanced_trans: "balanced t t' \<Longrightarrow> balanced t' t'' \<Longrightarrow> balanced t t''"
  by (simp add: balanced_def)

definition keeps_handles :: "'a handler \<Rightarrow> bool" where
  "keeps_handles m \<longleftrightarrow> (\<forall>s. wpf m (\<lambda>_ s'. balanced (trace s) (trace s')) (\<lambda>_ _. True) s)"

lemma keeps_handlesI:
  "(\<And>s. wpf m (\<lambda>_ s'. \<forall>h. net_open (trace s') h = net_open (trace s) h \<and>
     net_search (trace s') h = net_search (trace s) h) (\<lambda>_ _. True) s) \<Longrightarrow> keeps_handles m"
  by (simp add: keeps_handles_def balanced_def)

subsection \<open>The invariant of a mount's nodes\<close>

definition counts_ok :: "nodes \<Rightarrow> bool" where
  "counts_ok n \<longleftrightarrow> (\<forall>h c. writeCounts n h = Some c \<longrightarrow> c \<le> 5)"

definition mount_ok :: "nodes \<Rightarrow> bool" where
  "mount_ok n \<longleftrightarrow> nodes_ok n \<and> counts_ok n"

lemma mount_ok_empty: "mount_ok empty_nodes"
  using nodes_ok_empty by (simp add: mount_ok_def counts_ok_def empty_nodes_def)

lemma counts_ok_nodes:
  "counts_ok (snd (make_shared f n)) = counts_ok n" "counts_ok (snd (addFileNode p n)) = counts_ok n"
  "counts_ok (snd (rename k k' n)) = counts_ok n" "counts_ok (snd (deleteFileNode k n)) = counts_ok n"
  "counts_ok (set_security q si n) = counts_ok n"
  by (simp_all add: counts_ok_def make_shared_def addFileNode_def rename_def set_name_def
      deleteFileNode_def set_security_def split: option.split)

lemma mount_ok_nodes:
  "preserves (fs_inv mount_ok) (delete_node k)"
  "preserves (fs_inv mount_ok) (rename_node k k')"
  by (rule preserves_by_wpf; simp add: wp_simps fs_inv_def mount_ok_def counts_ok_nodes
        nodes_ok_rename nodes_ok_deleteFileNode)+

text \<open>A new node, then added if some condition holds: its address is allocated when it is listed.\<close>

definition allocated :: "ptr option \<Rightarrow> nodes \<Rightarrow> bool" where
  "allocated p n \<longleftrightarrow> mount_ok n \<and> (\<forall>q. p = Some q \<longrightarrow> q < next_ptr n)"

lemma add_node_ok: "fs_inv (allocated p) s \<Longrightarrow> wpf (add_node p) (\<lambda>_. fs_inv mount_ok) F s"
  by (simp add: wp_simps fs_inv_def allocated_def mount_ok_def counts_ok_nodes nodes_ok_addFileNode)

lemma security_ok_no_security: "security_ok no_security"
  by (simp add: security_ok_def no_security_def)

lemma make_node_ok:
  "fs_inv mount_ok s \<Longrightarrow>
    wpf (make_node E name dir attrs d) (\<lambda>p. fs_inv (allocated (Some p))) (\<lambda>_. fs_inv mount_ok) s"
  using nodes_ok_make_shared [of "fs s"] SetDescriptor_ok [of E d no_security]
  by (simp add: wp_simps fs_inv_def allocated_def mount_ok_def counts_ok_nodes security_ok_no_security
        split: outcome.split)
    (simp add: make_shared_def)

end
