(* ===== verification/FileOpen.thy ===== *)
theory FileOpen
  imports Context
begin

text \<open>
  Opening and closing (seamless_smb_lib/fileops.cpp): \<open>MirrorCreateFile\<close> in the phases its source
  has (the request's flags, creating a directory, opening a directory, opening a file),
  \<open>MirrorCloseFile\<close> and \<open>MirrorCleanup\<close>. A phase that can end the handler by an early \<open>return\<close> answers
  \<open>Inl\<close> of the status; otherwise \<open>Inr\<close> of the status and the handle with which the handler goes on.
\<close>

subsection \<open>Flags\<close>

definition clear_flag :: "dword \<Rightarrow> dword \<Rightarrow> dword" where
  "clear_flag v f = (if has_flag v f then v AND NOT f else v)"

definition cleaned_access :: "dword \<Rightarrow> dword" where
  "cleaned_access access =
     clear_flag (clear_flag (clear_flag access WRITE_DAC) WRITE_OWNER) ACCESS_SYSTEM_SECURITY"

abbreviation share_all :: dword where
  "share_all \<equiv> FILE_SHARE_READ OR FILE_SHARE_WRITE OR FILE_SHARE_DELETE"

text \<open>The flags for a writer, for the backup process, and for a case sensitive mount.\<close>

definition caching_flags :: "globals \<Rightarrow> dword \<Rightarrow> wstr \<Rightarrow> dword \<Rightarrow> dword" where
  "caching_flags g access processName fl =
    (let fl = (if has_flag access FILE_WRITE_DATA
               then fl OR (FILE_FLAG_WRITE_THROUGH OR FILE_FLAG_NO_BUFFERING) else fl);
         fl = (if has_flag access FILE_READ_DATA \<and> processName = W ''bztransmit64.exe''
               then fl OR FILE_FLAG_SEQUENTIAL_SCAN else fl);
         fl = clear_flag fl FILE_FLAG_OPEN_REPARSE_POINT
     in if m_CaseSensitive g then fl OR FILE_FLAG_POSIX_SEMANTICS else fl)"

text \<open>
  What reaches the calls. The handler maps the request twice; the second mapping stores into the
  same three variables.
\<close>

definition request_flags ::
  "('a) os_scheme \<Rightarrow> globals \<Rightarrow> wstr \<Rightarrow> dword \<Rightarrow> dword \<Rightarrow> dword \<Rightarrow> dword \<Rightarrow> dword \<times> dword \<times> dword"
  where
  "request_flags E g processName access attrs opts disp =
    (let (ga, fl, cd) = dokan_MapFlags E access attrs opts disp;
         fl = caching_flags g access processName fl;
         (ga, fl, cd) = dokan_MapFlags E access attrs opts disp
     in (ga, fl, cd))"

subsection \<open>Impersonation\<close>

definition uses_token :: "globals \<Rightarrow> handle \<Rightarrow> bool" where
  "uses_token g token \<longleftrightarrow> m_ImpersonateCallerUser g \<and> token \<noteq> INVALID_HANDLE_VALUE"

definition impersonate :: "('a) os_scheme \<Rightarrow> globals \<Rightarrow> handle \<Rightarrow> unit handler" where
  "impersonate E g token =
    whenM (uses_token g token) (bind (ImpersonateLoggedOnUser E token) (\<lambda>_. return ()))"

definition end_impersonation ::
  "('a) os_scheme \<Rightarrow> globals \<Rightarrow> handle \<Rightarrow> bool \<Rightarrow> unit handler" where
  "end_impersonation E g token close =
    whenM (uses_token g token)
      (bind (GetLastError E) (\<lambda>lastError.
       bind (close_if close token) (\<lambda>_.
       bind (RevertToSelf E) (\<lambda>_.
       SetLastError lastError))))"

subsection \<open>The phases of the handler\<close>

text \<open>
  A new node takes over the descriptor of the request, which is then taken away from the request and
  from the attributes of the system call.
\<close>

definition take_descriptor ::
  "('a) secos_scheme \<Rightarrow> wstr \<Rightarrow> bool \<Rightarrow> dword \<Rightarrow> sd option \<Rightarrow> bool \<Rightarrow>
    (ptr option \<times> sd option) handler" where
  "take_descriptor E fn dir attrs secAttr create =
    (if create then
       bind (gets SecurityDescriptor) (\<lambda>d.
       bind (make_node E fn dir attrs d) (\<lambda>p.
       bind (modify (\<lambda>s. s\<lparr>SecurityDescriptor := None\<rparr>)) (\<lambda>_.
       return (Some p, None))))
     else return (None, secAttr))"

definition create_directory_phase ::
  "('a) secos_scheme \<Rightarrow> globals \<Rightarrow> wstr \<Rightarrow> wstr \<Rightarrow> dword \<Rightarrow> dword \<Rightarrow> sd option \<Rightarrow> handle \<Rightarrow>
    (ntstatus \<times> sd option) handler" where
  "create_directory_phase E g fn path attrs cd secAttr token =
    (if cd = CREATE_NEW \<or> cd = OPEN_ALWAYS then
       bind (impersonate E g token) (\<lambda>_.
       bind (take_descriptor E fn True attrs secAttr (cd = CREATE_NEW \<or> cd = CREATE_ALWAYS))
         (\<lambda>(f, secAttr').
       bind (on_path E (CreateDirectoryCall secAttr') path) (\<lambda>ok.
       bind (if \<not> ok then
               bind (GetLastError E) (\<lambda>error.
               return (if error \<noteq> ERROR_ALREADY_EXISTS \<or> cd = CREATE_NEW
                       then dokan_NtStatusFromWin32 E error else STATUS_SUCCESS))
             else
               bind (whenM (f \<noteq> None) (bind (add_node f) (\<lambda>_. return ()))) (\<lambda>_.
               return STATUS_SUCCESS)) (\<lambda>status.
       bind (end_impersonation E g token (status \<noteq> STATUS_SUCCESS)) (\<lambda>_.
       return (status, secAttr'))))))
     else return (STATUS_SUCCESS, secAttr))"

definition open_directory_phase ::
  "('a) secos_scheme \<Rightarrow> globals \<Rightarrow> wstr \<Rightarrow> dword \<Rightarrow> dword \<Rightarrow> dword \<Rightarrow> dword \<Rightarrow> dword \<Rightarrow>
    sd option \<Rightarrow> handle \<Rightarrow> (ntstatus + ntstatus \<times> handle) handler" where
  "open_directory_phase E g path fileAttr opts ga fl cd secAttr token =
    (if fileAttr \<noteq> INVALID_FILE_ATTRIBUTES \<and> \<not> has_flag fileAttr FILE_ATTRIBUTE_DIRECTORY \<and>
        has_flag opts FILE_DIRECTORY_FILE
     then return (Inl STATUS_NOT_A_DIRECTORY)
     else
       bind (impersonate E g token) (\<lambda>_.
       bind (CreateFile E path ga share_all secAttr OPEN_EXISTING (fl OR FILE_FLAG_BACKUP_SEMANTICS))
         (\<lambda>h.
       bind (end_impersonation E g token True) (\<lambda>_.
       if h = INVALID_HANDLE_VALUE then
         bind (last_status E) (\<lambda>status. return (Inr (status, h)))
       else
         bind (modify (\<lambda>s. s\<lparr>Context := h\<rparr>)) (\<lambda>_.
         if cd = OPEN_ALWAYS \<and> fileAttr \<noteq> INVALID_FILE_ATTRIBUTES
         then return (Inl STATUS_OBJECT_NAME_COLLISION)
         else return (Inr (STATUS_SUCCESS, h)))))))"

definition cannot_delete :: "dword \<Rightarrow> dword \<Rightarrow> bool" where
  "cannot_delete fileAttr fl \<longleftrightarrow>
     ((fileAttr \<noteq> INVALID_FILE_ATTRIBUTES \<and> has_flag fileAttr FILE_ATTRIBUTE_READONLY) \<or>
      has_flag fl FILE_ATTRIBUTE_READONLY) \<and> has_flag fl FILE_FLAG_DELETE_ON_CLOSE"

text \<open>After the file is open: attributes of an overwritten file, \<open>Context\<close>, the collision status.\<close>

definition file_opened ::
  "('a) secos_scheme \<Rightarrow> wstr \<Rightarrow> dword \<Rightarrow> dword \<Rightarrow> dword \<Rightarrow> handle \<Rightarrow> ntstatus handler" where
  "file_opened E path fileAttr fl cd h =
    bind (whenM (fileAttr \<noteq> INVALID_FILE_ATTRIBUTES \<and> cd = TRUNCATE_EXISTING)
           (bind (on_path E (SetFileAttributesCall (fl OR fileAttr)) path) (\<lambda>_. return ()))) (\<lambda>_.
    bind (modify (\<lambda>s. s\<lparr>Context := h\<rparr>)) (\<lambda>_.
    if cd = OPEN_ALWAYS \<or> cd = CREATE_ALWAYS then
      bind (GetLastError E) (\<lambda>error.
      return (if error = ERROR_ALREADY_EXISTS then STATUS_OBJECT_NAME_COLLISION else STATUS_SUCCESS))
    else return STATUS_SUCCESS))"

definition file_phase ::
  "('a) secos_scheme \<Rightarrow> globals \<Rightarrow> wstr \<Rightarrow> wstr \<Rightarrow> dword \<Rightarrow> dword \<Rightarrow> dword \<Rightarrow> dword \<Rightarrow> dword \<Rightarrow>
    sd option \<Rightarrow> handle \<Rightarrow> (ntstatus + ntstatus \<times> handle) handler" where
  "file_phase E g fn path attrs fileAttr ga fl cd secAttr token =
    (if cannot_delete fileAttr fl then return (Inl STATUS_CANNOT_DELETE)
     else
       (let ga = (if cd = TRUNCATE_EXISTING then ga OR GENERIC_WRITE else ga) in
        bind (impersonate E g token) (\<lambda>_.
        bind (take_descriptor E fn False attrs secAttr (cd = CREATE_NEW)) (\<lambda>(f, secAttr').
        bind (CreateFile E path ga share_all secAttr' cd fl) (\<lambda>h.
        bind (end_impersonation E g token True) (\<lambda>_.
        bind (whenM ((h \<noteq> INVALID_HANDLE_VALUE \<or> h \<noteq> 0) \<and> f \<noteq> None)
               (bind (add_node f) (\<lambda>_. return ()))) (\<lambda>_.
        if bad_handle h then
          bind (last_status E) (\<lambda>status. return (Inr (status, h)))
        else
          bind (file_opened E path fileAttr fl cd h) (\<lambda>status.
          return (Inr (status, h))))))))))"

subsection \<open>The handler\<close>

definition insert_writeCount :: "handle \<Rightarrow> nodes \<Rightarrow> nodes" where
  "insert_writeCount h n =
    (case writeCounts n h of
       None \<Rightarrow> n\<lparr>writeCounts := (writeCounts n)(h \<mapsto> 0)\<rparr>
     | Some _ \<Rightarrow> n)"

definition finish_create :: "dword \<Rightarrow> ntstatus + ntstatus \<times> handle \<Rightarrow> ntstatus handler" where
  "finish_create access r =
    (case r of
       Inl status \<Rightarrow> return status
     | Inr (status, h) \<Rightarrow>
         bind (whenM (has_flag access FILE_WRITE_DATA)
                (modify (\<lambda>s. s\<lparr>fs := insert_writeCount h (fs s)\<rparr>))) (\<lambda>_.
         return status))"

definition open_token :: "('a) secos_scheme \<Rightarrow> globals \<Rightarrow> handle handler" where
  "open_token E g =
    (if m_ImpersonateCallerUser g then open_handle E RequestorTokenCall
     else return INVALID_HANDLE_VALUE)"

definition create_phases ::
  "('a) secos_scheme \<Rightarrow> globals \<Rightarrow> wstr \<Rightarrow> wstr \<Rightarrow> dword \<Rightarrow> dword \<Rightarrow> dword \<Rightarrow> dword \<times> dword \<times> dword \<Rightarrow>
    sd option \<Rightarrow> handle \<Rightarrow> bool \<Rightarrow> (ntstatus + ntstatus \<times> handle) handler" where
  "create_phases E g fn path attrs opts fileAttr flags secAttr token isDir =
    (case flags of (ga, fl, cd) \<Rightarrow>
      if isDir then
        bind (create_directory_phase E g fn path attrs cd secAttr token) (\<lambda>(status, secAttr').
        if status = STATUS_SUCCESS
        then open_directory_phase E g path fileAttr opts ga fl cd secAttr' token
        else return (Inr (status, 0)))
      else file_phase E g fn path attrs fileAttr ga fl cd secAttr token)"

definition MirrorCreateFile ::
  "('a) secos_scheme \<Rightarrow> wstr \<Rightarrow> dword \<Rightarrow> dword \<Rightarrow> dword \<Rightarrow> dword \<Rightarrow> dword \<Rightarrow> ntstatus handler" where
  "MirrorCreateFile E fn desiredAccess attrs share disp opts =
    bind (gets globals) (\<lambda>g.
    bind (gets SecurityDescriptor) (\<lambda>secAttr.
    bind (GetFilePath fn) (\<lambda>path.
    bind (gets ProcessId) (\<lambda>pid.
    bind (GetProcessNameFromPID E pid) (\<lambda>(found, processName).
    let access = cleaned_access desiredAccess in
    bind (GetFileAttributes E path) (\<lambda>fileAttr.
    let existing_dir = fileAttr \<noteq> INVALID_FILE_ATTRIBUTES \<and>
                       has_flag fileAttr FILE_ATTRIBUTE_DIRECTORY in
    if existing_dir \<and> has_flag opts FILE_NON_DIRECTORY_FILE then return STATUS_FILE_IS_A_DIRECTORY
    else
      bind (whenM existing_dir (modify (\<lambda>s. s\<lparr>IsDirectory := True\<rparr>))) (\<lambda>_.
      bind (open_token E g) (\<lambda>token.
      bind (gets IsDirectory) (\<lambda>isDir.
      bind (create_phases E g fn path attrs opts fileAttr
              (request_flags E g processName access attrs opts disp) secAttr token isDir) (\<lambda>r.
      finish_create access r))))))))))"

definition MirrorCloseFile :: "('a) os_scheme \<Rightarrow> wstr \<Rightarrow> unit handler" where
  "MirrorCloseFile E fn =
    bind (GetFilePath fn) (\<lambda>path.
    bind (gets Context) (\<lambda>h.
    whenM (\<not> bad_handle h)
      (bind (on_handle E HandleInformationCall h) (\<lambda>ok.
       bind (whenM ok (CloseHandle h)) (\<lambda>_.
       modify (\<lambda>s. s\<lparr>Context := INVALID_HANDLE_VALUE\<rparr>))))))"

definition erase_writeCount :: "handle \<Rightarrow> nodes \<Rightarrow> nodes" where
  "erase_writeCount h n = n\<lparr>writeCounts := (writeCounts n)(h := None)\<rparr>"

definition MirrorCleanup :: "('a) os_scheme \<Rightarrow> wstr \<Rightarrow> unit handler" where
  "MirrorCleanup E fn =
    bind (GetFilePath fn) (\<lambda>path.
    bind (gets Context) (\<lambda>h.
    bind (whenM (h \<noteq> 0)
           (bind (modify (\<lambda>s. s\<lparr>fs := erase_writeCount h (fs s)\<rparr>)) (\<lambda>_.
            bind (CloseHandle h) (\<lambda>_.
            modify (\<lambda>s. s\<lparr>Context := 0\<rparr>))))) (\<lambda>_.
    bind (gets DeleteOnClose) (\<lambda>del.
    bind (gets IsDirectory) (\<lambda>dir.
    whenM del
      (bind (on_path E (if dir then RemoveDirectoryCall else DeleteFileCall) path) (\<lambda>_.
       return ())))))))"

subsection \<open>The steps\<close>

lemma wpf_impersonate [wp_simps]:
  "wpf (impersonate E g tok) Q F s =
    (if uses_token g tok
     then Q () (s\<lparr>trace := Impersonated tok (os_Impersonate E (trace s) tok) # trace s\<rparr>)
     else Q () s)"
  by (simp add: impersonate_def sys_defs wp_simps)

lemma wpf_end_impersonation [wp_simps]:
  "wpf (end_impersonation E g tok close) Q F s =
    (if uses_token g tok
     then (let t = (if close then Closed tok # trace s else trace s) in
       Q () (s\<lparr>trace := LastErrorSet (last_error E (trace s)) # Reverted (os_Revert E t) # t\<rparr>))
     else Q () s)"
  by (simp add: end_impersonation_def sys_defs wp_simps Let_def)

lemma wpf_take_descriptor [wp_simps]:
  "wpf (take_descriptor E fn dir attrs secAttr create) Q F s =
    (if create then
       (case SetDescriptor E (SecurityDescriptor s) no_security of
          Ret si \<Rightarrow> Q (Some (next_ptr (fs s)), None)
            (s\<lparr>fs := snd (make_shared (new_node fn dir attrs\<lparr>security := si\<rparr>) (fs s)),
               SecurityDescriptor := None\<rparr>)
        | Fault e \<Rightarrow> F e s)
     else Q (None, secAttr) s)"
  by (simp add: take_descriptor_def wp_simps cong: outcome.case_cong)

lemma wpf_file_opened [wp_simps]:
  "wpf (file_opened E path fileAttr fl cd h) Q F s =
    (let t = (if fileAttr \<noteq> INVALID_FILE_ATTRIBUTES \<and> cd = TRUNCATE_EXISTING
              then OnPath (SetFileAttributesCall (fl OR fileAttr)) path # trace s else trace s) in
     Q (if (cd = OPEN_ALWAYS \<or> cd = CREATE_ALWAYS) \<and> last_error E t = ERROR_ALREADY_EXISTS
        then STATUS_OBJECT_NAME_COLLISION else STATUS_SUCCESS) (s\<lparr>trace := t, Context := h\<rparr>))"
  by (auto simp: file_opened_def wp_simps sys_defs Let_def)

lemma request_flags_eq: "request_flags E g n access attrs opts disp = dokan_MapFlags E access attrs opts disp"
  by (simp add: request_flags_def Let_def case_prod_beta)

subsection \<open>Handles\<close>

text \<open>
  What a phase does to the open handles: the token is closed if \<open>dropped\<close>, and either \<open>Context\<close> is
  unchanged or the handle it now holds is the only other one opened.
\<close>

definition phase_handles :: "bool \<Rightarrow> handle \<Rightarrow> ctx \<Rightarrow> ctx \<Rightarrow> bool" where
  "phase_handles closed tok s s' \<longleftrightarrow>
     (\<forall>x. net_search (trace s') x = net_search (trace s) x) \<and>
     (Context s' = Context s \<and> (\<forall>x. net_open (trace s') x =
        net_open (trace s) x - of_bool (closed \<and> live tok \<and> x = tok)) \<or>
      (\<forall>x. net_open (trace s') x = net_open (trace s) x +
        of_bool (live (Context s') \<and> x = Context s') - of_bool (closed \<and> live tok \<and> x = tok)))"

lemma phase_handles_refl [simp]: "phase_handles False tok s s"
  by (simp add: phase_handles_def)

lemma not_live: "bad_handle h \<longleftrightarrow> \<not> live h"
  by (auto simp: bad_handle_def live_def)

lemma live_INVALID [simp]: "\<not> live INVALID_HANDLE_VALUE"
  by (simp add: live_def)

lemma net_open_if: "net_open (if b then t else t') h = (if b then net_open t h else net_open t' h)"
  by simp

lemma net_search_if:
  "net_search (if b then t else t') h = (if b then net_search t h else net_search t' h)"
  by simp

lemma create_directory_phase_handles:
  "wpf (create_directory_phase E g fn path attrs cd secAttr tok)
     (\<lambda>r s'. Context s' = Context s \<and>
        (\<forall>x. net_search (trace s') x = net_search (trace s) x) \<and>
        (\<forall>x. net_open (trace s') x = net_open (trace s) x -
           of_bool (fst r \<noteq> STATUS_SUCCESS \<and> uses_token g tok \<and> live tok \<and> x = tok)))
     (\<lambda>_ _. True) s"
  by (auto simp: create_directory_phase_def wp_simps sys_defs split: outcome.split)

lemma open_directory_phase_handles:
  "wpf (open_directory_phase E g path fileAttr opts ga fl cd secAttr tok)
     (\<lambda>r s'. if r = Inl STATUS_NOT_A_DIRECTORY then s' = s
             else phase_handles (uses_token g tok) tok s s')
     (\<lambda>_ _. True) s"
  by (simp add: open_directory_phase_def wp_simps sys_defs, intro conjI impI)
    (simp_all add: phase_handles_def)

lemma file_phase_handles:
  "wpf (file_phase E g fn path attrs fileAttr ga fl cd secAttr tok)
     (\<lambda>r s'. if r = Inl STATUS_CANNOT_DELETE then s' = s
             else phase_handles (uses_token g tok) tok s s')
     (\<lambda>_ _. True) s"
proof -
  define ga' where "ga' = (if cd = TRUNCATE_EXISTING then ga OR GENERIC_WRITE else ga)"
  show ?thesis
    by (simp add: file_phase_def ga'_def [symmetric] wp_simps sys_defs not_live split: outcome.split,
        intro conjI impI allI)
      (simp_all add: phase_handles_def net_open_if net_search_if Let_def)
qed

definition leaks_token :: "ntstatus + ntstatus \<times> handle \<Rightarrow> bool" where
  "leaks_token r \<longleftrightarrow> r = Inl STATUS_NOT_A_DIRECTORY \<or> r = Inl STATUS_CANNOT_DELETE"

lemma phase_handles_after:
  assumes "phase_handles c tok s1 s2" "Context s1 = Context s"
    and "\<forall>x. net_search (trace s1) x = net_search (trace s) x"
    and "\<forall>x. net_open (trace s1) x = net_open (trace s) x"
  shows "phase_handles c tok s s2"
  using assms by (simp add: phase_handles_def)

lemma create_phases_handles:
  "wpf (create_phases E g fn path attrs opts fileAttr flags secAttr tok isDir)
     (\<lambda>r s'. phase_handles (uses_token g tok) tok s s' \<or>
        leaks_token r \<and> Context s' = Context s \<and>
        (\<forall>x. net_search (trace s') x = net_search (trace s) x \<and>
           net_open (trace s') x = net_open (trace s) x))
     (\<lambda>_ _. True) s"
proof -
  obtain ga fl cd where flags: "flags = (ga, fl, cd)" by (cases flags)
  show ?thesis
  proof (cases isDir)
    case False
    then show ?thesis
      unfolding create_phases_def flags
      by (auto intro!: wpf_mono [OF file_phase_handles] simp: leaks_token_def split: if_splits)
  next
    case True
    let ?Q = "\<lambda>r s'. phase_handles (uses_token g tok) tok s s' \<or>
        leaks_token r \<and> Context s' = Context s \<and>
        (\<forall>x. net_search (trace s') x = net_search (trace s) x \<and>
           net_open (trace s') x = net_open (trace s) x)"
    have open_dir: "wpf (if status = STATUS_SUCCESS
          then open_directory_phase E g path fileAttr opts ga fl cd d tok
          else return (Inr (status, 0))) ?Q (\<lambda>_ _. True) s1"
      if s1: "Context s1 = Context s \<and> (\<forall>x. net_search (trace s1) x = net_search (trace s) x) \<and>
        (\<forall>x. net_open (trace s1) x = net_open (trace s) x -
           of_bool (status \<noteq> STATUS_SUCCESS \<and> uses_token g tok \<and> live tok \<and> x = tok))"
      for status d s1
    proof (cases "status = STATUS_SUCCESS")
      case True
      have "?Q r s'" if "if r = Inl STATUS_NOT_A_DIRECTORY then s' = s1
          else phase_handles (uses_token g tok) tok s1 s'" for r s'
        using that s1 True phase_handles_after [of "uses_token g tok" tok s1 s' s]
        by (auto simp: leaks_token_def split: if_splits)
      then show ?thesis
        using True by (simp add: wpf_mono [OF open_directory_phase_handles])
    next
      case False
      then show ?thesis using s1 by (simp add: wp_simps phase_handles_def)
    qed
    show ?thesis
      unfolding create_phases_def flags prod.case if_P [OF True] wpf_bind wpf_case_prod
      by (rule wpf_mono [OF create_directory_phase_handles])
        (simp_all only: split_paired_all prod.case fst_conv, erule open_dir)
  qed
qed

lemma finish_create_by:
  "(\<And>st s'. trace s' = trace s \<Longrightarrow> Context s' = Context s \<Longrightarrow>
      r = Inl st \<or> (\<exists>h. r = Inr (st, h)) \<Longrightarrow> P st s') \<Longrightarrow>
    wpf (finish_create a r) P F s"
  by (cases r) (simp_all add: finish_create_def wp_simps split: prod.split)

subsection \<open>Impersonation\<close>

text \<open>
  What is added to a trace since some moment ends every impersonation it begins: the last switch of
  identity is a \<open>RevertToSelf\<close>.
\<close>

fun switched_back :: "hist \<Rightarrow> bool" where
  "switched_back (Impersonated h b # t) = False"
| "switched_back (Reverted b # t) = True"
| "switched_back (e # t) = switched_back t"
| "switched_back [] = True"

definition back_to_self :: "hist \<Rightarrow> hist \<Rightarrow> bool" where
  "back_to_self t0 t \<longleftrightarrow> (\<exists>new. t = new @ t0 \<and> switched_back new)"

lemma back_to_self_refl [simp]: "back_to_self t t"
  by (simp add: back_to_self_def)

lemma back_to_self_neutral [simp]:
  assumes "back_to_self t0 t"
  shows "back_to_self t0 (Opened c h # t)" "back_to_self t0 (Closed h # t)"
    "back_to_self t0 (OnPath pc p # t)" "back_to_self t0 (LastErrorSet v # t)"
    "back_to_self t0 (QueriedProcesses # t)" "back_to_self t0 (SecurityCall # t)"
  using assms by (force simp: back_to_self_def append_eq_Cons_conv)+

lemma back_to_self_Reverted [simp]:
  "suffix t0 t \<Longrightarrow> back_to_self t0 (Reverted b # t)"
  by (force simp: back_to_self_def suffix_def)

lemma back_to_self_suffix: "back_to_self t0 t \<Longrightarrow> suffix t0 t"
  by (auto simp: back_to_self_def suffix_def)

lemma switched_back_after:
  "switched_back (later @ Impersonated h b # earlier) \<Longrightarrow> \<exists>r. Reverted r \<in> set later"
  by (induction later rule: switched_back.induct) auto

lemma impersonating_after:
  "switched_back new \<Longrightarrow> impersonating (new @ t) \<Longrightarrow> impersonating t \<or> Reverted False \<in> set new"
proof (induction new rule: switched_back.induct)
  case (2 b t')
  then show ?case by (cases b) auto
qed auto

lemma back_to_self_exact:
  "back_to_self t0 t \<Longrightarrow> \<exists>new. t = new @ t0 \<and>
     (\<forall>later h b earlier. new = later @ Impersonated h b # earlier \<longrightarrow> (\<exists>r. Reverted r \<in> set later)) \<and>
     (impersonating t \<longrightarrow> impersonating t0 \<or> Reverted False \<in> set new)"
  unfolding back_to_self_def using switched_back_after impersonating_after by blast

lemma phases_impersonation:
  assumes "back_to_self t (trace s)"
  shows "wpf (create_phases E g fn path attrs opts fileAttr flags secAttr tok isDir)
    (\<lambda>_ s'. back_to_self t (trace s')) (\<lambda>_ _. True) s"
proof -
  note since = back_to_self_suffix suffix_ConsI
  have create: "wpf (create_directory_phase E g fn path attrs cd secAttr tok)
      (\<lambda>_ s'. back_to_self t (trace s')) (\<lambda>_ _. True) s" for cd
    using assms by (simp add: create_directory_phase_def wp_simps sys_defs Let_def since split: outcome.split)
  have open_dir: "wpf (open_directory_phase E g path fileAttr opts ga fl cd d tok)
      (\<lambda>_ s'. back_to_self t (trace s')) (\<lambda>_ _. True) s'"
    if "back_to_self t (trace s')" for ga fl cd d s'
    using that by (simp add: open_directory_phase_def wp_simps sys_defs Let_def since)
  have open_file: "wpf (file_phase E g fn path attrs fileAttr ga fl cd secAttr tok)
      (\<lambda>_ s'. back_to_self t (trace s')) (\<lambda>_ _. True) s" for ga fl cd
    using assms by (simp add: file_phase_def wp_simps sys_defs Let_def since split: outcome.split)
  show ?thesis
    by (auto simp: create_phases_def wp_simps open_dir open_file split: prod.split
        intro!: wpf_mono [OF create])
qed

lemma MirrorCreateFile_by_phases:
  assumes "\<And>tok path fileAttr flags d isDir a s1. Context s1 = Context s \<Longrightarrow>
      \<forall>x. net_search (trace s1) x = net_search (trace s) x \<Longrightarrow>
      \<forall>x. net_open (trace s1) x = net_open (trace s) x +
         of_bool (uses_token (globals s) tok \<and> live tok \<and> x = tok) \<Longrightarrow>
      back_to_self (trace s) (trace s1) \<Longrightarrow>
      wpf (create_phases E (globals s) fn path attrs opts fileAttr flags d tok isDir)
        (\<lambda>r. wpf (finish_create a r) P F) F s1"
    and "\<And>st s1. Context s1 = Context s \<Longrightarrow>
      \<forall>x. net_search (trace s1) x = net_search (trace s) x \<Longrightarrow>
      \<forall>x. net_open (trace s1) x = net_open (trace s) x \<Longrightarrow>
      back_to_self (trace s) (trace s1) \<Longrightarrow> P st s1"
    and "\<And>e s1. F e s1"
  shows "wpf (MirrorCreateFile E fn access attrs share disp opts) P F s"
proof (cases "GetFilePath_at (globals s) fn")
  case (Fault e)
  then show ?thesis by (simp add: MirrorCreateFile_def wp_simps assms(3))
next
  case (Ret path)
  show ?thesis
    unfolding MirrorCreateFile_def open_token_def
    by (simp add: wp_simps sys_defs Ret Let_def case_prod_beta, intro conjI impI)
      (rule assms; simp add: uses_token_def live_def)+
qed

text \<open>The outcome of \<open>MirrorCreateFile\<close> for the handles that are open.\<close>

definition created_handles :: "ctx \<Rightarrow> ntstatus \<Rightarrow> ctx \<Rightarrow> bool" where
  "created_handles s status s' \<longleftrightarrow>
     (\<forall>x. net_search (trace s') x = net_search (trace s) x) \<and>
     (Context s' = Context s \<and> (\<forall>x. net_open (trace s') x = net_open (trace s) x) \<or>
      (\<forall>x. net_open (trace s') x =
         net_open (trace s) x + of_bool (live (Context s') \<and> x = Context s')) \<or>
      m_ImpersonateCallerUser (globals s) \<and> status \<in> {STATUS_NOT_A_DIRECTORY, STATUS_CANNOT_DELETE} \<and>
        Context s' = Context s \<and> (\<exists>token. \<forall>x. net_open (trace s') x =
          net_open (trace s) x + of_bool (live token \<and> x = token)))"

lemma created_handles_by_phase:
  assumes r: "phase_handles (uses_token (globals s) tok) tok s1 s2 \<or>
      leaks_token r \<and> Context s2 = Context s1 \<and>
      (\<forall>x. net_search (trace s2) x = net_search (trace s1) x \<and>
         net_open (trace s2) x = net_open (trace s1) x)"
    and s1: "Context s1 = Context s" "\<forall>x. net_search (trace s1) x = net_search (trace s) x"
      "\<forall>x. net_open (trace s1) x = net_open (trace s) x +
         of_bool (uses_token (globals s) tok \<and> live tok \<and> x = tok)"
    and s3: "trace s3 = trace s2" "Context s3 = Context s2" "r = Inl st \<or> (\<exists>h. r = Inr (st, h))"
  shows "created_handles s st s3"
proof (cases "phase_handles (uses_token (globals s) tok) tok s1 s2")
  case True
  then show ?thesis using s1 s3 by (auto simp: phase_handles_def created_handles_def)
next
  case False
  then have leak: "leaks_token r" "Context s3 = Context s"
    "\<forall>x. net_search (trace s3) x = net_search (trace s) x"
    "\<forall>x. net_open (trace s3) x = net_open (trace s) x +
       of_bool (uses_token (globals s) tok \<and> live tok \<and> x = tok)"
    using r s1 s3 by auto
  show ?thesis
  proof (cases "uses_token (globals s) tok")
    case True
    then have "m_ImpersonateCallerUser (globals s)" by (simp add: uses_token_def)
    moreover have "st \<in> {STATUS_NOT_A_DIRECTORY, STATUS_CANNOT_DELETE}"
      using leak(1) s3(3) by (auto simp: leaks_token_def)
    moreover have "\<exists>token. \<forall>x. net_open (trace s3) x =
        net_open (trace s) x + of_bool (live token \<and> x = token)"
      using leak(4) True by (intro exI [of _ tok]) simp
    ultimately show ?thesis unfolding created_handles_def using leak(2,3) by blast
  qed (use leak in \<open>simp add: created_handles_def\<close>)
qed

lemma MirrorCreateFile_wpf:
  "wpf (MirrorCreateFile E fn access attrs share disp opts) (created_handles s) (\<lambda>_ _. True) s"
proof (rule MirrorCreateFile_by_phases, goal_cases)
  case (1 tok path fileAttr flags d isDir a s1)
  show ?case
    by (rule wpf_mono [OF create_phases_handles])
      (rule finish_create_by, rule created_handles_by_phase [OF _ 1(1-3)], assumption+)
qed (simp_all add: created_handles_def)

text \<open>
  C10: Handle accounting of \<open>MirrorCreateFile\<close>, exactly. When it returns, either it opened nothing and
  left \<open>Context\<close> alone, or the one handle that stays open is the one it stored in \<open>Context\<close>, or
  (the leak) it returned STATUS_NOT_A_DIRECTORY or STATUS_CANNOT_DELETE early on a mount that
  impersonates its callers, and the caller's token stays open, stored nowhere. No search is left open.
\<close>

theorem MirrorCreateFile_handles:
  "wpf (MirrorCreateFile E fn access attrs share disp opts)
    (\<lambda>status s'. (\<forall>x. net_search (trace s') x = net_search (trace s) x) \<and>
      (Context s' = Context s \<and> (\<forall>x. net_open (trace s') x = net_open (trace s) x) \<or>
       (\<forall>x. net_open (trace s') x =
          net_open (trace s) x + of_bool (live (Context s') \<and> x = Context s')) \<or>
       m_ImpersonateCallerUser (globals s) \<and>
         status \<in> {STATUS_NOT_A_DIRECTORY, STATUS_CANNOT_DELETE} \<and>
         Context s' = Context s \<and> (\<exists>token. \<forall>x. net_open (trace s') x =
           net_open (trace s) x + of_bool (live token \<and> x = token))))
    (\<lambda>_ _. True) s"
  using MirrorCreateFile_wpf unfolding created_handles_def .

text \<open>
  C11: Every impersonation of \<open>MirrorCreateFile\<close> is followed by a \<open>RevertToSelf\<close> before it returns, on
  every path, early returns included. What it adds to the trace switches the identity back last, so the
  thread carries the caller's identity afterwards only if it did so before, or if a \<open>RevertToSelf\<close> of
  this very request failed, a result that the code does not look at.
\<close>

theorem MirrorCreateFile_reverts:
  "wpf (MirrorCreateFile E fn access attrs share disp opts)
    (\<lambda>_ s'. \<exists>new. trace s' = new @ trace s \<and>
       (\<forall>later h b earlier. new = later @ Impersonated h b # earlier \<longrightarrow>
          (\<exists>r. Reverted r \<in> set later)) \<and>
       (impersonating (trace s') \<longrightarrow> impersonating (trace s) \<or> Reverted False \<in> set new))
    (\<lambda>_ _. True) s"
proof (rule MirrorCreateFile_by_phases, goal_cases)
  case (1 tok path fileAttr flags d isDir a s1)
  show ?case
    by (rule wpf_mono [OF phases_impersonation [OF 1(4)]])
      (rule finish_create_by, simp only:, erule back_to_self_exact)
qed (simp_all only:, (erule back_to_self_exact)?)

theorem MirrorCreateFile_reverts_witness:
  "wpf (MirrorCreateFile sample_system (W ''x'') GENERIC_READ 0 0 OPEN_ALWAYS 0)
    (\<lambda>_ s'. \<exists>new. trace s' = new @ [] \<and>
       (\<forall>later h b earlier. new = later @ Impersonated h b # earlier \<longrightarrow>
          (\<exists>r. Reverted r \<in> set later)) \<and>
       (impersonating (trace s') \<longrightarrow> impersonating [] \<or> Reverted False \<in> set new))
    (\<lambda>_ _. True) (new_ctx (new_Globals\<lparr>m_ImpersonateCallerUser := True\<rparr>))"
  using MirrorCreateFile_reverts [of sample_system "W ''x''" GENERIC_READ 0 0 OPEN_ALWAYS 0
      "new_ctx (new_Globals\<lparr>m_ImpersonateCallerUser := True\<rparr>)"]
  by (simp add: new_ctx_def)

text \<open>
  The failure is real: on a system whose \<open>RevertToSelf\<close> fails, opening a file on an impersonating
  mount succeeds and leaves the thread with the identity of the caller.
\<close>

definition failing_revert :: secos where
  "failing_revert = sample_system\<lparr>os_Revert := \<lambda>t. False\<rparr>"

theorem failed_revert_keeps_identity:
  "wpf (MirrorCreateFile failing_revert (W ''x'') GENERIC_READ 0 0 OPEN_ALWAYS 0)
    (\<lambda>status s'. status = STATUS_SUCCESS \<and> impersonating (trace s')) (\<lambda>_ _. False)
    (new_ctx (new_Globals\<lparr>m_ImpersonateCallerUser := True\<rparr>))"
  by (simp add: MirrorCreateFile_def open_token_def create_phases_def file_phase_def finish_create_def
      wp_simps sys_defs Let_def failing_revert_def sample_system_def new_ctx_def new_Globals_def
      GetFilePath_at_eq mirror_path_def relative_part_def under_unc_def W_def c_str_def uses_token_def
      request_flags_eq bad_handle_def cannot_delete_def)

subsection \<open>The calls it makes\<close>

text \<open>What a call of \<open>MirrorCreateFile\<close> may be, given what Dokan's mapping makes of the request.\<close>

fun create_event ::
  "('a) os_scheme \<Rightarrow> globals \<Rightarrow> wstr \<Rightarrow> dword \<times> dword \<times> dword \<Rightarrow> event \<Rightarrow> bool" where
  "create_event E g fn (ga, fl, cd) (Opened (CreateFileCall p a sh sec d f) h) \<longleftrightarrow>
     p = mirror_path g fn \<and> sh = share_all \<and>
     a = (if cd = TRUNCATE_EXISTING \<and> d \<noteq> OPEN_EXISTING then ga OR GENERIC_WRITE else ga) \<and>
     (d = OPEN_EXISTING \<and> f = fl OR FILE_FLAG_BACKUP_SEMANTICS \<or> d = cd \<and> f = fl)"
| "create_event E g fn _ (Opened c h) \<longleftrightarrow> c = RequestorTokenCall"
| "create_event E g fn _ (OnPath c p) \<longleftrightarrow> p = mirror_path g fn"
| "create_event E g fn _ (SearchOpened p h) \<longleftrightarrow> False"
| "create_event E g fn _ (OnHandle c h b) \<longleftrightarrow> False"
| "create_event E g fn _ _ \<longleftrightarrow> True"

lemma create_phases_calls:
  assumes "path = mirror_path g fn"
  shows "preserves (adds (create_event E g fn flags) g t)
    (create_phases E g fn path attrs opts fileAttr flags secAttr tok isDir)"
  unfolding create_phases_def create_directory_phase_def open_directory_phase_def file_phase_def
    file_opened_def impersonate_def end_impersonation_def take_descriptor_def Let_def
  by (intro adds_intros; simp add: assms)

lemma MirrorCreateFile_adds:
  "preserves (adds (create_event E g fn (dokan_MapFlags E (cleaned_access access) attrs opts disp)) g t)
    (MirrorCreateFile E fn access attrs share disp opts)"
  unfolding MirrorCreateFile_def request_flags_eq Let_def open_token_def finish_create_def
  by (intro adds_intros create_phases_calls; simp)

text \<open>
  C12: Every system call of \<open>MirrorCreateFile\<close> is accounted for: it names no path but the mirrored
  one, it opens with full sharing, with the access that Dokan's mapping gives for the request without
  WRITE_DAC, WRITE_OWNER and ACCESS_SYSTEM_SECURITY (and GENERIC_WRITE when it truncates), and with
  exactly the flags of that mapping. The flags computed from the access, the process name and the
  case sensitivity (write-through, no buffering, sequential scan, POSIX semantics, the removal of
  FILE_FLAG_OPEN_REPARSE_POINT) never reach a call.
\<close>

theorem MirrorCreateFile_calls:
  "\<exists>new. trace (snd (MirrorCreateFile E fn access attrs share disp opts s)) = new @ trace s \<and>
    list_all (create_event E (globals s) fn
      (dokan_MapFlags E (cleaned_access access) attrs opts disp)) new"
  by (rule adds_result) (rule MirrorCreateFile_adds)

subsection \<open>Cleanup and close\<close>

text \<open>
  \<open>MirrorCleanup\<close> closes the handle in \<open>Context\<close> and no other, forgets its write counter,
  and zeroes \<open>Context\<close>; it then removes the mirrored path, as a directory or as a file, exactly when
  \<open>DeleteOnClose\<close> is set.
\<close>

theorem MirrorCleanup_exact:
  "wpf (MirrorCleanup E fn)
    (\<lambda>_ s'. Context s' = 0 \<and>
      fs s' = (if Context s = 0 then fs s else erase_writeCount (Context s) (fs s)) \<and>
      trace s' =
        (if DeleteOnClose s
         then [OnPath (if IsDirectory s then RemoveDirectoryCall else DeleteFileCall)
                 (mirror_path (globals s) fn)] else []) @
        (if Context s = 0 then [] else [Closed (Context s)]) @ trace s)
    (\<lambda>e s'. s' = s) s"
  by (simp add: MirrorCleanup_def wp_simps sys_defs split: outcome.split)
    (auto dest: GetFilePath_at_cases)

lemma MirrorCleanup_handles:
  "wpf (MirrorCleanup E fn) (\<lambda>_ s'. Context s' = 0 \<and>
      (\<forall>x. net_search (trace s') x = net_search (trace s) x) \<and>
      (\<forall>x. net_open (trace s') x = net_open (trace s) x - of_bool (live (Context s) \<and> x = Context s)))
    (\<lambda>_ _. True) s"
  by (auto simp: MirrorCleanup_def wp_simps sys_defs live_def split: outcome.split)

lemma MirrorCloseFile_closed:
  "Context s = 0 \<Longrightarrow> wpf (MirrorCloseFile E fn) (\<lambda>_ s'. s' = s) (\<lambda>_ _. True) s"
  by (auto simp: MirrorCloseFile_def wp_simps bad_handle_def split: outcome.split)

text \<open>The life of one open file as the driver runs it.\<close>

definition open_cleanup_close ::
  "('a) secos_scheme \<Rightarrow> wstr \<Rightarrow> dword \<Rightarrow> dword \<Rightarrow> dword \<Rightarrow> dword \<Rightarrow> dword \<Rightarrow> ntstatus handler" where
  "open_cleanup_close E fn access attrs share disp opts =
    bind (MirrorCreateFile E fn access attrs share disp opts) (\<lambda>status.
    bind (MirrorCleanup E fn) (\<lambda>_.
    bind (MirrorCloseFile E fn) (\<lambda>_.
    return status)))"

text \<open>
  On a mount that does not impersonate, opening a name, cleaning up and closing it leaves no
  handle and no search behind, whatever the system answered, and \<open>Context\<close> is zero again.
\<close>

theorem open_cleanup_close_balanced:
  assumes "Context s = 0" and "\<not> m_ImpersonateCallerUser (globals s)"
  shows "wpf (open_cleanup_close E fn access attrs share disp opts)
    (\<lambda>_ s'. Context s' = 0 \<and> balanced (trace s) (trace s')) (\<lambda>_ _. True) s"
proof -
  have "wpf (MirrorCleanup E fn)
      (\<lambda>_. wpf (bind (MirrorCloseFile E fn) (\<lambda>_. return status))
         (\<lambda>_ s'. Context s' = 0 \<and> balanced (trace s) (trace s')) (\<lambda>_ _. True)) (\<lambda>_ _. True) s1"
    if "created_handles s status s1" for status s1
  proof (rule wpf_mono [OF MirrorCleanup_handles])
    fix s2 :: ctx
    assume s2: "Context s2 = 0 \<and> (\<forall>x. net_search (trace s2) x = net_search (trace s1) x) \<and>
      (\<forall>x. net_open (trace s2) x =
        net_open (trace s1) x - of_bool (live (Context s1) \<and> x = Context s1))"
    have "balanced (trace s) (trace s2)"
      using that s2 assms by (auto simp: created_handles_def balanced_def live_def)
    then show "wpf (bind (MirrorCloseFile E fn) (\<lambda>_. return status))
         (\<lambda>_ s'. Context s' = 0 \<and> balanced (trace s) (trace s')) (\<lambda>_ _. True) s2"
      using s2 by (simp add: wpf_bind wpf_return wpf_mono [OF MirrorCloseFile_closed])
  qed simp
  then show ?thesis
    unfolding open_cleanup_close_def wpf_bind [of "MirrorCreateFile E fn access attrs share disp opts"]
      wpf_bind [of "MirrorCleanup E fn"]
    by (rule wpf_mono [OF MirrorCreateFile_wpf])
qed

theorem open_cleanup_close_balanced_witness:
  "wpf (open_cleanup_close sample_system (W ''x'') (GENERIC_READ OR FILE_WRITE_DATA) 0 0 CREATE_NEW 0)
    (\<lambda>_ s'. Context s' = 0 \<and> balanced [] (trace s')) (\<lambda>_ _. True) (new_ctx new_Globals)"
  using open_cleanup_close_balanced [of "new_ctx new_Globals" sample_system "W ''x''"
      "GENERIC_READ OR FILE_WRITE_DATA" 0 0 CREATE_NEW 0]
  by (simp add: new_ctx_def new_Globals_def)

end
