(* ===== verification/FileData.thy ===== *)
theory FileData
  imports Context
begin

text \<open>
  The handlers that move data (seamless_smb_lib/fileops.cpp): reading, with the cached copy of the
  special file, writing, with the clamp of paging writes and the flush of every sixth write, flushing,
  the two size operations, locks and times. A handler that fills in output arguments answers them
  together with its status.
\<close>

subsection \<open>Shared steps\<close>

text \<open>
  A request whose file was already cleaned up is served on a handle opened for it alone. The answer
  is the status of a failed open, or the handle and whether it has to be closed.
\<close>

definition reopen ::
  "('a) os_scheme \<Rightarrow> wstr \<Rightarrow> dword \<Rightarrow> dword \<Rightarrow> (ntstatus + handle \<times> bool) handler" where
  "reopen E path access share =
    bind (CreateFile E path access share None OPEN_EXISTING 0) (\<lambda>h.
    if h = INVALID_HANDLE_VALUE then bind (last_status E) (\<lambda>status. return (Inl status))
    else return (Inr (h, True)))"

definition current_or_reopen ::
  "('a) os_scheme \<Rightarrow> wstr \<Rightarrow> dword \<Rightarrow> dword \<Rightarrow> (ntstatus + handle \<times> bool) handler" where
  "current_or_reopen E path access share =
    bind (gets Context) (\<lambda>h.
    if bad_handle h then reopen E path access share else return (Inr (h, False)))"

text \<open>A call whose failure is the status of the request.\<close>

definition status_of :: "('a) os_scheme \<Rightarrow> bool \<Rightarrow> ntstatus handler" where
  "status_of E ok = (if ok then return STATUS_SUCCESS else last_status E)"

text \<open>The handlers that answer STATUS_INVALID_HANDLE without an open file.\<close>

definition with_handle :: "(handle \<Rightarrow> ntstatus handler) \<Rightarrow> ntstatus handler" where
  "with_handle f =
    bind (gets Context) (\<lambda>h. if bad_handle h then return STATUS_INVALID_HANDLE else f h)"

lemma wpf_current_or_reopen [wp_simps]:
  "wpf (current_or_reopen E path access share) Q F s =
    (if bad_handle (Context s) then
       (let c = CreateFileCall path access share None OPEN_EXISTING 0;
            h = os_open E (trace s) c; s' = s\<lparr>trace := Opened c h # trace s\<rparr> in
        if h = INVALID_HANDLE_VALUE
        then Q (Inl (dokan_NtStatusFromWin32 E (last_error E (trace s')))) s'
        else Q (Inr (h, True)) s')
     else Q (Inr (Context s, False)) s)"
  by (simp add: current_or_reopen_def reopen_def sys_defs wp_simps Let_def)

lemma wpf_status_of [wp_simps]:
  "wpf (status_of E ok) Q F s =
    Q (if ok then STATUS_SUCCESS else dokan_NtStatusFromWin32 E (last_error E (trace s))) s"
  by (simp add: status_of_def wp_simps)

lemma wpf_with_handle [wp_simps]:
  "wpf (with_handle f) Q F s =
    (if bad_handle (Context s) then Q STATUS_INVALID_HANDLE s else wpf (f (Context s)) Q F s)"
  by (simp add: with_handle_def wp_simps)

subsection \<open>Reading\<close>

text \<open>
  \<open>memcpy\<close> out of the cached block. The offset is signed, and the block is not compared with the
  length asked for.
\<close>

definition copy_out :: "u8 list \<Rightarrow> int \<Rightarrow> nat \<Rightarrow> u8 list outcome" where
  "copy_out block off n =
    (if off < 0 \<or> nat off + n > length block then Fault OutOfBounds
     else Ret (take n (drop (nat off) block)))"

definition cached_read :: "cache \<Rightarrow> dword \<Rightarrow> ulong64 \<Rightarrow> u8 list outcome option" where
  "cached_read c len offset =
    (let n = uint (bzvolDataLength c); off = sint offset in
     if bzvolDataLength c \<noteq> 0 then
       (if bzvolDataLength c \<le> len \<and> off \<le> n then Some (copy_out (bzvolData c) off (nat (n - off)))
        else if bzvolDataLength c > len \<and> off \<le> n
        then Some (copy_out (bzvolData c) off (unat len))
        else None)
     else None)"

text \<open>
  After the first read of the special file: \<open>Some\<close> status is an early return, the handle already
  closed. The size is cut to 32 bits for the length but not for the block, and the answer of \<open>malloc\<close>
  is not looked at: a read into the null pointer fails unless it asks for nothing, and the length
  stays set.
\<close>

definition read_block ::
  "('a) os_scheme \<Rightarrow> handle \<Rightarrow> dword \<Rightarrow> bool \<Rightarrow> (bool \<times> u8 list) handler" where
  "read_block E h n room = syscall
     (\<lambda>t. (os_handle E t (ReadFileCall n None) h \<and> (room \<or> n = 0), take (unat n) (os_ReadData E t h n None)))
     (\<lambda>r. OnHandle (ReadFileCall n None) h (fst r))"

lemma wpf_read_block [wp_simps]:
  "wpf (read_block E h n room) Q F s =
    (let ok = os_handle E (trace s) (ReadFileCall n None) h \<and> (room \<or> n = 0) in
     Q (ok, take (unat n) (os_ReadData E (trace s) h n None))
       (s\<lparr>trace := OnHandle (ReadFileCall n None) h ok # trace s\<rparr>))"
  by (simp add: read_block_def wp_simps Let_def)

lemma read_block_frame:
  "(\<And>r. P (OnHandle (ReadFileCall n None) h r)) \<Longrightarrow> preserves (adds P g t) (read_block E h n room)"
  "preserves (fs_inv N) (read_block E h n room)"
  by (simp_all add: read_block_def adds_syscall fs_inv_syscall)

definition fill_cache :: "('a) os_scheme \<Rightarrow> handle \<Rightarrow> bool \<Rightarrow> ntstatus option handler" where
  "fill_cache E h opened =
    bind (SetFilePointer E h 0 FILE_BEGIN) (\<lambda>error.
    if error \<noteq> 0 then
      bind (close_if opened h) (\<lambda>_. bind (last_status E) (\<lambda>status. return (Some status)))
    else
      bind (GetFileSizeEx E h) (\<lambda>(ok, fileSize).
      if \<not> ok then
        bind (close_if opened h) (\<lambda>_. bind (last_status E) (\<lambda>status. return (Some status)))
      else
        bind (gets (\<lambda>s. os_malloc E (trace s) fileSize)) (\<lambda>room.
        bind (modify (\<lambda>s. s\<lparr>cache := (cache s)\<lparr>bzvolDataLength := ucast fileSize,
                bzvolDataOffset := 0,
                bzvolData := (if room then map (os_garbage E (trace s)) [0..<unat fileSize] else [])\<rparr>\<rparr>)) (\<lambda>_.
        bind (read_block E h (ucast fileSize) room) (\<lambda>(ok, bytes).
        if \<not> ok then
          bind (last_status E) (\<lambda>status.
          bind (close_if opened h) (\<lambda>_. return (Some status)))
        else
          bind (modify (\<lambda>s. s\<lparr>cache := (cache s)\<lparr>bzvolData :=
                  bytes @ List.drop (length bytes) (bzvolData (cache s))\<rparr>\<rparr>)) (\<lambda>_.
          return None))))))"

definition uncached_read ::
  "('a) os_scheme \<Rightarrow> bool \<Rightarrow> dword \<Rightarrow> ulong64 \<Rightarrow> handle \<Rightarrow> bool \<Rightarrow> (ntstatus \<times> u8 list) handler" where
  "uncached_read E isBzvolId len offset h opened =
    bind (ReadFile E h len (Some (mk64 (hi32 offset) (lo32 offset)))) (\<lambda>(ok, bytes).
    if \<not> ok then
      bind (last_status E) (\<lambda>status.
      bind (close_if opened h) (\<lambda>_. return (status, bytes)))
    else
      bind (gets cache) (\<lambda>c.
      bind (if isBzvolId \<and> bzvolDataLength c = 0 then fill_cache E h opened else return None) (\<lambda>early.
      case early of
        Some status \<Rightarrow> return (status, bytes)
      | None \<Rightarrow> bind (close_if opened h) (\<lambda>_. return (STATUS_SUCCESS, bytes)))))"

definition MirrorReadFile ::
  "('a) os_scheme \<Rightarrow> wstr \<Rightarrow> dword \<Rightarrow> ulong64 \<Rightarrow> (ntstatus \<times> u8 list) handler" where
  "MirrorReadFile E fn len offset =
    bind (GetFilePath fn) (\<lambda>path.
    bind (gets cache) (\<lambda>c.
    case (if fn = bzvolfile then cached_read c len offset else None) of
      Some r \<Rightarrow> bind (lift_outcome r) (\<lambda>bytes. return (STATUS_SUCCESS, bytes))
    | None \<Rightarrow>
        bind (current_or_reopen E path GENERIC_READ FILE_SHARE_READ) (\<lambda>r.
        case r of
          Inl status \<Rightarrow> return (status, [])
        | Inr (h, opened) \<Rightarrow> uncached_read E (fn = bzvolfile) len offset h opened)))"

subsection \<open>Writing\<close>

text \<open>Paging writes stop at the end of the file: \<open>None\<close> if nothing is left to write.\<close>

definition paging_clamp :: "ulong64 \<Rightarrow> ulong64 \<Rightarrow> dword \<Rightarrow> dword option" where
  "paging_clamp fileSize offset n =
    (if offset \<ge> fileSize then None
     else if offset + ucast n > fileSize then
       (let bytes = fileSize - offset in
        if drop_bit 32 bytes \<noteq> 0 then Some (ucast (bytes AND 0xFFFFFFFF)) else Some (ucast bytes))
     else Some n)"

text \<open>
  Where to write. \<open>Inl\<close> of a status is an early return, the handle closed, together with
  \<open>NumberOfBytesWritten\<close> where the code sets it; \<open>Inr\<close> is the number of bytes to write.
\<close>

definition seek_for_write ::
  "('a) os_scheme \<Rightarrow> dword \<Rightarrow> ulong64 \<Rightarrow> handle \<Rightarrow> bool \<Rightarrow>
    ((ntstatus \<times> dword option) + dword) handler" where
  "seek_for_write E n offset h opened =
    bind (gets WriteToEndOfFile) (\<lambda>toEnd.
    bind (gets PagingIo) (\<lambda>paging.
    let failed = bind (last_status E) (\<lambda>status.
                 bind (close_if opened h) (\<lambda>_. return (Inl (status, None)))) in
    if toEnd then
      bind (SetFilePointerEx E h 0 FILE_END) (\<lambda>ok. if \<not> ok then failed else return (Inr n))
    else
      bind (GetFileSize E h) (\<lambda>(low, high).
      if low = INVALID_FILE_SIZE then failed
      else
        (case (if paging then paging_clamp (mk64 high low) offset n else Some n) of
           None \<Rightarrow> bind (close_if opened h) (\<lambda>_. return (Inl (STATUS_SUCCESS, Some 0)))
         | Some m \<Rightarrow>
             bind (SetFilePointerEx E h offset FILE_BEGIN) (\<lambda>ok.
             if \<not> ok then failed else return (Inr m))))))"

text \<open>\<open>writeCounts[handle]\<close>, which inserts a zero for a new handle.\<close>

definition writeCount :: "nodes \<Rightarrow> handle \<Rightarrow> u8" where
  "writeCount n h = (case writeCounts n h of None \<Rightarrow> 0 | Some c \<Rightarrow> c)"

definition count_write :: "('a) os_scheme \<Rightarrow> handle \<Rightarrow> unit handler" where
  "count_write E h =
    bind (gets (\<lambda>s. writeCount (fs s) h)) (\<lambda>c.
    bind (whenM (c = 5) (bind (on_handle E FlushCall h) (\<lambda>_. return ()))) (\<lambda>_.
    modify (\<lambda>s. s\<lparr>fs := (fs s)\<lparr>writeCounts :=
      (writeCounts (fs s))(h \<mapsto> (if c = 5 then 0 else c + 1))\<rparr>\<rparr>)))"

definition write_at ::
  "('a) os_scheme \<Rightarrow> u8 list \<Rightarrow> dword \<Rightarrow> ulong64 \<Rightarrow> handle \<Rightarrow> bool \<Rightarrow>
    (ntstatus \<times> dword option) handler" where
  "write_at E buffer n offset h opened =
    bind (seek_for_write E n offset h opened) (\<lambda>r.
    case r of
      Inl early \<Rightarrow> return early
    | Inr m \<Rightarrow>
        bind (or_fault OutOfBounds (if unat m \<le> length buffer then Some (take (unat m) buffer)
                                    else None)) (\<lambda>bytes.
        bind (WriteFile E h bytes) (\<lambda>(ok, written).
        if \<not> ok then
          bind (last_status E) (\<lambda>status.
          bind (close_if opened h) (\<lambda>_. return (status, Some written)))
        else
          bind (count_write E h) (\<lambda>_.
          bind (close_if opened h) (\<lambda>_.
          return (STATUS_SUCCESS, Some written))))))"

definition MirrorWriteFile ::
  "('a) os_scheme \<Rightarrow> wstr \<Rightarrow> u8 list \<Rightarrow> dword \<Rightarrow> ulong64 \<Rightarrow> (ntstatus \<times> dword option) handler" where
  "MirrorWriteFile E fn buffer n offset =
    bind (gets Context) (\<lambda>h.
    bind (if bad_handle h
          then bind (GetFilePath fn) (\<lambda>path. reopen E path GENERIC_WRITE FILE_SHARE_WRITE)
          else return (Inr (h, False))) (\<lambda>r.
    case r of
      Inl status \<Rightarrow> return (status, None)
    | Inr (h', opened) \<Rightarrow> write_at E buffer n offset h' opened))"

subsection \<open>Flushing, sizes, locks and times\<close>

definition MirrorFlushFileBuffers :: "('a) os_scheme \<Rightarrow> wstr \<Rightarrow> ntstatus handler" where
  "MirrorFlushFileBuffers E fn =
    bind (gets Context) (\<lambda>h.
    bind (GetFilePath fn) (\<lambda>path.
    if bad_handle h then return STATUS_SUCCESS
    else bind (on_handle E FlushCall h) (status_of E)))"

text \<open>The answer is the \<open>BOOL\<close> of the call, converted to a status.\<close>

definition MirrorSetEndOfFile :: "('a) os_scheme \<Rightarrow> wstr \<Rightarrow> ulong64 \<Rightarrow> ntstatus handler" where
  "MirrorSetEndOfFile E fn byteOffset =
    bind (GetFilePath fn) (\<lambda>path.
    with_handle (\<lambda>h.
      bind (on_handle E (SetEndOfFileInfoCall byteOffset) h) (\<lambda>ok. return (of_bool ok))))"

definition MirrorSetAllocationSize :: "('a) os_scheme \<Rightarrow> wstr \<Rightarrow> ulong64 \<Rightarrow> ntstatus handler" where
  "MirrorSetAllocationSize E fn allocSize =
    bind (GetFilePath fn) (\<lambda>path.
    with_handle (\<lambda>h.
      bind (GetFileSizeEx E h) (\<lambda>(ok, fileSize).
      if ok then
        (if sint allocSize < sint fileSize then
           bind (SetFilePointerEx E h allocSize FILE_BEGIN) (\<lambda>ok.
           if \<not> ok then last_status E
           else bind (on_handle E SetEndOfFileCall h) (status_of E))
         else return STATUS_SUCCESS)
      else last_status E)))"

definition MirrorLockFile :: "('a) os_scheme \<Rightarrow> wstr \<Rightarrow> ulong64 \<Rightarrow> ulong64 \<Rightarrow> ntstatus handler" where
  "MirrorLockFile E fn offset len =
    bind (GetFilePath fn) (\<lambda>path.
    with_handle (\<lambda>h.
      bind (on_handle E (LockFileCall (lo32 offset) (hi32 offset) (lo32 len) (hi32 len)) h)
        (status_of E)))"

definition MirrorUnlockFile :: "('a) os_scheme \<Rightarrow> wstr \<Rightarrow> ulong64 \<Rightarrow> ulong64 \<Rightarrow> ntstatus handler" where
  "MirrorUnlockFile E fn offset len =
    bind (GetFilePath fn) (\<lambda>path.
    with_handle (\<lambda>h.
      bind (on_handle E (UnlockFileCall (lo32 offset) (hi32 offset) (lo32 len) (hi32 len)) h)
        (status_of E)))"

definition MirrorSetFileTime ::
  "('a) os_scheme \<Rightarrow> wstr \<Rightarrow> ulong64 option \<Rightarrow> ulong64 option \<Rightarrow> ulong64 option \<Rightarrow> ntstatus handler"
  where
  "MirrorSetFileTime E fn creation lastAccess lastWrite =
    bind (GetFilePath fn) (\<lambda>path.
    with_handle (\<lambda>h.
      bind (on_handle E (SetFileTimeCall creation lastAccess lastWrite) h) (status_of E)))"

lemmas data_handlers = MirrorReadFile_def MirrorWriteFile_def MirrorFlushFileBuffers_def
  MirrorSetEndOfFile_def MirrorSetAllocationSize_def MirrorLockFile_def MirrorUnlockFile_def
  MirrorSetFileTime_def

lemmas data_steps = current_or_reopen_def reopen_def status_of_def with_handle_def fill_cache_def
  uncached_read_def seek_for_write_def count_write_def write_at_def Let_def

subsection \<open>Confinement\<close>

lemma data_confined:
  "preserves (adds (confined g) g t) (MirrorReadFile E fn len off)"
  "preserves (adds (confined g) g t) (MirrorWriteFile E fn buf len off)"
  "preserves (adds (confined g) g t) (MirrorFlushFileBuffers E fn)"
  "preserves (adds (confined g) g t) (MirrorSetEndOfFile E fn off)"
  "preserves (adds (confined g) g t) (MirrorSetAllocationSize E fn off)"
  "preserves (adds (confined g) g t) (MirrorLockFile E fn off n)"
  "preserves (adds (confined g) g t) (MirrorUnlockFile E fn off n)"
  "preserves (adds (confined g) g t) (MirrorSetFileTime E fn tc ta tw)"
  unfolding data_handlers data_steps
  by (intro adds_intros read_block_frame; simp)+

subsection \<open>Handles\<close>

lemma fill_cache_handles:
  "wpf (fill_cache E h opened)
    (\<lambda>r s'. \<forall>x. net_search (trace s') x = net_search (trace s) x \<and> net_open (trace s') x =
       net_open (trace s) x - of_bool (r \<noteq> None \<and> opened \<and> live h \<and> x = h)) (\<lambda>_ _. True) s"
  by (simp add: fill_cache_def wp_simps sys_defs Let_def)

lemma uncached_read_handles:
  "wpf (uncached_read E b len off h opened)
    (\<lambda>r s'. \<forall>x. net_search (trace s') x = net_search (trace s) x \<and> net_open (trace s') x =
       net_open (trace s) x - of_bool (opened \<and> live h \<and> x = h)) (\<lambda>_ _. True) s"
  by (auto simp: uncached_read_def wp_simps sys_defs intro!: wpf_mono [OF fill_cache_handles]
      split: option.split)

lemma MirrorReadFile_handles: "keeps_handles (MirrorReadFile E fn len off)"
  by (rule keeps_handlesI)
    (auto simp: MirrorReadFile_def wp_simps Let_def live_def bad_handle_def
      intro!: wpf_mono [OF uncached_read_handles] split: option.split outcome.split)

lemma seek_for_write_handles:
  "wpf (seek_for_write E n off h opened)
    (\<lambda>r s'. fs s' = fs s \<and> (\<forall>x. net_search (trace s') x = net_search (trace s) x \<and>
       net_open (trace s') x =
         net_open (trace s) x - of_bool ((\<exists>e. r = Inl e) \<and> opened \<and> live h \<and> x = h)))
    (\<lambda>_ _. True) s"
  by (auto simp: seek_for_write_def wp_simps sys_defs Let_def split: option.split)

lemma write_at_handles:
  "wpf (write_at E buf n off h opened)
    (\<lambda>r s'. \<forall>x. net_search (trace s') x = net_search (trace s) x \<and> net_open (trace s') x =
       net_open (trace s) x - of_bool (opened \<and> live h \<and> x = h)) (\<lambda>_ _. True) s"
  by (auto simp: write_at_def count_write_def wp_simps sys_defs
      intro!: wpf_mono [OF seek_for_write_handles] split: sum.split option.split)

lemma MirrorWriteFile_handles: "keeps_handles (MirrorWriteFile E fn buf len off)"
  by (rule keeps_handlesI)
    (auto simp: MirrorWriteFile_def reopen_def sys_defs wp_simps bad_handle_def live_def
      intro!: wpf_mono [OF write_at_handles] split: outcome.split)

lemma data_handles:
  "keeps_handles (MirrorReadFile E fn len off)"
  "keeps_handles (MirrorWriteFile E fn buf len off)"
  "keeps_handles (MirrorFlushFileBuffers E fn)"
  "keeps_handles (MirrorSetEndOfFile E fn off)"
  "keeps_handles (MirrorSetAllocationSize E fn off)"
  "keeps_handles (MirrorLockFile E fn off n)"
  "keeps_handles (MirrorUnlockFile E fn off n)"
  "keeps_handles (MirrorSetFileTime E fn tc ta tw)"
  by (rule MirrorReadFile_handles MirrorWriteFile_handles keeps_handlesI;
      simp add: data_handlers wp_simps sys_defs split: outcome.split)+

subsection \<open>Nodes and counters\<close>

lemma count_write_ok: "preserves (fs_inv mount_ok) (count_write E h)"
proof (rule preserves_by_wpf)
  fix s
  assume "fs_inv mount_ok s"
  moreover have "c + 1 \<le> 5" if "c \<le> 5" "c \<noteq> 5" for c :: u8
  proof -
    have "unat c \<noteq> 5" using that(2) unat_inject [of c 5] by simp
    then show ?thesis using that(1) by (simp add: word_le_nat_alt unat_word_ariths)
  qed
  ultimately show "wpf (count_write E h) (\<lambda>_. fs_inv mount_ok) (\<lambda>_. fs_inv mount_ok) s"
    by (auto simp: count_write_def wp_simps sys_defs fs_inv_def mount_ok_def counts_ok_def
        nodes_ok_def writeCount_def split: option.splits)
qed

lemma data_nodes:
  "preserves (fs_inv mount_ok) (MirrorReadFile E fn len off)"
  "preserves (fs_inv mount_ok) (MirrorWriteFile E fn buf len off)"
  "preserves (fs_inv mount_ok) (MirrorFlushFileBuffers E fn)"
  "preserves (fs_inv mount_ok) (MirrorSetEndOfFile E fn off)"
  "preserves (fs_inv mount_ok) (MirrorSetAllocationSize E fn off)"
  "preserves (fs_inv mount_ok) (MirrorLockFile E fn off n)"
  "preserves (fs_inv mount_ok) (MirrorUnlockFile E fn off n)"
  "preserves (fs_inv mount_ok) (MirrorSetFileTime E fn tc ta tw)"
  unfolding data_handlers current_or_reopen_def reopen_def status_of_def with_handle_def
    fill_cache_def uncached_read_def seek_for_write_def write_at_def Let_def
  by (intro fs_inv_intros read_block_frame count_write_ok; simp)+

subsection \<open>What a read answers\<close>

text \<open>
  C24: The cached copy of the special file is served correctly exactly as far as the request does not
  cross its end in a short buffer. With the whole file cached and an offset inside it, the answer is the
  slice of the file that the buffer has room for, except when the file is longer than the buffer and
  the slice runs past the end: then the copy reads outside the cached block.
\<close>

theorem cached_read_exact:
  assumes "length (bzvolData c) = unat (bzvolDataLength c)" and "bzvolDataLength c \<noteq> 0"
    and "0 \<le> sint offset" and "sint offset \<le> uint (bzvolDataLength c)"
  shows "cached_read c len offset =
    Some (if bzvolDataLength c \<le> len \<or> nat (sint offset) + unat len \<le> length (bzvolData c)
          then Ret (take (unat len) (List.drop (nat (sint offset)) (bzvolData c)))
          else Fault OutOfBounds)"
proof -
  have n: "uint (bzvolDataLength c) = int (length (bzvolData c))" using assms(1) by simp
  have le: "bzvolDataLength c \<le> len \<longleftrightarrow> length (bzvolData c) \<le> unat len"
    using assms(1) by (simp add: word_le_nat_alt)
  show ?thesis
    using assms(2-4) unfolding cached_read_def copy_out_def n
    using le by (auto simp: not_less Let_def nat_diff_distrib not_le)
qed

theorem cached_read_exact_witness:
  "cached_read (empty_cache\<lparr>bzvolData := [1, 2, 3, 4], bzvolDataLength := 4\<rparr>) 2 1 = Some (Ret [2, 3]) \<and>
   cached_read (empty_cache\<lparr>bzvolData := [1, 2, 3, 4], bzvolDataLength := 4\<rparr>) 2 3 =
     Some (Fault OutOfBounds)"
  using cached_read_exact [of "empty_cache\<lparr>bzvolData := [1, 2, 3, 4], bzvolDataLength := 4\<rparr>" 1 2]
    cached_read_exact [of "empty_cache\<lparr>bzvolData := [1, 2, 3, 4], bzvolDataLength := 4\<rparr>" 3 2]
  by simp

lemma cached_read_length:
  "cached_read c len offset = Some (Ret bytes) \<Longrightarrow> length bytes \<le> unat len"
  by (auto simp: cached_read_def copy_out_def Let_def word_le_nat_alt nat_diff_distrib
      split: if_splits)

text \<open>
  \<open>MirrorReadFile\<close> never hands back more bytes than the caller's buffer holds, whether it answers
  from the cache, from the open file or from a file reopened for the request.
\<close>

theorem MirrorReadFile_fits:
  "wpf (MirrorReadFile E fn len off) (\<lambda>r s'. length (snd r) \<le> unat len) (\<lambda>_ _. True) s"
proof -
  have fill: "wpf (fill_cache E h opened) (\<lambda>_ _. True) (\<lambda>_ _. True) s" for h opened s
    by (simp add: fill_cache_def wp_simps sys_defs Let_def)
  have "wpf (uncached_read E b len off h opened) (\<lambda>r s'. length (snd r) \<le> unat len) (\<lambda>_ _. True) s"
    for b h opened s
    by (auto simp: uncached_read_def wp_simps sys_defs intro!: wpf_mono [OF fill] split: option.split)
  then show ?thesis
    by (auto simp: MirrorReadFile_def wp_simps Let_def cached_read_length
        split: option.split outcome.split)
qed

subsection \<open>What a write changes\<close>

text \<open>
  The clamp of paging writes is exact. For a file smaller than 2^63 bytes, a paging write at or
  behind the end writes nothing, and any other writes what fits between its offset and the end of the
  file, at most what was asked.
\<close>

lemma paging_clamp_eq:
  assumes "unat fileSize < 2 ^ 63"
  shows "paging_clamp fileSize offset n =
    (if fileSize \<le> offset then None
     else Some (of_nat (min (unat n) (unat fileSize - unat offset))))"
proof (cases "fileSize \<le> offset")
  case False
  then have lt: "unat offset < unat fileSize" by (simp add: word_le_nat_alt)
  have n: "unat n < 2 ^ 32" using unat_less_power [of n] by simp
  have un: "unat (ucast n :: ulong64) = unat n"
    by (simp add: unsigned_ucast_eq take_bit_nat_eq_self order_less_le_trans [OF n])
  have sum: "unat (offset + ucast n) = unat offset + unat n"
    using lt assms n un by (simp add: unat_word_ariths)
  have diff: "unat (fileSize - offset) = unat fileSize - unat offset"
    using False by (simp add: unat_sub)
  show ?thesis
  proof (cases "offset + ucast n > fileSize")
    case True
    then have small: "unat fileSize - unat offset < unat n"
      using sum lt by (simp add: word_less_nat_alt)
    have "unat (drop_bit 32 (fileSize - offset)) = unat (fileSize - offset) div 2 ^ 32"
      by (simp add: drop_bit_eq_div unat_div)
    also have "\<dots> = 0" using small n diff by simp
    finally have "drop_bit 32 (fileSize - offset) = 0" by (simp only: unsigned_eq_0_iff)
    moreover have "ucast (fileSize - offset) = (of_nat (unat fileSize - unat offset) :: dword)"
      by (simp flip: diff)
    ultimately show ?thesis
      using True False small by (simp add: paging_clamp_def Let_def min_def)
  next
    case False': False
    then have "unat n \<le> unat fileSize - unat offset"
      using sum lt by (simp add: word_less_nat_alt)
    then show ?thesis
      using False False' by (simp add: paging_clamp_def min_def)
  qed
qed (simp add: paging_clamp_def)

text \<open>
  C23: A paging write never grows the file: when \<open>PagingIo\<close> is set and the write is not an append,
  whatever number of bytes \<open>MirrorWriteFile\<close> goes on to write at the offset it was given ends at or
  before the end of the file that it measured (for a file smaller than 2^63 bytes), and is at most
  the number asked for.
\<close>

theorem paging_write_stays_inside:
  assumes "PagingIo s" and "\<not> WriteToEndOfFile s" and "unat (os_FileSize E (trace s) h) < 2 ^ 63"
  shows "wpf (seek_for_write E n offset h opened)
    (\<lambda>r _. case r of Inl early \<Rightarrow> True
      | Inr m \<Rightarrow> unat offset + unat m \<le> unat (os_FileSize E (trace s) h) \<and> m \<le> n)
    (\<lambda>_ _. True) s"
proof -
  have clamp: "unat offset + unat m \<le> unat (os_FileSize E (trace s) h) \<and> m \<le> n"
    if "paging_clamp (os_FileSize E (trace s) h) offset n = Some m" for m
  proof -
    let ?z = "os_FileSize E (trace s) h"
    have lt: "\<not> ?z \<le> offset"
      and m: "m = of_nat (min (unat n) (unat ?z - unat offset))"
      using that paging_clamp_eq [OF assms(3), of offset n] by (auto split: if_splits)
    have "min (unat n) (unat ?z - unat offset) < 2 ^ 32"
      using unat_less_power [of n] by (simp add: min_less_iff_disj)
    then have "unat m = min (unat n) (unat ?z - unat offset)"
      unfolding m by (simp add: unsigned_of_nat take_bit_nat_eq_self)
    then show ?thesis using lt by (simp add: word_le_nat_alt)
  qed
  show ?thesis
    using assms(1,2) clamp
    by (simp add: seek_for_write_def wp_simps sys_defs mk64_split Let_def split: option.split)
qed

theorem paging_write_stays_inside_witness:
  "wpf (seek_for_write (sample_system\<lparr>os_FileSize := \<lambda>t h. 10\<rparr>) 100 4 7 False)
    (\<lambda>r _. case r of Inl early \<Rightarrow> True | Inr m \<Rightarrow> unat (4 :: ulong64) + unat m \<le> 10 \<and> m \<le> 100)
    (\<lambda>_ _. True) (new_ctx new_Globals\<lparr>PagingIo := True\<rparr>)"
  using paging_write_stays_inside [of "new_ctx new_Globals\<lparr>PagingIo := True\<rparr>"
      "sample_system\<lparr>os_FileSize := \<lambda>t h. 10\<rparr>" 7 100 4 False]
  by (simp add: new_ctx_def cong: sum.case_cong)

subsection \<open>The flush of every sixth write\<close>

fun is_flush :: "handle \<Rightarrow> event \<Rightarrow> bool" where
  "is_flush h (OnHandle FlushCall h' b) \<longleftrightarrow> h' = h"
| "is_flush h _ \<longleftrightarrow> False"

definition flushes :: "handle \<Rightarrow> hist \<Rightarrow> nat" where
  "flushes h t = length (filter (is_flush h) t)"

lemma flushes_Nil: "flushes h [] = 0"
  by (simp add: flushes_def)

text \<open>The bookkeeping of \<open>k\<close> successful writes to one handle.\<close>

fun count_writes :: "('a) os_scheme \<Rightarrow> handle \<Rightarrow> nat \<Rightarrow> unit handler" where
  "count_writes E h 0 = return ()"
| "count_writes E h (Suc k) = bind (count_write E h) (\<lambda>_. count_writes E h k)"

lemma unat_bump: "unat c \<le> 5 \<Longrightarrow> unat (if c = 5 then 0 else c + 1 :: u8) = (unat c + 1) mod 6"
proof (cases "c = 5")
  case False
  assume le: "unat c \<le> 5"
  have "unat c \<noteq> 5" using False unat_inject [of c 5] by simp
  then show ?thesis using le False by (simp add: unat_word_ariths)
qed simp

lemma count_writes_from:
  "unat (writeCount (fs s) h) \<le> 5 \<Longrightarrow>
    wpf (count_writes E h k)
      (\<lambda>_ s'. unat (writeCount (fs s') h) = (unat (writeCount (fs s) h) + k) mod 6 \<and>
         flushes h (trace s') = flushes h (trace s) + (unat (writeCount (fs s) h) + k) div 6)
      (\<lambda>_ _. False) s"
proof (induction k arbitrary: s)
  case 0
  then show ?case by (simp add: wp_simps)
next
  case (Suc k)
  let ?c = "writeCount (fs s) h"
  define c' where "c' = (if ?c = 5 then 0 else ?c + 1)"
  have c': "unat c' = (unat ?c + 1) mod 6" unfolding c'_def using Suc.prems by (rule unat_bump)
  have five: "?c = 5 \<longleftrightarrow> unat ?c = 5" using unat_inject [of ?c 5] by simp
  define s1 where "s1 = s\<lparr>trace := (if ?c = 5 then OnHandle FlushCall h
      (os_handle E (trace s) FlushCall h) # trace s else trace s),
    fs := (fs s)\<lparr>writeCounts := (writeCounts (fs s))(h \<mapsto> c')\<rparr>\<rparr>"
  have s1: "writeCount (fs s1) h = c'"
    "flushes h (trace s1) = flushes h (trace s) + (if unat ?c = 5 then 1 else 0)"
    by (simp add: s1_def writeCount_def, simp add: s1_def flushes_def five)
  have "wpf (count_writes E h k)
      (\<lambda>_ s'. unat (writeCount (fs s') h) = (unat c' + k) mod 6 \<and>
         flushes h (trace s') = flushes h (trace s1) + (unat c' + k) div 6) (\<lambda>_ _. False) s1"
    using Suc.IH [of s1] unfolding s1(1) using c' by simp
  moreover have "(unat c' + k) mod 6 = (unat ?c + Suc k) mod 6"
    unfolding c' by (simp add: mod_simps)
  moreover have "flushes h (trace s1) + (unat c' + k) div 6 =
      flushes h (trace s) + (unat ?c + Suc k) div 6"
    unfolding s1(2) c' using Suc.prems by (cases "unat ?c = 5") (simp_all add: mod_less)
  ultimately have "wpf (count_writes E h k)
      (\<lambda>_ s'. unat (writeCount (fs s') h) = (unat ?c + Suc k) mod 6 \<and>
         flushes h (trace s') = flushes h (trace s) + (unat ?c + Suc k) div 6) (\<lambda>_ _. False) s1"
    by simp
  then show ?case
    unfolding s1_def c'_def by (cases "?c = 5") (simp_all add: count_write_def wp_simps sys_defs)
qed

text \<open>
  Every sixth write reaches the disk. From a handle without a counter, after \<open>k\<close> successful
  writes the counter is \<open>k mod 6\<close>, so it never leaves 0..5, and the handle was flushed exactly
  \<open>k div 6\<close> times.
\<close>

theorem flush_every_sixth:
  assumes "writeCounts (fs s) h = None"
  shows "wpf (count_writes E h k)
    (\<lambda>_ s'. unat (writeCount (fs s') h) = k mod 6 \<and>
       flushes h (trace s') = flushes h (trace s) + k div 6) (\<lambda>_ _. False) s"
proof -
  have "writeCount (fs s) h = 0" using assms by (simp add: writeCount_def)
  then show ?thesis using count_writes_from [of s h E k] by simp
qed

theorem flush_every_sixth_witness:
  "wpf (count_writes sample_system 7 13)
    (\<lambda>_ s'. unat (writeCount (fs s') 7) = 1 \<and> flushes 7 (trace s') = 2) (\<lambda>_ _. False)
    (new_ctx new_Globals)"
  using flush_every_sixth [of "new_ctx new_Globals" 7 sample_system 13]
  by (simp add: new_ctx_def empty_nodes_def flushes_Nil numeral_2_eq_2)

subsection \<open>Sizes\<close>

text \<open>
  \<open>MirrorSetEndOfFile\<close> reports the opposite of what happened. On an open file it makes the one
  call that sets the size, and answers STATUS_SUCCESS (zero) exactly when that call failed.
\<close>

theorem MirrorSetEndOfFile_status:
  "wpf (MirrorSetEndOfFile E fn off)
    (\<lambda>status s'. if bad_handle (Context s) then status = STATUS_INVALID_HANDLE \<and> s' = s
       else (\<exists>ok. trace s' = OnHandle (SetEndOfFileInfoCall off) (Context s) ok # trace s \<and>
               (status = STATUS_SUCCESS \<longleftrightarrow> \<not> ok)))
    (\<lambda>_ s'. s' = s) s"
  by (simp add: MirrorSetEndOfFile_def wp_simps sys_defs split: outcome.split)

text \<open>
  \<open>MirrorSetAllocationSize\<close> only ever shrinks a file. It moves the file pointer and cuts the file
  there exactly when the allocation asked for is below the size of the file, as signed numbers, and
  otherwise makes no call but the size query.
\<close>

theorem MirrorSetAllocationSize_shrinks:
  "wpf (MirrorSetAllocationSize E fn alloc)
    (\<lambda>status s'. if bad_handle (Context s) then status = STATUS_INVALID_HANDLE \<and> s' = s
       else (let h = Context s; size = os_FileSize E (trace s) h;
                 new = take (length (trace s') - length (trace s)) (trace s') in
             new = [OnHandle FileSizeCall h False] \<or>
             new = [OnHandle FileSizeCall h True] \<and> sint size \<le> sint alloc \<and> status = STATUS_SUCCESS \<or>
             sint alloc < sint size \<and>
               (new = [OnHandle (SetFilePointerCall alloc FILE_BEGIN) h False,
                       OnHandle FileSizeCall h True] \<or>
                (\<exists>cut. new = [OnHandle SetEndOfFileCall h cut,
                       OnHandle (SetFilePointerCall alloc FILE_BEGIN) h True,
                       OnHandle FileSizeCall h True]))))
    (\<lambda>_ s'. s' = s) s"
  by (simp add: MirrorSetAllocationSize_def wp_simps sys_defs Let_def split: outcome.split)

subsection \<open>A cache that was never filled\<close>

text \<open>A system on which the read that fills the cache fails, and memory holds 0xAB.\<close>

definition failing_fill :: secos where
  "failing_fill = sample_system\<lparr>os_handle := \<lambda>t c h. c \<noteq> ReadFileCall 4 None,
     os_FileSize := \<lambda>t h. 4, os_garbage := \<lambda>t n. 0xAB\<rparr>"

text \<open>
  A failed fill of the cache poisons it. There is a run in which the read of the special file
  that fills the cache fails and is reported as an error, and the next read of it succeeds with four
  bytes that no call has read from the file: the contents of fresh memory.
\<close>

theorem failed_fill_poisons_cache:
  "fst (MirrorReadFile failing_fill bzvolfile 16 0 (new_ctx new_Globals\<lparr>Context := 7\<rparr>)) =
     Ret (0xC0000005, []) \<and>
   fst (MirrorReadFile failing_fill bzvolfile 16 0
     (snd (MirrorReadFile failing_fill bzvolfile 16 0 (new_ctx new_Globals\<lparr>Context := 7\<rparr>)))) =
     Ret (STATUS_SUCCESS, [0xAB, 0xAB, 0xAB, 0xAB])"
proof -
  let ?s = "new_ctx new_Globals\<lparr>Context := 7\<rparr>"
  have path: "GetFilePath_at new_Globals bzvolfile = Ret bzvolfile"
    by (simp add: GetFilePath_at_eq new_Globals_def mirror_path_def relative_part_def under_unc_def
        bzvolfile_def W_def c_str_def)
  have four: "[0..<4] = [0, 1, 2, 3 :: nat]" by code_simp
  define s1 where "s1 = snd (MirrorReadFile failing_fill bzvolfile 16 0 ?s)"
  have "fst (MirrorReadFile failing_fill bzvolfile 16 0 ?s) = Ret (0xC0000005, []) \<and>
      globals s1 = new_Globals \<and> bzvolDataLength (cache s1) = 4 \<and>
      bzvolData (cache s1) = [0xAB, 0xAB, 0xAB, 0xAB]"
    unfolding s1_def
    by (rule result_by_wpf)
      (simp add: MirrorReadFile_def wp_simps path new_ctx_def empty_cache_def cached_read_def
        uncached_read_def fill_cache_def sys_defs bad_handle_def failing_fill_def sample_system_def
        four)
  moreover have "fst (MirrorReadFile failing_fill bzvolfile 16 0 s1) =
      Ret (STATUS_SUCCESS, [0xAB, 0xAB, 0xAB, 0xAB])"
    by (rule result_by_wpf)
      (use calculation in \<open>simp add: MirrorReadFile_def wp_simps path cached_read_def copy_out_def\<close>)
  ultimately show ?thesis by (simp add: s1_def)
qed

text \<open>A system out of memory when the cache is filled.\<close>

definition failing_malloc :: secos where
  "failing_malloc = sample_system\<lparr>os_malloc := \<lambda>t n. False, os_FileSize := \<lambda>t h. 4\<rparr>"

text \<open>
  The result of \<open>malloc\<close> is not looked at. When it fails, the read that fills the cache is reported as
  an error, the length stays set, and the next read of the special file copies from the null pointer.
\<close>

theorem failed_malloc_faults_next_read:
  "fst (MirrorReadFile failing_malloc bzvolfile 16 0 (new_ctx new_Globals\<lparr>Context := 7\<rparr>)) =
     Ret (0xC0000005, []) \<and>
   fst (MirrorReadFile failing_malloc bzvolfile 16 0
     (snd (MirrorReadFile failing_malloc bzvolfile 16 0 (new_ctx new_Globals\<lparr>Context := 7\<rparr>)))) =
     Fault OutOfBounds"
proof -
  let ?s = "new_ctx new_Globals\<lparr>Context := 7\<rparr>"
  have path: "GetFilePath_at new_Globals bzvolfile = Ret bzvolfile"
    by (simp add: GetFilePath_at_eq new_Globals_def mirror_path_def relative_part_def under_unc_def
        bzvolfile_def W_def c_str_def)
  define s1 where "s1 = snd (MirrorReadFile failing_malloc bzvolfile 16 0 ?s)"
  have "fst (MirrorReadFile failing_malloc bzvolfile 16 0 ?s) = Ret (0xC0000005, []) \<and>
      globals s1 = new_Globals \<and> bzvolDataLength (cache s1) = 4 \<and> bzvolData (cache s1) = []"
    unfolding s1_def
    by (rule result_by_wpf)
      (simp add: MirrorReadFile_def wp_simps path new_ctx_def empty_cache_def cached_read_def
        uncached_read_def fill_cache_def sys_defs bad_handle_def failing_malloc_def
        sample_system_def)
  moreover have "fst (MirrorReadFile failing_malloc bzvolfile 16 0 s1) = Fault OutOfBounds"
    using calculation
    by (simp add: MirrorReadFile_def path cached_read_def copy_out_def bind_def gets_def
        GetFilePath_def lift_outcome_def split_def)
  ultimately show ?thesis by (simp add: s1_def)
qed

end
