(* ===== verification/FileMeta.thy ===== *)
theory FileMeta
  imports FileData
begin

text \<open>
  The handlers about names and attributes (seamless_smb_lib/fileops.cpp): file information, directory
  listings and streams, deletion, renaming, attributes, and the two volume queries.
\<close>

abbreviation FILE_CASE_SENSITIVE_SEARCH :: dword where "FILE_CASE_SENSITIVE_SEARCH \<equiv> 0x1"
abbreviation FILE_CASE_PRESERVED_NAMES :: dword where "FILE_CASE_PRESERVED_NAMES \<equiv> 0x2"
abbreviation FILE_UNICODE_ON_DISK :: dword where "FILE_UNICODE_ON_DISK \<equiv> 0x4"
abbreviation FILE_PERSISTENT_ACLS :: dword where "FILE_PERSISTENT_ACLS \<equiv> 0x8"
abbreviation FILE_SUPPORTS_REMOTE_STORAGE :: dword where "FILE_SUPPORTS_REMOTE_STORAGE \<equiv> 0x100"
abbreviation FILE_NAMED_STREAMS :: dword where "FILE_NAMED_STREAMS \<equiv> 0x40000"

subsection \<open>File information\<close>

definition shown_attributes :: "dword \<Rightarrow> dword" where
  "shown_attributes a =
    (if has_flag a FILE_ATTRIBUTE_ARCHIVE then
       (let a' = a AND NOT FILE_ATTRIBUTE_ARCHIVE in if a' = 0 then FILE_ATTRIBUTE_NORMAL else a')
     else a)"

text \<open>What a search entry fills in; the other fields keep what the caller passed.\<close>

definition info_of_entry :: "find_data \<Rightarrow> by_handle_info \<Rightarrow> by_handle_info" where
  "info_of_entry d info =
     info\<lparr>dwFileAttributes := find_attributes d, ftCreationTime := find_creation d,
       ftLastAccessTime := find_access d, ftLastWriteTime := find_write d,
       nFileSizeHigh := find_size_high d, nFileSizeLow := find_size_low d\<rparr>"

text \<open>The information from the handle, or else from the root's attributes or a search of the path.\<close>

definition query_information ::
  "('a) os_scheme \<Rightarrow> wstr \<Rightarrow> wstr \<Rightarrow> by_handle_info \<Rightarrow> handle \<Rightarrow> bool \<Rightarrow>
    (ntstatus + by_handle_info) handler" where
  "query_information E fn path info h opened =
    bind (on_handle_out E InformationByHandleCall h (\<lambda>t. os_Information E t h)) (\<lambda>(ok, info').
    if ok then return (Inr info')
    else if length fn = 1 then
      bind (GetFileAttributes E path) (\<lambda>a. return (Inr (info\<lparr>dwFileAttributes := a\<rparr>)))
    else
      bind (FindFirstFile E path) (\<lambda>(find_handle, d, more).
      if find_handle = INVALID_HANDLE_VALUE then
        bind (last_status E) (\<lambda>status.
        bind (close_if opened h) (\<lambda>_. return (Inl status)))
      else bind (FindClose find_handle) (\<lambda>_. return (Inr (info_of_entry d info)))))"

definition finish_information ::
  "wstr \<Rightarrow> by_handle_info \<Rightarrow> handle \<Rightarrow> bool \<Rightarrow> (ntstatus \<times> by_handle_info) handler" where
  "finish_information fn info h opened =
    (let info' = info\<lparr>dwFileAttributes := shown_attributes (dwFileAttributes info)\<rparr> in
     bind (gets cache) (\<lambda>c.
     bind (whenM (fn = bzvolfile \<and> \<not> bzvolInfoSet c)
            (modify (\<lambda>s. s\<lparr>cache := (cache s)\<lparr>bzvolInfo := info', bzvolInfoSet := True\<rparr>\<rparr>))) (\<lambda>_.
     bind (close_if opened h) (\<lambda>_.
     return (STATUS_SUCCESS, info')))))"

definition MirrorGetFileInformation ::
  "('a) os_scheme \<Rightarrow> wstr \<Rightarrow> by_handle_info \<Rightarrow> (ntstatus \<times> by_handle_info) handler" where
  "MirrorGetFileInformation E fn info =
    bind (gets cache) (\<lambda>c.
    if fn = bzvolfile \<and> bzvolInfoSet c then return (STATUS_SUCCESS, bzvolInfo c)
    else
      bind (GetFilePath fn) (\<lambda>path.
      bind (current_or_reopen E path GENERIC_READ FILE_SHARE_READ) (\<lambda>r.
      case r of
        Inl status \<Rightarrow> return (status, info)
      | Inr (h, opened) \<Rightarrow>
          bind (query_information E fn path info h opened) (\<lambda>q.
          case q of
            Inl status \<Rightarrow> return (status, info)
          | Inr info' \<Rightarrow> finish_information fn info' h opened))))"

subsection \<open>Listings\<close>

text \<open>
  The pattern \<open>path\*\<close>, built inside the path buffer: \<open>None\<close> if it would not fit. An empty path is
  read at index -1.
\<close>

definition search_pattern :: "wstr \<Rightarrow> wstr option outcome" where
  "search_pattern path =
    (if path = [] then Fault OutOfBounds
     else
       (let p = (if last path \<noteq> BACKSLASH then path @ [BACKSLASH] else path) in
        if length p + 1 \<ge> DOKAN_MAX_PATH then Ret None else Ret (Some (p @ [STAR]))))"

definition dot_entry :: "find_data \<Rightarrow> bool" where
  "dot_entry d \<longleftrightarrow> cFileName d = W ''.'' \<or> cFileName d = W ''..''"

fun fill_entries :: "bool \<Rightarrow> find_data list \<Rightarrow> unit handler" where
  "fill_entries rootFolder [] = return ()"
| "fill_entries rootFolder (d # ds) =
     bind (whenM (\<not> rootFolder \<or> \<not> dot_entry d) (FillFindData d)) (\<lambda>_. fill_entries rootFolder ds)"

definition MirrorFindFiles :: "('a) os_scheme \<Rightarrow> wstr \<Rightarrow> ntstatus handler" where
  "MirrorFindFiles E fn =
    bind (GetFilePath fn) (\<lambda>path.
    bind (lift_outcome (search_pattern path)) (\<lambda>pattern.
    case pattern of
      None \<Rightarrow> return STATUS_BUFFER_OVERFLOW
    | Some p \<Rightarrow>
        bind (FindFirstFile E p) (\<lambda>(hFind, d, ds).
        if hFind = INVALID_HANDLE_VALUE then last_status E
        else
          bind (fill_entries (fn = [BACKSLASH]) (d # ds)) (\<lambda>_.
          bind (GetLastError E) (\<lambda>error.
          bind (FindClose hFind) (\<lambda>_.
          return (if error \<noteq> ERROR_NO_MORE_FILES then dokan_NtStatusFromWin32 E error
                  else STATUS_SUCCESS)))))))"

text \<open>The driver's answer to each stream says whether it has room for more.\<close>

fun fill_streams :: "('a) os_scheme \<Rightarrow> find_data list \<Rightarrow> bool handler" where
  "fill_streams E [] = return True"
| "fill_streams E (d # ds) =
     bind (FillFindStreamData E d) (\<lambda>more. if more then fill_streams E ds else return False)"

definition MirrorFindStreams :: "('a) os_scheme \<Rightarrow> wstr \<Rightarrow> ntstatus handler" where
  "MirrorFindStreams E fn =
    bind (GetFilePath fn) (\<lambda>path.
    bind (FindFirstStream E path) (\<lambda>(hFind, d, ds).
    if hFind = INVALID_HANDLE_VALUE then last_status E
    else
      bind (fill_streams E (d # ds)) (\<lambda>bufferFull.
      bind (GetLastError E) (\<lambda>error.
      bind (FindClose hFind) (\<lambda>_.
      return (if \<not> bufferFull then STATUS_BUFFER_OVERFLOW
              else if error \<noteq> ERROR_HANDLE_EOF then dokan_NtStatusFromWin32 E error
              else STATUS_SUCCESS))))))"

subsection \<open>Deleting and renaming\<close>

definition MirrorDeleteFile :: "('a) os_scheme \<Rightarrow> wstr \<Rightarrow> ntstatus handler" where
  "MirrorDeleteFile E fn =
    bind (gets Context) (\<lambda>h.
    bind (GetFilePath fn) (\<lambda>path.
    bind (GetFileAttributes E path) (\<lambda>attrib.
    if attrib \<noteq> INVALID_FILE_ATTRIBUTES \<and> has_flag attrib FILE_ATTRIBUTE_DIRECTORY
    then return STATUS_ACCESS_DENIED
    else
      bind (gets DeleteOnClose) (\<lambda>del.
      bind (if bad_handle h then return True else on_handle E (SetDispositionCall del) h) (\<lambda>ok.
      if \<not> ok then last_status E
      else bind (delete_node fn) (\<lambda>_. return STATUS_SUCCESS))))))"

text \<open>The loop over the entries stops at the first that is not a dot entry.\<close>

definition DeleteDirectory :: "('a) os_scheme \<Rightarrow> wstr \<Rightarrow> ntstatus handler" where
  "DeleteDirectory E fn =
    bind (GetFilePath fn) (\<lambda>path.
    bind (gets DeleteOnClose) (\<lambda>del.
    if \<not> del then return STATUS_SUCCESS
    else
      bind (lift_outcome (search_pattern path)) (\<lambda>pattern.
      case pattern of
        None \<Rightarrow> return STATUS_BUFFER_OVERFLOW
      | Some p \<Rightarrow>
          bind (FindFirstFile E p) (\<lambda>(hFind, d, ds).
          if hFind = INVALID_HANDLE_VALUE then last_status E
          else if \<not> list_all dot_entry (d # ds) then
            bind (FindClose hFind) (\<lambda>_. return STATUS_DIRECTORY_NOT_EMPTY)
          else
            bind (GetLastError E) (\<lambda>error.
            bind (FindClose hFind) (\<lambda>_.
            if error \<noteq> ERROR_NO_MORE_FILES then return (dokan_NtStatusFromWin32 E error)
            else bind (delete_node fn) (\<lambda>_. return STATUS_SUCCESS)))))))"

text \<open>A stream is renamed by its bare name, which is not a path of the mirror.\<close>

definition rename_target :: "wstr \<Rightarrow> wstr handler" where
  "rename_target newName =
    (if newName \<noteq> [] \<and> hd newName \<noteq> COLON then GetFilePath newName
     else lift_outcome (to_path (wcsncpy_s DOKAN_MAX_PATH newName (length newName))))"

definition rename_info_size :: "wstr \<Rightarrow> dword" where
  "rename_info_size target = 24 + of_nat (length target) * 2"

definition MirrorMoveFile ::
  "('a) secos_scheme \<Rightarrow> wstr \<Rightarrow> wstr \<Rightarrow> bool \<Rightarrow> ntstatus handler" where
  "MirrorMoveFile E fn newName replaceIfExisting =
    bind (GetFilePath fn) (\<lambda>path.
    bind (rename_target newName) (\<lambda>target.
    with_handle (\<lambda>h.
      bind (gets (\<lambda>s. sec_HeapAlloc E (trace s) (rename_info_size target))) (\<lambda>allocated.
      if \<not> allocated then return STATUS_BUFFER_OVERFLOW
      else
        bind (on_handle E (SetRenameCall replaceIfExisting target) h) (\<lambda>ok.
        if ok then bind (rename_node fn newName) (\<lambda>_. return STATUS_SUCCESS)
        else last_status E)))))"

definition MirrorSetFileAttributes :: "('a) os_scheme \<Rightarrow> wstr \<Rightarrow> dword \<Rightarrow> ntstatus handler" where
  "MirrorSetFileAttributes E fn attrs =
    bind (GetFilePath fn) (\<lambda>path.
    if attrs \<noteq> 0 then bind (on_path E (SetFileAttributesCall attrs) path) (status_of E)
    else return STATUS_SUCCESS)"

subsection \<open>The volume\<close>

record volume_info =
  VolumeName :: wstr
  VolumeSerialNumber :: "dword option"
  MaximumComponentLength :: "dword option"
  FileSystemFlags :: "dword option"
  FileSystemName :: wstr

definition wcscpy_s :: "dword \<Rightarrow> wstr \<Rightarrow> wstr outcome" where
  "wcscpy_s size_in_units src =
     (if length src < unat size_in_units then Ret src else Fault InvalidParameter)"

definition own_flags :: "globals \<Rightarrow> dword" where
  "own_flags g =
    (if m_CaseSensitive g then FILE_CASE_SENSITIVE_SEARCH OR FILE_CASE_PRESERVED_NAMES
     else FILE_SUPPORTS_REMOTE_STORAGE OR FILE_UNICODE_ON_DISK OR FILE_PERSISTENT_ACLS OR
       FILE_NAMED_STREAMS)"

definition first_char :: "wstr \<Rightarrow> wchar" where
  "first_char w = (if w = [] then 0 else hd w)"

text \<open>The three output pointers may be null; \<open>wants\<close> says which are not.\<close>

definition MirrorGetVolumeInformation ::
  "('a) os_scheme \<Rightarrow> dword \<Rightarrow> dword \<Rightarrow> bool \<times> bool \<times> bool \<Rightarrow> (ntstatus \<times> volume_info) handler"
  where
  "MirrorGetVolumeInformation E nameSize fsNameSize wants =
    bind (gets globals) (\<lambda>g.
    bind (lift_outcome (wcscpy_s nameSize (c_str (m_volname g)))) (\<lambda>name.
    bind (gets cache) (\<lambda>c.
    let wanted = (\<lambda>b v. if b then Some v else None);
        volumeRoot = c_str [first_char (m_RootDirectory g), COLON, BACKSLASH] in
    bind (if GetVolumeInformationNotAvailable c then return (False, 0, 0, [])
          else syscall (\<lambda>t. (os_path E t VolumeInformationCall volumeRoot,
                             os_VolumeInformation E t volumeRoot))
                 (\<lambda>_. OnPath VolumeInformationCall volumeRoot)) (\<lambda>(ok, maxLength, fsFlags, fsName).
    if ok then
      return (STATUS_SUCCESS,
        \<lparr>VolumeName = name, VolumeSerialNumber = wanted (fst wants) 0x19831116,
         MaximumComponentLength = wanted (fst (snd wants)) maxLength,
         FileSystemFlags = wanted (snd (snd wants)) (own_flags g AND fsFlags),
         FileSystemName = fsName\<rparr>)
    else
      bind (modify (\<lambda>s. s\<lparr>cache := (cache s)\<lparr>GetVolumeInformationNotAvailable := True\<rparr>\<rparr>)) (\<lambda>_.
      bind (lift_outcome (wcscpy_s fsNameSize (W ''NTFS''))) (\<lambda>ntfs.
      return (STATUS_SUCCESS,
        \<lparr>VolumeName = name, VolumeSerialNumber = wanted (fst wants) 0x19831116,
         MaximumComponentLength = wanted (fst (snd wants)) 255,
         FileSystemFlags = wanted (snd (snd wants)) (own_flags g),
         FileSystemName = ntfs\<rparr>)))))))"

definition MirrorDokanGetDiskFreeSpace ::
  "('a) os_scheme \<Rightarrow> (ntstatus \<times> (ulong64 \<times> ulong64 \<times> ulong64) option) handler" where
  "MirrorDokanGetDiskFreeSpace E =
    bind (gets globals) (\<lambda>g.
    let root = m_RootDirectory g;
        name = (if first_char root = BACKSLASH then c_str root
                else c_str [first_char root, COLON]) in
    bind (syscall (\<lambda>t. (os_path E t DiskFreeSpaceCall name, os_DiskFreeSpace E t name))
           (\<lambda>_. OnPath DiskFreeSpaceCall name)) (\<lambda>(ok, space).
    if \<not> ok then bind (last_status E) (\<lambda>status. return (status, None))
    else return (STATUS_SUCCESS, Some space)))"

definition MirrorMounted :: "ntstatus handler" where
  "MirrorMounted = return STATUS_SUCCESS"

definition MirrorUnmounted :: "ntstatus handler" where
  "MirrorUnmounted = return STATUS_SUCCESS"

lemmas meta_handlers = MirrorGetFileInformation_def MirrorFindFiles_def MirrorFindStreams_def
  MirrorDeleteFile_def DeleteDirectory_def MirrorMoveFile_def MirrorSetFileAttributes_def
  MirrorGetVolumeInformation_def MirrorDokanGetDiskFreeSpace_def MirrorMounted_def MirrorUnmounted_def

lemmas meta_steps = query_information_def finish_information_def current_or_reopen_def reopen_def status_of_def with_handle_def

subsection \<open>Search patterns\<close>

text \<open>
  The search pattern is built inside the path buffer. For any non-empty path that
  \<open>GetFilePath\<close> can give, the pattern is the path, a backslash unless it ends with one, and a star;
  with its terminator it fits the 32768 units of the buffer, and it is refused exactly when it would not.
\<close>

theorem search_pattern_fits:
  assumes "path \<noteq> []" and "length path < DOKAN_MAX_PATH"
  shows "\<exists>p. p = path @ (if last path = BACKSLASH then [] else [BACKSLASH]) @ [STAR] \<and>
    search_pattern path = Ret (if length p + 1 \<le> DOKAN_MAX_PATH then Some p else None)"
  using assms by (simp add: search_pattern_def Let_def)

theorem search_pattern_fits_witness:
  "search_pattern (W ''C:'') = Ret (Some (W ''C:'' @ [BACKSLASH, STAR]))"
  using search_pattern_fits [of "W ''C:''"] by (simp add: W_def)

lemma search_pattern_prefix:
  "search_pattern path = Ret (Some p) \<Longrightarrow> prefix r path \<Longrightarrow> prefix r p"
  by (auto simp: search_pattern_def Let_def split: if_splits)

lemma adds_search_pattern:
  "(\<And>p. prefix path p \<Longrightarrow> preserves (adds P g t) (f (Some p))) \<Longrightarrow> preserves (adds P g t) (f None) \<Longrightarrow>
    preserves (adds P g t) (bind (lift_outcome (search_pattern path)) f)"
  by (cases "search_pattern path")
    (auto simp: preserves_def bind_def lift_outcome_def search_pattern_def Let_def split: if_splits)

lemma prefix_under: "prefix (mirror_path g fn) p \<Longrightarrow> prefix (c_str (m_RootDirectory g)) p"
  using prefix_mirror_path prefix_order.trans by blast

subsection \<open>Confinement\<close>

lemma adds_fill_entries:
  "preserves (adds (confined g) g t) (fill_entries r ds)"
  by (induction ds) (simp_all add: adds_intros)

lemma adds_fill_streams:
  "preserves (adds (confined g) g t) (fill_streams E ds)"
  by (induction ds) (simp_all add: adds_intros)

lemma adds_rename_target:
  "(\<And>p. prefix (c_str (m_RootDirectory g)) p \<or> p = [] \<or> hd p = COLON \<Longrightarrow>
      preserves (adds P g t) (f p)) \<Longrightarrow>
    preserves (adds P g t) (bind (rename_target new) f)"
  by (auto simp: rename_target_def preserves_def bind_def lift_outcome_def GetFilePath_def adds_def
      to_path_def wcsncpy_s_def split: outcome.split option.split if_splits dest!: GetFilePath_at_cases)

lemma meta_confined:
  "preserves (adds (confined g) g t) (MirrorGetFileInformation E fn info)"
  "preserves (adds (confined g) g t) (MirrorFindFiles E fn)"
  "preserves (adds (confined g) g t) (MirrorFindStreams E fn)"
  "preserves (adds (confined g) g t) (MirrorDeleteFile E fn)"
  "preserves (adds (confined g) g t) (DeleteDirectory E fn)"
  "preserves (adds (confined g) g t) (MirrorMoveFile E' fn new b)"
  "preserves (adds (confined g) g t) (MirrorSetFileAttributes E fn a)"
  "preserves (adds (confined g) g t) (MirrorGetVolumeInformation E vn fsn wants)"
  "preserves (adds (confined g) g t) (MirrorDokanGetDiskFreeSpace E)"
  unfolding meta_handlers meta_steps Let_def
  by (intro adds_rename_target adds_search_pattern adds_intros adds_fill_entries adds_fill_streams
      adds_syscall; simp add: prefix_under)+

subsection \<open>Handles and searches\<close>

lemma fill_entries_wpf:
  "wpf (fill_entries r ds) Q F s =
    Q () (s\<lparr>trace := List.rev (map FilledFindData (filter (\<lambda>d. \<not> r \<or> \<not> dot_entry d) ds)) @ trace s\<rparr>)"
  by (induction ds arbitrary: s; cases r) (simp_all add: wp_simps sys_defs)

lemma net_filled [simp]:
  "net_open (List.rev (map FilledFindData ds) @ t) h = net_open t h"
  "net_search (List.rev (map FilledFindData ds) @ t) h = net_search t h"
  by (induction ds arbitrary: t) simp_all

lemma fill_streams_handles:
  "wpf (fill_streams E ds) (\<lambda>_ s'. \<forall>x. net_search (trace s') x = net_search (trace s) x \<and>
     net_open (trace s') x = net_open (trace s) x) F s"
proof (induction ds arbitrary: s)
  case (Cons d ds)
  show ?case
    using Cons [of "s\<lparr>trace := FilledStreamData d True # trace s\<rparr>"]
    by (simp add: wp_simps sys_defs)
qed (simp add: wp_simps)

lemma MirrorGetFileInformation_handles: "keeps_handles (MirrorGetFileInformation E fn info)"
  by (rule keeps_handlesI)
    (auto simp: MirrorGetFileInformation_def query_information_def finish_information_def wp_simps
      sys_defs Let_def bad_handle_def live_def split: outcome.split)

lemma MirrorFindFiles_handles: "keeps_handles (MirrorFindFiles E fn)"
  by (rule keeps_handlesI)
    (auto simp: MirrorFindFiles_def wp_simps sys_defs fill_entries_wpf
      split: outcome.split option.split prod.split)

lemma MirrorFindStreams_handles: "keeps_handles (MirrorFindStreams E fn)"
  by (rule keeps_handlesI)
    (auto simp: MirrorFindStreams_def wp_simps sys_defs simp del: fill_streams.simps
      intro!: wpf_mono [OF fill_streams_handles] split: outcome.split prod.split)

lemma DeleteDirectory_handles: "keeps_handles (DeleteDirectory E fn)"
  by (rule keeps_handlesI)
    (auto simp: DeleteDirectory_def wp_simps sys_defs split: outcome.split option.split prod.split)

lemma MirrorMoveFile_handles: "keeps_handles (MirrorMoveFile E fn new b)"
  by (rule keeps_handlesI)
    (auto simp: MirrorMoveFile_def rename_target_def wp_simps sys_defs split: outcome.split)

lemma meta_handles:
  "keeps_handles (MirrorGetFileInformation E fn info)"
  "keeps_handles (MirrorFindFiles E fn)"
  "keeps_handles (MirrorFindStreams E fn)"
  "keeps_handles (MirrorDeleteFile E fn)"
  "keeps_handles (DeleteDirectory E fn)"
  "keeps_handles (MirrorMoveFile E' fn new b)"
  "keeps_handles (MirrorSetFileAttributes E fn a)"
  "keeps_handles (MirrorGetVolumeInformation E vn fsn wants)"
  "keeps_handles (MirrorDokanGetDiskFreeSpace E)"
  by (rule MirrorGetFileInformation_handles MirrorFindFiles_handles MirrorFindStreams_handles
      DeleteDirectory_handles MirrorMoveFile_handles keeps_handlesI;
      simp add: meta_handlers status_of_def wp_simps sys_defs Let_def split: outcome.split)+

subsection \<open>Nodes and counters\<close>

lemma fs_inv_fill:
  "preserves (fs_inv N) (fill_entries r ds)" "preserves (fs_inv N) (fill_streams E ds)"
  by (induction ds) (simp_all add: fs_inv_intros)

lemma meta_nodes:
  "preserves (fs_inv mount_ok) (MirrorGetFileInformation E fn info)"
  "preserves (fs_inv mount_ok) (MirrorFindFiles E fn)"
  "preserves (fs_inv mount_ok) (MirrorFindStreams E fn)"
  "preserves (fs_inv mount_ok) (MirrorDeleteFile E fn)"
  "preserves (fs_inv mount_ok) (DeleteDirectory E fn)"
  "preserves (fs_inv mount_ok) (MirrorMoveFile E' fn new b)"
  "preserves (fs_inv mount_ok) (MirrorSetFileAttributes E fn a)"
  "preserves (fs_inv mount_ok) (MirrorGetVolumeInformation E vn fsn wants)"
  "preserves (fs_inv mount_ok) (MirrorDokanGetDiskFreeSpace E)"
  unfolding meta_handlers meta_steps rename_target_def Let_def
  by (intro fs_inv_intros fs_inv_fill mount_ok_nodes; simp)+

subsection \<open>What the handlers answer\<close>

lemma and_not_exp:
  fixes a :: dword
  shows "bit a n \<Longrightarrow> a AND NOT (2 ^ n) = 0 \<longleftrightarrow> a = 2 ^ n"
    and "\<not> bit a n \<Longrightarrow> a AND NOT (2 ^ n) = a \<and> a \<noteq> 2 ^ n \<or> \<not> n < 32"
  by (auto simp: bit_eq_iff [where 'a = dword] bit_simps)

text \<open>
  The attributes shown for a file are its attributes without the archive bit, and NORMAL for a
  file that has no other attribute; they are never zero when the file had any.
\<close>

theorem shown_attributes_exact:
  "shown_attributes a =
    (if a = FILE_ATTRIBUTE_ARCHIVE then FILE_ATTRIBUTE_NORMAL else a AND NOT FILE_ATTRIBUTE_ARCHIVE)"
proof -
  have arch: "FILE_ATTRIBUTE_ARCHIVE = 2 ^ 5" by simp
  show ?thesis
  proof (cases "bit a 5")
    case True
    then show ?thesis
      using and_not_exp(1) [OF True]
      unfolding shown_attributes_def arch by (simp only: and_exp_eq_0_iff_not_bit Let_def) simp
  next
    case False
    then show ?thesis
      using and_not_exp(2) [OF False]
      unfolding shown_attributes_def arch by (simp only: and_exp_eq_0_iff_not_bit) simp
  qed
qed

text \<open>
  C26: A directory listing hands over exactly the entries of the one search it makes, in order, and
  for the root without the two dot entries; the search is closed again. The handler makes no
  other call, and none at all when the pattern does not fit.
\<close>

theorem MirrorFindFiles_lists:
  "wpf (MirrorFindFiles E fn)
    (\<lambda>status s'.
      case search_pattern (mirror_path (globals s) fn) of
        Fault e \<Rightarrow> False
      | Ret None \<Rightarrow> status = STATUS_BUFFER_OVERFLOW \<and> s' = s
      | Ret (Some p) \<Rightarrow>
          (case os_Search E (trace s) p of (h, d, ds) \<Rightarrow>
             if h = INVALID_HANDLE_VALUE then trace s' = SearchOpened p h # trace s
             else trace s' = SearchClosed h #
               List.rev (map FilledFindData (filter (\<lambda>d. \<not> (fn = [BACKSLASH] \<and> dot_entry d)) (d # ds))) @
               SearchOpened p h # trace s))
    (\<lambda>_ s'. s' = s) s"
  by (auto simp: MirrorFindFiles_def wp_simps sys_defs fill_entries_wpf simp del: fill_entries.simps
      split: outcome.split option.split prod.split dest!: GetFilePath_at_cases)

text \<open>
  \<open>DeleteDirectory\<close> forgets the directory's node only when its deletion was asked for and a search
  of it found nothing but the two dot entries; in every other case the nodes are unchanged.
\<close>

theorem DeleteDirectory_only_empty:
  "wpf (DeleteDirectory E fn)
    (\<lambda>status s'. fs s' = fs s \<or>
       fs s' = snd (deleteFileNode fn (fs s)) \<and> status = STATUS_SUCCESS \<and> DeleteOnClose s \<and>
       (\<exists>p h d ds. search_pattern (mirror_path (globals s) fn) = Ret (Some p) \<and>
          os_Search E (trace s) p = (h, d, ds) \<and> list_all dot_entry (d # ds)))
    (\<lambda>_ s'. s' = s) s"
  by (auto simp: DeleteDirectory_def wp_simps sys_defs
      split: outcome.split option.split prod.split dest!: GetFilePath_at_cases)

text \<open>
  \<open>MirrorDeleteFile\<close> forgets the security descriptor of a file on every success, also when the
  driver calls it to take a deletion back (\<open>DeleteOnClose\<close> false): the nodes afterwards do not depend
  on \<open>DeleteOnClose\<close>.
\<close>

theorem MirrorDeleteFile_forgets:
  "wpf (MirrorDeleteFile E fn)
    (\<lambda>status s'. let attrs = os_FileAttributes E (trace s) (mirror_path (globals s) fn) in
       if attrs \<noteq> INVALID_FILE_ATTRIBUTES \<and> has_flag attrs FILE_ATTRIBUTE_DIRECTORY
       then status = STATUS_ACCESS_DENIED \<and> fs s' = fs s
       else if bad_handle (Context s)
       then status = STATUS_SUCCESS \<and> fs s' = snd (deleteFileNode fn (fs s))
       else \<exists>ok. trace s' = [OnHandle (SetDispositionCall (DeleteOnClose s)) (Context s) ok,
                OnPath GetFileAttributesCall (mirror_path (globals s) fn)] @ trace s \<and>
              fs s' = (if ok then snd (deleteFileNode fn (fs s)) else fs s))
    (\<lambda>_ s'. s' = s) s"
  by (auto simp: MirrorDeleteFile_def wp_simps sys_defs Let_def
      split: outcome.split dest!: GetFilePath_at_cases)

text \<open>
  The volume information stays within what the file system supports: when the system answered,
  the flags given to the driver are those of this program that the underlying file system has too; once
  the system has failed to answer, it is never asked again and the defaults are given.
\<close>

theorem MirrorGetVolumeInformation_flags:
  "wpf (MirrorGetVolumeInformation E nameSize fsNameSize (a, b, True))
    (\<lambda>r s'. fst r = STATUS_SUCCESS \<and> VolumeName (snd r) = c_str (m_volname (globals s)) \<and>
      (case FileSystemFlags (snd r) of None \<Rightarrow> False
       | Some fl \<Rightarrow> fl AND own_flags (globals s) = fl \<and>
          (if GetVolumeInformationNotAvailable (cache s)
           then fl = own_flags (globals s) \<and> s' = s
           else length (trace s') = Suc (length (trace s)) \<and>
             (GetVolumeInformationNotAvailable (cache s') \<longleftrightarrow>
                \<not> os_path E (trace s) VolumeInformationCall
                    (c_str [first_char (m_RootDirectory (globals s)), COLON, BACKSLASH])))))
    (\<lambda>_ _. True) s"
  by (auto simp: MirrorGetVolumeInformation_def wp_simps sys_defs wcscpy_s_def Let_def
      split: outcome.split if_splits)
    (auto simp: bit_eq_iff bit_simps)

end
