(* ===== verification/NodeTable.thy ===== *)
theory NodeTable
  imports Nodes
begin

text \<open>
  What the handlers rely on from the file nodes, as an interface (locale \<open>name_table\<close>): a finite map
  from names to objects with insert, delete and rename. The operations of theory Nodes provide it as
  long as no two listed nodes share a name. The abstract specification of the nodes as a finite map
  (\<open>map_op\<close>) and the refinement are at the end.
\<close>

subsection \<open>The interface\<close>

locale name_table =
  fixes inv :: "'n \<Rightarrow> bool"
    and fresh :: "'n \<Rightarrow> 'p \<Rightarrow> bool"
    and key :: "'n \<Rightarrow> 'p \<Rightarrow> 'k"
    and lookup :: "'n \<Rightarrow> 'k \<Rightarrow> 'p option"
    and insert_obj :: "'p \<Rightarrow> 'n \<Rightarrow> bool \<times> 'n"
    and delete_key :: "'k \<Rightarrow> 'n \<Rightarrow> bool \<times> 'n"
    and rename_key :: "'k \<Rightarrow> 'k \<Rightarrow> 'n \<Rightarrow> bool \<times> 'n"
  assumes lookup_insert: "inv n \<Longrightarrow> fresh n p \<Longrightarrow> lookup n (key n p) = None \<Longrightarrow>
      lookup (snd (insert_obj p n)) = (lookup n)(key n p \<mapsto> p)"
    and fst_insert: "fst (insert_obj p n) \<longleftrightarrow> lookup n (key n p) = None"
    and insert_present: "lookup n (key n p) \<noteq> None \<Longrightarrow> snd (insert_obj p n) = n"
    and inv_insert: "inv n \<Longrightarrow> fresh n p \<Longrightarrow> inv (snd (insert_obj p n))"
    and lookup_delete: "inv n \<Longrightarrow> lookup (snd (delete_key k n)) = (lookup n)(k := None)"
    and fst_delete: "fst (delete_key k n) \<longleftrightarrow> lookup n k \<noteq> None"
    and inv_delete: "inv n \<Longrightarrow> inv (snd (delete_key k n))"
    and lookup_rename: "inv n \<Longrightarrow> lookup n k' = None \<Longrightarrow>
      lookup (snd (rename_key k k' n)) =
        (case lookup n k of None \<Rightarrow> lookup n | Some p \<Rightarrow> (lookup n)(k := None, k' \<mapsto> p))"
    and fst_rename: "fst (rename_key k k' n) \<longleftrightarrow> lookup n k \<noteq> None"
    and inv_rename: "inv n \<Longrightarrow> lookup n k' = None \<Longrightarrow> inv (snd (rename_key k k' n))"
begin

lemma delete_forgets: "inv n \<Longrightarrow> lookup (snd (delete_key k n)) k = None"
  by (simp add: lookup_delete)

lemma delete_twice: "inv n \<Longrightarrow> \<not> fst (delete_key k (snd (delete_key k n)))"
  by (simp add: fst_delete delete_forgets inv_delete)

lemma rename_frame:
  "inv n \<Longrightarrow> lookup n k' = None \<Longrightarrow> j \<noteq> k \<Longrightarrow> j \<noteq> k' \<Longrightarrow>
    lookup (snd (rename_key k k' n)) j = lookup n j"
  by (simp add: lookup_rename split: option.split)

lemma rename_back:
  assumes "inv n" "lookup n k = Some p" "lookup n k' = None"
  shows "lookup (snd (rename_key k' k (snd (rename_key k k' n)))) = lookup n"
proof -
  let ?m = "snd (rename_key k k' n)"
  have m: "lookup ?m = (lookup n)(k := None, k' \<mapsto> p)"
    using assms by (simp add: lookup_rename)
  have "k \<noteq> k'" using assms by auto
  then have "lookup (snd (rename_key k' k ?m)) = (lookup ?m)(k' := None, k \<mapsto> p)"
    using assms m by (subst lookup_rename) (simp_all add: inv_rename)
  also have "\<dots> = lookup n"
    unfolding m using assms \<open>k \<noteq> k'\<close> by (auto simp: fun_eq_iff)
  finally show ?thesis .
qed

end

subsection \<open>The nodes provide it\<close>

definition table_ok :: "nodes \<Rightarrow> bool" where
  "table_ok n \<longleftrightarrow> nodes_ok n \<and> names_distinct n"

definition unlisted :: "nodes \<Rightarrow> ptr \<Rightarrow> bool" where
  "unlisted n p \<longleftrightarrow> p < next_ptr n \<and> p \<notin> set (filenodes n)"

lemma find_removeAll:
  assumes "distinct (map f xs)" "find (\<lambda>p. f p = k) xs = Some q"
  shows "find (\<lambda>p. f p = j) (removeAll q xs) = (if j = k then None else find (\<lambda>p. f p = j) xs)"
  using assms
proof (induction xs)
  case (Cons x xs)
  show ?case
  proof (cases "f x = k")
    case True
    with Cons.prems have "q = x" "x \<notin> set xs" "\<forall>y \<in> set xs. f y \<noteq> k" by (auto simp: image_iff)
    with True show ?thesis by (auto simp: find_None_iff)
  next
    case False
    with Cons.prems have "find (\<lambda>p. f p = k) xs = Some q" "x \<noteq> q"
      by (auto simp: find_Some_iff)
    with Cons False show ?thesis by auto
  qed
qed simp

lemma find_rename:
  assumes "distinct (map f xs)" "find (\<lambda>p. f p = k) xs = Some q" "k' \<notin> f ` set xs"
  shows "find (\<lambda>p. (f(q := k')) p = j) xs =
    (if j = k' then Some q else if j = k then None else find (\<lambda>p. f p = j) xs)"
  using assms
proof (induction xs)
  case (Cons x xs)
  show ?case
  proof (cases "f x = k")
    case True
    with Cons.prems have q: "q = x" "x \<notin> set xs" "\<forall>y \<in> set xs. f y \<noteq> k" by (auto simp: image_iff)
    then have "find (\<lambda>p. (f(q := k')) p = j) xs = find (\<lambda>p. f p = j) xs"
      by (intro find_cong) auto
    with True q Cons.prems show ?thesis by (auto simp: find_None_iff)
  next
    case False
    with Cons.prems have q: "find (\<lambda>p. f p = k) xs = Some q" "x \<noteq> q" "k' \<noteq> f x"
      by (auto simp: find_Some_iff)
    have IH: "find (\<lambda>p. (f(q := k')) p = j) xs =
        (if j = k' then Some q else if j = k then None else find (\<lambda>p. f p = j) xs)"
      using Cons q by simp
    have fx: "(f(q := k')) x = f x" using q by simp
    show ?thesis using q False by (simp only: find.simps IH fx) auto
  qed
qed simp

lemma names_distinct_rename:
  assumes "table_ok n" "findFileNode n f = Some q" "findFileNode n g = None"
  shows "names_distinct (set_name q g n)"
proof -
  have d: "distinct (filenodes n)" "inj_on (node_name n) (set (filenodes n))"
    using assms(1) by (auto simp: table_ok_def nodes_ok_def names_distinct_def distinct_map)
  have "node_name (set_name q g n) = (node_name n)(q := g)"
    by (auto simp: node_name_def set_name_def)
  then show ?thesis
    using d assms(3)
    by (auto simp: names_distinct_def set_name_def distinct_map find_none_iff inj_on_def)
qed

lemma findFileNode_set_name:
  assumes "table_ok n" "findFileNode n f = Some q" "findFileNode n g = None"
  shows "findFileNode (set_name q g n) = (findFileNode n)(f := None, g \<mapsto> q)"
proof -
  have eq: "node_name (set_name q g n) = (node_name n)(q := g)"
    "filenodes (set_name q g n) = filenodes n"
    by (auto simp: node_name_def set_name_def)
  have ren: "find (\<lambda>p. ((node_name n)(q := g)) p = j) (filenodes n) =
      (if j = g then Some q else if j = f then None
       else find (\<lambda>p. node_name n p = j) (filenodes n))" for j
    using assms by (intro find_rename)
      (simp_all add: table_ok_def names_distinct_def findFileNode_def [symmetric] find_none_iff)
  have "g \<noteq> f" using assms by auto
  then show ?thesis
    by (intro ext) (simp only: findFileNode_def eq ren, simp add: findFileNode_def)
qed

lemma find_snoc:
  "find P (xs @ [x]) =
    (case find P xs of None \<Rightarrow> if P x then Some x else None | Some y \<Rightarrow> Some y)"
  by (induction xs) auto

lemma node_name_upd [simp]: "node_name (n\<lparr>filenodes := xs\<rparr>) = node_name n"
  by (simp add: node_name_def fun_eq_iff)

interpretation nt: name_table table_ok unlisted node_name findFileNode
  "\<lambda>p. addFileNode (Some p)" deleteFileNode rename
proof
  fix n p k k'
  show "table_ok n \<Longrightarrow> unlisted n p \<Longrightarrow> findFileNode n (node_name n p) = None \<Longrightarrow>
      findFileNode (snd (addFileNode (Some p) n)) = (findFileNode n)(node_name n p \<mapsto> p)"
    by (auto simp: addFileNode_def findFileNode_def node_name_def fun_eq_iff find_snoc
        split: option.split)
  show "fst (addFileNode (Some p) n) = (findFileNode n (node_name n p) = None)"
    by (simp add: addFileNode_def split: option.split)
  show "findFileNode n (node_name n p) \<noteq> None \<Longrightarrow> snd (addFileNode (Some p) n) = n"
    by (auto simp: addFileNode_def)
  show "table_ok n \<Longrightarrow> unlisted n p \<Longrightarrow> table_ok (snd (addFileNode (Some p) n))"
    using nodes_ok_addFileNode [of n "Some p"]
    by (auto simp: table_ok_def unlisted_def names_distinct_def addFileNode_def
        find_none_iff node_name_upd image_iff split: option.splits)
  show "table_ok n \<Longrightarrow> findFileNode (snd (deleteFileNode k n)) = (findFileNode n)(k := None)"
    using find_removeAll [of "node_name n" "filenodes n" k]
    by (auto simp: deleteFileNode_def findFileNode_def table_ok_def names_distinct_def
        node_name_def fun_eq_iff split: option.split)
  show "fst (deleteFileNode k n) = (findFileNode n k \<noteq> None)"
    by (auto simp: deleteFileNode_def findFileNode_def split: option.split)
  show "table_ok n \<Longrightarrow> table_ok (snd (deleteFileNode k n))"
    using nodes_ok_deleteFileNode [of n k]
    by (auto simp: table_ok_def names_distinct_def deleteFileNode_def distinct_map node_name_def
        inj_on_def distinct_removeAll split: option.split)
  show "table_ok n \<Longrightarrow> findFileNode n k' = None \<Longrightarrow>
      findFileNode (snd (rename k k' n)) =
        (case findFileNode n k of None \<Rightarrow> findFileNode n
         | Some p \<Rightarrow> (findFileNode n)(k := None, k' \<mapsto> p))"
    by (auto simp: rename_def findFileNode_set_name split: option.split)
      (auto simp: findFileNode_def)
  show "fst (rename k k' n) = (findFileNode n k \<noteq> None)"
    by (auto simp: rename_def findFileNode_def split: option.split)
  show "table_ok n \<Longrightarrow> findFileNode n k' = None \<Longrightarrow> table_ok (snd (rename k k' n))"
    using nodes_ok_rename [of n k k'] names_distinct_rename [of n k _ k']
    by (auto simp: table_ok_def rename_def split: option.splits if_splits)
qed

subsection \<open>Nodes as a finite map\<close>

datatype node_op = AddNode ptr | DeleteNode wstr | RenameNode wstr wstr

fun run_op :: "node_op \<Rightarrow> nodes \<Rightarrow> nodes" where
  "run_op (AddNode p) n = snd (addFileNode (Some p) n)"
| "run_op (DeleteNode f) n = snd (deleteFileNode f n)"
| "run_op (RenameNode f g) n = snd (rename f g n)"

text \<open>What each operation is meant to do to the map from names to nodes, \<open>nm\<close> naming a new node.\<close>

fun map_op :: "(ptr \<Rightarrow> wstr) \<Rightarrow> node_op \<Rightarrow> (wstr \<rightharpoonup> ptr) \<Rightarrow> (wstr \<rightharpoonup> ptr)" where
  "map_op nm (AddNode p) m = (if m (nm p) = None then m(nm p \<mapsto> p) else m)"
| "map_op nm (DeleteNode f) m = m(f := None)"
| "map_op nm (RenameNode f g) m = (case m f of None \<Rightarrow> m | Some p \<Rightarrow> m(f := None, g \<mapsto> p))"

fun op_allowed :: "node_op \<Rightarrow> nodes \<Rightarrow> bool" where
  "op_allowed (AddNode p) n = unlisted n p"
| "op_allowed (DeleteNode f) n = True"
| "op_allowed (RenameNode f g) n = (findFileNode n g = None)"

fun ops_allowed :: "node_op list \<Rightarrow> nodes \<Rightarrow> bool" where
  "ops_allowed [] n = True"
| "ops_allowed (x # xs) n = (op_allowed x n \<and> ops_allowed xs (run_op x n))"

fun map_ops :: "node_op list \<Rightarrow> nodes \<Rightarrow> (wstr \<rightharpoonup> ptr) \<Rightarrow> (wstr \<rightharpoonup> ptr)" where
  "map_ops [] n m = m"
| "map_ops (x # xs) n m = map_ops xs (run_op x n) (map_op (node_name n) x m)"

lemma run_op_refines:
  assumes "table_ok n" and "op_allowed x n"
  shows "table_ok (run_op x n) \<and> findFileNode (run_op x n) = map_op (node_name n) x (findFileNode n)"
proof (cases x)
  case (AddNode p)
  show ?thesis
  proof (cases "findFileNode n (node_name n p)")
    case None
    then show ?thesis
      using assms nt.lookup_insert [of n p] nt.inv_insert [of n p] by (simp add: AddNode)
  next
    case (Some q)
    then show ?thesis using assms nt.insert_present [of n p] by (simp add: AddNode)
  qed
next
  case (DeleteNode f)
  then show ?thesis using assms nt.lookup_delete nt.inv_delete by simp
next
  case (RenameNode f g)
  then show ?thesis using assms nt.lookup_rename nt.inv_rename by simp
qed

text \<open>
  C13: The list of nodes refines a finite map from names to nodes: along any sequence of insertions
  of new nodes, deletions and renamings, each onto a name not in use, looking a name up gives what the
  map gives, and no two listed nodes ever share a name.
\<close>

theorem nodes_refine_map:
  assumes "table_ok n" and "ops_allowed xs n"
  shows "table_ok (fold run_op xs n) \<and>
    findFileNode (fold run_op xs n) = map_ops xs n (findFileNode n)"
  using assms
proof (induction xs arbitrary: n)
  case (Cons x xs)
  then have "table_ok (run_op x n)" "findFileNode (run_op x n) = map_op (node_name n) x (findFileNode n)"
    using run_op_refines by simp_all
  then show ?case using Cons by simp
qed simp

theorem nodes_refine_map_witness:
  "findFileNode (fold run_op [AddNode 0, RenameNode (W ''a'') (W ''b'')]
      (snd (make_shared (new_node (W ''a'') False 0) empty_nodes))) (W ''b'') = Some 0"
proof -
  let ?n = "snd (make_shared (new_node (W ''a'') False 0) empty_nodes)"
  have "table_ok ?n" "ops_allowed [AddNode 0, RenameNode (W ''a'') (W ''b'')] ?n"
    by (auto simp: table_ok_def nodes_ok_def names_distinct_def make_shared_def empty_nodes_def
        new_node_def security_ok_def no_security_def unlisted_def addFileNode_def findFileNode_def
        node_name_def W_def)
  then show ?thesis
    using nodes_refine_map [of ?n "[AddNode 0, RenameNode (W ''a'') (W ''b'')]"]
    by (simp add: make_shared_def empty_nodes_def findFileNode_def node_name_def new_node_def W_def)
qed

end
