(* ===== verification/NodeArchive.thy ===== *)
theory NodeArchive
  imports NodeTable
begin

text \<open>
  The file in which \<open>FileMount\<close> keeps the nodes between runs: the boost \<open>serialize\<close>, \<open>save\<close> and
  \<open>load\<close> members of \<open>security_informations\<close>, \<open>filenode\<close> and \<open>Nodes\<close> (seamless_smb_lib/filenode.h,
  nodes.h). The archive library is not modelled: an archive is the sequence of the typed values
  written with \<open>ar & x\<close>, a list is preceded by its length, and a shared object is written where the
  list first holds it (no list of nodes holds an object twice). Reading a value of another type than
  the one written is the library's archive exception: \<open>None\<close>.
\<close>

datatype item = ArBool bool | ArUInt dword | ArWStr wstr | ArByte u8 | ArCount nat

subsection \<open>Writing\<close>

definition security_items :: "security_informations \<Rightarrow> item list" where
  "security_items si =
     [ArWStr (strdescriptor si), ArUInt (descriptor_size si)] @
     map (\<lambda>i. ArByte (descriptor si ! i)) [0..<unat (descriptor_size si)]"

definition save_security :: "security_informations \<Rightarrow> item list outcome" where
  "save_security si =
     (if unat (descriptor_size si) > length (descriptor si) then Fault OutOfBounds
      else Ret (security_items si))"

definition filenode_items :: "filenode \<Rightarrow> item list" where
  "filenode_items f =
     [ArBool (is_directory f), ArUInt (attributes f), ArWStr (fileName f)] @
     security_items (security f)"

definition serialize_filenode :: "filenode \<Rightarrow> item list outcome" where
  "serialize_filenode f =
     (case save_security (security f) of
        Fault e \<Rightarrow> Fault e
      | Ret ts \<Rightarrow> Ret ([ArBool (is_directory f), ArUInt (attributes f), ArWStr (fileName f)] @ ts))"

fun serialize_list :: "filenode list \<Rightarrow> item list outcome" where
  "serialize_list [] = Ret []"
| "serialize_list (f # fs) =
     (case serialize_filenode f of
        Fault e \<Rightarrow> Fault e
      | Ret ts \<Rightarrow>
          (case serialize_list fs of Fault e \<Rightarrow> Fault e | Ret us \<Rightarrow> Ret (ts @ us)))"

definition save_nodes :: "nodes \<Rightarrow> item list outcome" where
  "save_nodes n =
     (case serialize_list (map (store n) (filenodes n)) of
        Fault e \<Rightarrow> Fault e
      | Ret ts \<Rightarrow> Ret (ArCount (length (filenodes n)) # ts))"

subsection \<open>Reading\<close>

fun load_byte :: "item list \<Rightarrow> (u8 \<times> item list) option" where
  "load_byte (ArByte b # ts) = Some (b, ts)"
| "load_byte _ = None"

fun load_security :: "item list \<Rightarrow> (security_informations \<times> item list) option" where
  "load_security (ArWStr str # ArUInt sz # ts) =
     map_option (\<lambda>(bs, ts'). (\<lparr>strdescriptor = str, descriptor = bs, descriptor_size = sz\<rparr>, ts'))
       (dec_items load_byte (unat sz) ts)"
| "load_security _ = None"

fun load_filenode :: "item list \<Rightarrow> (filenode \<times> item list) option" where
  "load_filenode (ArBool d # ArUInt a # ArWStr f # ts) =
     map_option (\<lambda>(si, ts'). (\<lparr>is_directory = d, attributes = a, fileName = f, security = si\<rparr>, ts'))
       (load_security ts)"
| "load_filenode _ = None"

text \<open>Each object read is a new one.\<close>

fun push_new :: "filenode list \<Rightarrow> nodes \<Rightarrow> nodes" where
  "push_new [] n = n"
| "push_new (f # fs) n =
     (let (p, n') = make_shared f n in push_new fs (n'\<lparr>filenodes := filenodes n' @ [p]\<rparr>))"

fun load_nodes :: "item list \<Rightarrow> nodes \<Rightarrow> (nodes \<times> item list) option" where
  "load_nodes (ArCount k # ts) n =
     map_option (\<lambda>(fs, ts'). (push_new fs (n\<lparr>filenodes := []\<rparr>), ts')) (dec_items load_filenode k ts)"
| "load_nodes _ n = None"

subsection \<open>The archive as a codec\<close>

interpretation ar_byte: strict_codec "\<lambda>_. True" "\<lambda>b. [ArByte b]" load_byte
  by unfold_locales (auto simp: strict_prefix_def prefix_Cons)

lemma security_items_ok:
  "security_ok si \<Longrightarrow> security_items si =
     [ArWStr (strdescriptor si), ArUInt (descriptor_size si)] @
     concat (map (\<lambda>b. [ArByte b]) (descriptor si))"
  using map_nth [of "descriptor si", THEN arg_cong, of "map ArByte"]
  by (simp add: security_items_def security_ok_def o_def)

interpretation ar_security: strict_codec security_ok security_items load_security
proof
  fix si r p
  assume ok: "security_ok si"
  have "dec_items load_byte (unat (descriptor_size si))
      (concat (map (\<lambda>b. [ArByte b]) (descriptor si)) @ r) = Some (descriptor si, r)"
    using ar_byte.dec_items_enc [of "descriptor si" r] ok
    by (simp add: security_ok_def list_all_iff)
  then show "load_security (security_items si @ r) = Some (si, r)"
    by (simp add: security_items_ok [OF ok])
  assume "strict_prefix p (security_items si)"
  then consider "length p < 2"
    | q where "p = ArWStr (strdescriptor si) # ArUInt (descriptor_size si) # q"
        "strict_prefix q (concat (map (\<lambda>b. [ArByte b]) (descriptor si)))"
    by (cases p rule: load_security.cases) (auto simp: security_items_ok [OF ok])
  then show "load_security p = None"
  proof cases
    case 1
    then show ?thesis by (cases p rule: load_security.cases) auto
  next
    case 2
    then show ?thesis
      using ar_byte.dec_items_cut [of "descriptor si" q] ok by (simp add: security_ok_def list_all_iff)
  qed
qed

interpretation ar_filenode: strict_codec "\<lambda>f. security_ok (security f)" filenode_items load_filenode
proof
  fix f :: filenode and r p
  assume ok: "security_ok (security f)"
  then show "load_filenode (filenode_items f @ r) = Some (f, r)"
    by (simp add: filenode_items_def ar_security.dec_enc)
  assume "strict_prefix p (filenode_items f)"
  then consider "length p < 3"
    | q where "p = ArBool (is_directory f) # ArUInt (attributes f) # ArWStr (fileName f) # q"
        "strict_prefix q (security_items (security f))"
    by (cases p rule: load_filenode.cases) (auto simp: filenode_items_def)
  then show "load_filenode p = None"
  proof cases
    case 1
    then show ?thesis by (cases p rule: load_filenode.cases) auto
  next
    case 2
    then show ?thesis using ar_security.dec_cut [OF ok] by simp
  qed
qed

subsection \<open>Round trip\<close>

lemma serialize_list_ok:
  "list_all (\<lambda>f. security_ok (security f)) fs \<Longrightarrow>
    serialize_list fs = Ret (concat (map filenode_items fs))"
  by (induction fs)
    (simp_all add: serialize_filenode_def save_security_def security_ok_def filenode_items_def)

lemma save_nodes_ok:
  "nodes_ok n \<Longrightarrow> save_nodes n =
    Ret (ArCount (length (filenodes n)) # concat (map filenode_items (map (store n) (filenodes n))))"
  by (simp add: save_nodes_def serialize_list_ok nodes_ok_def list_all_iff)

lemma push_new_next: "next_ptr (push_new fs n) = next_ptr n + length fs"
  by (induction fs arbitrary: n) (simp_all add: make_shared_def)

lemma push_new_filenodes:
  "filenodes (push_new fs n) = filenodes n @ [next_ptr n..<next_ptr n + length fs]"
  by (induction fs arbitrary: n) (auto simp: make_shared_def upt_rec)

lemma push_new_store:
  "store (push_new fs n) p =
    (if next_ptr n \<le> p \<and> p < next_ptr n + length fs then fs ! (p - next_ptr n) else store n p)"
proof (induction fs arbitrary: n)
  case (Cons f fs)
  show ?case
    by (auto simp: make_shared_def Cons nth_Cons' Suc_le_eq)
qed auto

lemma push_new_objects:
  "filenodes n = [] \<Longrightarrow> map (store (push_new fs n)) (filenodes (push_new fs n)) = fs"
  by (rule nth_equalityI) (simp_all add: push_new_filenodes push_new_store)

lemma push_new_ok:
  assumes "nodes_ok n" "list_all (\<lambda>f. security_ok (security f)) fs"
  shows "nodes_ok (push_new fs n)"
  using assms
proof (induction fs arbitrary: n)
  case (Cons f fs)
  let ?n = "snd (make_shared f n)"
  have p: "fst (make_shared f n) = next_ptr n" by (simp add: make_shared_def)
  have "nodes_ok (?n\<lparr>filenodes := filenodes ?n @ [next_ptr n]\<rparr>)"
    using Cons.prems nodes_ok_make_shared [of n f] by (auto simp: nodes_ok_def make_shared_def)
  then show ?case
    using Cons.IH Cons.prems by (simp add: case_prod_beta p)
qed simp

lemma find_map_option: "map_option g (find (\<lambda>p. P (g p)) xs) = find P (map g xs)"
  by (induction xs) auto

text \<open>A lookup sees only the objects behind the list.\<close>

lemma find_via_objects:
  "map_option (store n) (findFileNode n f) =
    find (\<lambda>x. fileName x = f) (map (store n) (filenodes n))"
  by (simp add: findFileNode_def node_name_def
      find_map_option [of "store n" "\<lambda>x. fileName x = f", simplified])

lemma archive_roundtrip:
  assumes "nodes_ok n" and "nodes_ok m"
  shows "\<exists>ts n'. save_nodes n = Ret ts \<and> load_nodes ts m = Some (n', []) \<and> nodes_ok n' \<and>
    (\<forall>f. map_option (store n') (findFileNode n' f) = map_option (store n) (findFileNode n f))"
proof -
  let ?fs = "map (store n) (filenodes n)"
  let ?n' = "push_new ?fs (m\<lparr>filenodes := []\<rparr>)"
  have ok: "list_all (\<lambda>f. security_ok (security f)) ?fs"
    using assms(1) by (simp add: nodes_ok_def list_all_iff)
  have "nodes_ok (m\<lparr>filenodes := []\<rparr>)" using assms(2) by (simp add: nodes_ok_def)
  then have "nodes_ok ?n'" using push_new_ok ok by blast
  moreover have "dec_items load_filenode (length (filenodes n)) (concat (map filenode_items ?fs))
      = Some (?fs, [])"
    using ar_filenode.dec_items_enc [OF ok, of "[]"] by simp
  then have "load_nodes (ArCount (length (filenodes n)) # concat (map filenode_items ?fs)) m =
      Some (?n', [])"
    by simp
  ultimately show ?thesis
    using save_nodes_ok [OF assms(1)]
    by (intro exI [where x = "ArCount (length (filenodes n)) # concat (map filenode_items ?fs)"]
          exI [where x = ?n'])
      (simp add: find_via_objects push_new_objects)
qed

text \<open>A file that was not written to its end cannot be read, wherever the writing stopped.\<close>

lemma cut_archive_unreadable:
  assumes "nodes_ok n" and "save_nodes n = Ret ts" and "strict_prefix us ts"
  shows "load_nodes us m = None"
proof (cases us)
  case (Cons t vs)
  let ?fs = "map (store n) (filenodes n)"
  have ok: "list_all (\<lambda>f. security_ok (security f)) ?fs"
    using assms(1) by (simp add: nodes_ok_def list_all_iff)
  have "t = ArCount (length ?fs)" "strict_prefix vs (concat (map filenode_items ?fs))"
    using assms(2,3) save_nodes_ok [OF assms(1)] Cons by auto
  then show ?thesis using ar_filenode.dec_items_cut [OF ok] Cons by simp
qed simp

text \<open>Whatever the file holds, what is read from it is well formed: sizes come with their bytes.\<close>

lemma dec_items_length: "dec_items f k ts = Some (xs, ts') \<Longrightarrow> length xs = k"
  by (induction k arbitrary: ts xs) (auto split: option.splits prod.splits)

lemma dec_items_all:
  assumes "\<And>ts x ts'. f ts = Some (x, ts') \<Longrightarrow> P x"
  shows "dec_items f k ts = Some (xs, ts') \<Longrightarrow> list_all P xs"
  using assms by (induction k arbitrary: ts xs) (auto split: option.splits prod.splits)

lemma load_security_ok: "load_security ts = Some (si, ts') \<Longrightarrow> security_ok si"
  by (cases ts rule: load_security.cases) (auto simp: security_ok_def dest!: dec_items_length)

lemma load_filenode_ok: "load_filenode ts = Some (f, ts') \<Longrightarrow> security_ok (security f)"
  by (cases ts rule: load_filenode.cases) (auto dest!: load_security_ok)

lemma load_nodes_ok:
  assumes "load_nodes ts m = Some (n, rest)" and "nodes_ok m"
  shows "nodes_ok n"
proof -
  obtain k us fs where l: "ts = ArCount k # us" "dec_items load_filenode k us = Some (fs, rest)"
    "n = push_new fs (m\<lparr>filenodes := []\<rparr>)"
    using assms(1) by (cases "(ts, m)" rule: load_nodes.cases) auto
  have "list_all (\<lambda>f. security_ok (security f)) fs"
    using dec_items_all [of load_filenode "\<lambda>f. security_ok (security f)"] load_filenode_ok l(2) by blast
  moreover have "nodes_ok (m\<lparr>filenodes := []\<rparr>)" using assms(2) by (simp add: nodes_ok_def)
  ultimately show ?thesis using push_new_ok l(3) by blast
qed

text \<open>C18: The nodes survive a restart. Saving a well-formed set of nodes does not fault; reading
  the archive into a new mount consumes it entirely, gives well-formed nodes, and every name finds
  a node with the same directory bit, attributes, name and security descriptor as before, or none
  where there was none.\<close>

theorem nodes_archive_roundtrip:
  assumes "nodes_ok n" and "nodes_ok m"
  shows "\<exists>ts n'. save_nodes n = Ret ts \<and> load_nodes ts m = Some (n', []) \<and> nodes_ok n' \<and>
    (\<forall>f. map_option (store n') (findFileNode n' f) = map_option (store n) (findFileNode n f))"
  by (rule archive_roundtrip [OF assms])

definition sample_nodes :: nodes where
  "sample_nodes = snd (addFileNode (Some 0) (snd (make_shared
     \<lparr>is_directory = False, attributes = 0x20, fileName = W ''a'',
      security = \<lparr>strdescriptor = W ''D:'', descriptor = [1, 0, 4, 0x80], descriptor_size = 4\<rparr>\<rparr>
     empty_nodes)))"

lemma nodes_archive_roundtrip_witness:
  "\<exists>ts n'. save_nodes sample_nodes = Ret ts \<and> load_nodes ts empty_nodes = Some (n', []) \<and>
    nodes_ok n' \<and> (\<forall>f. map_option (store n') (findFileNode n' f) =
      map_option (store sample_nodes) (findFileNode sample_nodes f))"
proof (rule nodes_archive_roundtrip)
  show "nodes_ok sample_nodes"
    unfolding sample_nodes_def
    by (intro nodes_ok_addFileNode nodes_ok_make_shared nodes_ok_empty)
      (simp_all add: security_ok_def make_shared_def empty_nodes_def)
qed (rule nodes_ok_empty)

end
