(* ===== verification/FileSecurity.thy ===== *)
theory FileSecurity
  imports FileData NodeArchive
begin

text \<open>
  The security handlers (seamless_smb_lib/filesecurity.cpp). A file with a node answers with the
  node's descriptor and changes it there; any other file has the default descriptor until its first
  change makes a node for it. \<open>GetPrivateObjectSecurity\<close> and \<open>SetPrivateObjectSecurity\<close> are parameters:
  \<open>sec_GetPrivate\<close> gives the parts of a descriptor asked for, \<open>sec_SetPrivate\<close> the merged descriptor.
\<close>

subsection \<open>Values never written\<close>

text \<open>A local variable that the code reads without having written it holds whatever was there.\<close>

definition garbage32 :: "('a) os_scheme \<Rightarrow> hist \<Rightarrow> dword" where
  "garbage32 E t =
     push_bit 24 (ucast (os_garbage E t 3)) OR push_bit 16 (ucast (os_garbage E t 2)) OR
     push_bit 8 (ucast (os_garbage E t 1)) OR ucast (os_garbage E t 0)"

subsection \<open>Reading a descriptor\<close>

text \<open>The status, the descriptor written to the caller's buffer, and \<open>LengthNeeded\<close> if it was set.\<close>

type_synonym security_answer = "ntstatus \<times> sd option \<times> dword option"

text \<open>
  Both branches: ask for the size with no buffer, then for the parts. \<open>size0\<close> is what the size
  variable holds when the first call does not set it.
\<close>

definition answer_security ::
  "('a) secos_scheme \<Rightarrow> dword \<Rightarrow> sd \<Rightarrow> dword \<Rightarrow> dword \<Rightarrow> security_answer handler" where
  "answer_security E info d bufferLength size0 =
    (let parts = sec_GetPrivate E d info;
         needed = (case parts of None \<Rightarrow> size0 | Some r \<Rightarrow> of_nat (length r)) in
     if needed > bufferLength then return (STATUS_BUFFER_OVERFLOW, None, Some needed)
     else
       (case parts of
          None \<Rightarrow> bind (GetLastError E) (\<lambda>e. return (e, None, None))
        | Some r \<Rightarrow> return (STATUS_SUCCESS, Some r, Some needed)))"

definition MirrorGetFileSecurity ::
  "('a) secos_scheme \<Rightarrow> wstr \<Rightarrow> dword \<Rightarrow> dword \<Rightarrow> security_answer handler" where
  "MirrorGetFileSecurity E fn info bufferLength =
    bind (GetFilePath fn) (\<lambda>path.
    bind (find_node fn) (\<lambda>node.
    case node of
      Some p \<Rightarrow>
        bind (gets (\<lambda>s. security (store (fs s) p))) (\<lambda>si.
        bind (GetDescriptor E si) (\<lambda>sdo.
        bind (or_fault NullPointer sdo) (\<lambda>d.
        answer_security E info d bufferLength 0)))
    | None \<Rightarrow>
        bind (CreateDefaultSelfRelativeSD E) (\<lambda>(st, sdo).
        bind (or_fault NullPointer sdo) (\<lambda>d.
        bind (gets (\<lambda>s. garbage32 E (trace s))) (\<lambda>size0.
        answer_security E info d bufferLength size0)))))"

subsection \<open>Changing a descriptor\<close>

text \<open>
  The answer of \<open>SetPrivateObjectSecurity\<close> is dropped; what is tested instead is \<open>stat\<close>, a variable
  that nothing has written.
\<close>

definition change_node ::
  "('a) secos_scheme \<Rightarrow> ptr \<Rightarrow> dword \<Rightarrow> sd \<Rightarrow> ntstatus handler" where
  "change_node E p info modification =
    bind (gets (\<lambda>s. security (store (fs s) p))) (\<lambda>si.
    bind (GetDescriptor E si) (\<lambda>sdo.
    bind (or_fault Uninitialised sdo) (\<lambda>d.
    let d' = (case sec_SetPrivate E info modification (Some d) of None \<Rightarrow> d | Some x \<Rightarrow> x) in
    bind (gets (\<lambda>s. garbage32 E (trace s))) (\<lambda>stat.
    if stat \<noteq> ERROR_SUCCESS then last_status E
    else
      bind (lift_outcome (SetDescriptor E (Some d') si)) (\<lambda>si'.
      bind (modify (\<lambda>s. s\<lparr>fs := set_security p si' (fs s)\<rparr>)) (\<lambda>_.
      return STATUS_SUCCESS))))))"

definition first_change ::
  "('a) secos_scheme \<Rightarrow> wstr \<Rightarrow> dword \<Rightarrow> sd \<Rightarrow> ntstatus handler" where
  "first_change E fn info modification =
    bind (CreateDefaultSelfRelativeSD E) (\<lambda>(st, sdo).
    case sec_SetPrivate E info modification sdo of
      None \<Rightarrow> last_status E
    | Some d \<Rightarrow>
        bind (gets IsDirectory) (\<lambda>dir.
        bind (make_node E fn dir 0 (Some d)) (\<lambda>p.
        bind (add_node (Some p)) (\<lambda>_.
        return STATUS_SUCCESS))))"

definition MirrorSetFileSecurity ::
  "('a) secos_scheme \<Rightarrow> wstr \<Rightarrow> dword \<Rightarrow> sd \<Rightarrow> ntstatus handler" where
  "MirrorSetFileSecurity E fn info modification =
    bind (GetFilePath fn) (\<lambda>path.
    with_handle (\<lambda>h.
      bind (find_node fn) (\<lambda>node.
      case node of
        Some p \<Rightarrow> change_node E p info modification
      | None \<Rightarrow> first_change E fn info modification)))"

subsection \<open>Confinement, handles, nodes\<close>

text \<open>The default descriptor is built by calls that name no path and leave the nodes alone.\<close>

lemma adds_security_call: "P SecurityCall \<Longrightarrow> preserves (adds P g t) (syscall f (\<lambda>_. SecurityCall))"
  by (simp add: adds_syscall)

lemma adds_default:
  "preserves (adds (confined g) g t) (CreateDefaultSelfRelativeSD E)"
  unfolding CreateDefaultSelfRelativeSD_def GetNotElevatedSIDS_def open_linked_token_def
    BOOL_TO_ERROR_def Let_def
  by (intro adds_intros adds_security_call; simp)

lemma fs_inv_default: "preserves (fs_inv N) (CreateDefaultSelfRelativeSD E)"
  unfolding CreateDefaultSelfRelativeSD_def GetNotElevatedSIDS_def open_linked_token_def
    BOOL_TO_ERROR_def Let_def
  by (intro fs_inv_intros; simp)

lemmas security_handlers = MirrorGetFileSecurity_def MirrorSetFileSecurity_def

lemma security_confined:
  "preserves (adds (confined g) g t) (MirrorGetFileSecurity E fn info len)"
  "preserves (adds (confined g) g t) (MirrorSetFileSecurity E fn info m)"
  unfolding security_handlers answer_security_def GetDescriptor_def change_node_def first_change_def
    with_handle_def Let_def
  by (intro adds_intros adds_default; simp)+

lemma GetDescriptor_fs: "preserves (fs_inv N) (GetDescriptor E si)"
  unfolding GetDescriptor_def by (intro fs_inv_intros fs_inv_default; simp)

lemma wpf_keeps_fs:
  assumes "\<And>N. preserves (fs_inv N) m" and "\<And>a s'. fs s' = fs s \<Longrightarrow> Q a s'"
    and "\<And>e s'. fs s' = fs s \<Longrightarrow> F e s'"
  shows "wpf m Q F s"
proof -
  have "wpf m (\<lambda>_. fs_inv (\<lambda>n. n = fs s)) (\<lambda>_. fs_inv (\<lambda>n. n = fs s)) s"
    by (rule wpf_by_preserves [OF assms(1)]) (simp add: fs_inv_def)
  then show ?thesis by (rule wpf_mono) (simp_all add: fs_inv_def assms)
qed

lemma mount_ok_set_security: "mount_ok n \<Longrightarrow> security_ok si \<Longrightarrow> mount_ok (set_security p si n)"
  by (simp add: mount_ok_def counts_ok_nodes nodes_ok_set_security)

lemma change_node_ok: "preserves (fs_inv mount_ok) (change_node E p info m)"
proof (rule preserves_by_wpf)
  fix s
  assume ok: "fs_inv mount_ok s"
  then have si: "security_ok (security (store (fs s) p))"
    by (simp add: fs_inv_def mount_ok_def nodes_ok_def)
  have upd: "mount_ok (set_security p si' (fs s))"
    if "SetDescriptor E sdo (security (store (fs s) p)) = Ret si'" for sdo si'
    using that ok SetDescriptor_ok [OF that si] by (simp add: fs_inv_def mount_ok_set_security)
  show "wpf (change_node E p info m) (\<lambda>_. fs_inv mount_ok) (\<lambda>_. fs_inv mount_ok) s"
    unfolding change_node_def wpf_bind wpf_gets
    by (rule wpf_keeps_fs [OF GetDescriptor_fs])
      (use ok in \<open>auto simp: wp_simps Let_def fs_inv_def intro: upd split: option.split outcome.split\<close>)
qed

lemma first_change_ok: "preserves (fs_inv mount_ok) (first_change E fn info m)"
proof (rule preserves_by_wpf)
  fix s
  assume ok: "fs_inv mount_ok s"
  have add: "wpf (bind (make_node E fn dir 0 (Some d)) (\<lambda>p. bind (add_node (Some p)) (\<lambda>_. return STATUS_SUCCESS)))
      (\<lambda>_. fs_inv mount_ok) (\<lambda>_. fs_inv mount_ok) s1" if "fs_inv mount_ok s1" for dir d s1
    unfolding wpf_bind wpf_return by (rule wpf_mono [OF make_node_ok [OF that]]) (simp_all add: add_node_ok)
  show "wpf (first_change E fn info m) (\<lambda>_. fs_inv mount_ok) (\<lambda>_. fs_inv mount_ok) s"
    unfolding first_change_def wpf_bind [of "CreateDefaultSelfRelativeSD E"]
    by (rule wpf_mono [OF wpf_by_preserves [OF fs_inv_default ok]])
      (auto simp: wpf_bind [of "gets IsDirectory"] wpf_gets wpf_last_status add split: option.split)
qed

lemma security_nodes:
  "preserves (fs_inv mount_ok) (MirrorGetFileSecurity E fn info len)"
  "preserves (fs_inv mount_ok) (MirrorSetFileSecurity E fn info m)"
  unfolding security_handlers answer_security_def with_handle_def Let_def
  by (intro fs_inv_intros fs_inv_default GetDescriptor_fs change_node_ok first_change_ok; simp)+

subsection \<open>Set and get\<close>

lemma wpf_answer_security:
  "wpf (answer_security E info d len size0) Q F s =
    (case sec_GetPrivate E d info of
       None \<Rightarrow> if size0 > len then Q (STATUS_BUFFER_OVERFLOW, None, Some size0) s
               else Q (last_error E (trace s), None, None) s
     | Some r \<Rightarrow> if of_nat (length r) > len
                 then Q (STATUS_BUFFER_OVERFLOW, None, Some (of_nat (length r))) s
                 else Q (STATUS_SUCCESS, Some r, Some (of_nat (length r))) s)"
  by (simp add: answer_security_def wp_simps sys_defs Let_def split: option.split)

lemma wpf_cached_default:
  "SDCached s = Some d \<Longrightarrow> wpf (CreateDefaultSelfRelativeSD E) Q F s = Q (ERROR_SUCCESS, Some d) s"
  by (simp add: CreateDefaultSelfRelativeSD_def wp_simps)

lemma find_added:
  assumes "nodes_ok n" "findFileNode n f = None" "fileName x = f"
  shows "findFileNode (snd (addFileNode (Some (next_ptr n)) (snd (make_shared x n)))) f =
      Some (next_ptr n)"
    and "store (snd (addFileNode (Some (next_ptr n)) (snd (make_shared x n)))) (next_ptr n) = x"
proof -
  let ?n = "snd (make_shared x n)"
  have names: "node_name ?n q = (if q = next_ptr n then f else node_name n q)" for q
    using assms(3) by (simp add: make_shared_def node_name_def)
  have none: "findFileNode ?n f = None"
    using assms(1,2) names
    by (auto simp: find_none_iff make_shared_def nodes_ok_def image_iff split: if_splits)
  then have "findFileNode ?n (node_name ?n (next_ptr n)) = None" by (simp add: names)
  then have add: "snd (addFileNode (Some (next_ptr n)) ?n) =
      ?n\<lparr>filenodes := filenodes ?n @ [next_ptr n]\<rparr>"
    by (simp add: addFileNode_def)
  have "find (\<lambda>p. node_name ?n p = f) (filenodes ?n) = None"
    using none by (simp add: findFileNode_def)
  then show "findFileNode (snd (addFileNode (Some (next_ptr n)) ?n)) f = Some (next_ptr n)"
    unfolding add by (simp add: findFileNode_def find_snoc names)
  show "store (snd (addFileNode (Some (next_ptr n)) ?n)) (next_ptr n) = x"
    unfolding add by (simp add: make_shared_def)
qed

text \<open>
  C19: The first descriptor set is what is read back. On a file without a node and with the default
  descriptor known, a successful merge of a new descriptor makes a node that holds it, and a query by
  \<open>MirrorGetFileSecurity\<close> right after it answers the requested parts of exactly that descriptor, or the
  size they need when the buffer is too small. For a file that has a node the outcome depends on an
  uninitialised variable (\<open>set_security_decided_by_garbage\<close>).
\<close>

theorem set_then_get_security:
  assumes "GetFilePath_at (globals s) fn = Ret path" and "live (Context s)"
    and "findFileNode (fs s) fn = None" and "SDCached s = Some d0"
    and "sec_SetPrivate E info m (Some d0) = Some d"
    and "SetDescriptor E (Some d) no_security = Ret si" and "descriptor_size si \<noteq> 0"
    and "sec_GetPrivate E (descriptor si) info' = Some r" and "nodes_ok (fs s)"
  shows "wpf (bind (MirrorSetFileSecurity E fn info m) (\<lambda>st.
         bind (MirrorGetFileSecurity E fn info' len) (\<lambda>answer. return (st, answer))))
    (\<lambda>(st, answer) s'. st = STATUS_SUCCESS \<and>
       answer = (if of_nat (length r) > len
                 then (STATUS_BUFFER_OVERFLOW, None, Some (of_nat (length r)))
                 else (STATUS_SUCCESS, Some r, Some (of_nat (length r))))) (\<lambda>_ _. False) s"
proof -
  define x where "x = new_node fn (IsDirectory s) 0\<lparr>security := si\<rparr>"
  define n where "n = snd (addFileNode (Some (next_ptr (fs s))) (snd (make_shared x (fs s))))"
  have n: "findFileNode n fn = Some (next_ptr (fs s))" "store n (next_ptr (fs s)) = x"
    using find_added [OF assms(9,3), of x] by (simp_all add: n_def x_def new_node_def)
  have si: "security_ok si"
    using SetDescriptor_ok [OF assms(6) security_ok_no_security] .
  have size: "unat (descriptor_size si) = length (descriptor si)"
    using si by (simp add: security_ok_def)
  have get: "wpf (GetDescriptor E si) Q F s' = Q (Some (descriptor si)) s'" for Q F s'
    using assms(7) by (simp add: GetDescriptor_nonempty [OF si] wp_simps)
  have "\<not> bad_handle (Context s)" using assms(2) by (simp add: bad_handle_def live_def)
  then have "wpf (MirrorSetFileSecurity E fn info m) Q F s = Q STATUS_SUCCESS (s\<lparr>fs := n\<rparr>)" for Q F
    by (simp add: MirrorSetFileSecurity_def first_change_def wp_simps assms with_handle_def
        wpf_cached_default n_def x_def)
  then show ?thesis
    by (simp add: wp_simps MirrorGetFileSecurity_def assms n get wpf_answer_security)
      (simp add: x_def new_node_def get wpf_answer_security wp_simps assms)
qed

theorem set_then_get_security_witness:
  "wpf (bind (MirrorSetFileSecurity sample_system (W ''x'') 4 (replicate 20 1)) (\<lambda>st.
         bind (MirrorGetFileSecurity sample_system (W ''x'') 4 64) (\<lambda>answer. return (st, answer))))
    (\<lambda>(st, answer) s'. st = STATUS_SUCCESS \<and> answer = (STATUS_SUCCESS, Some (replicate 20 1), Some 20))
    (\<lambda>_ _. False) (new_ctx new_Globals\<lparr>Context := 7, SDCached := Some (replicate 20 2)\<rparr>)"
proof -
  have "GetFilePath_at new_Globals (W ''x'') = Ret (W ''x'')"
    by (simp add: GetFilePath_at_eq new_Globals_def mirror_path_def relative_part_def under_unc_def
        W_def c_str_def)
  moreover have "unat (20 :: dword) = 20" by simp
  ultimately show ?thesis
    using set_then_get_security [of "new_ctx new_Globals\<lparr>Context := 7, SDCached := Some (replicate 20 2)\<rparr>"
        "W ''x''" "W ''x''" "replicate 20 2" sample_system 4 "replicate 20 1" "replicate 20 1"
        "\<lparr>strdescriptor = map ucast (replicate 20 (1 :: u8)), descriptor = replicate 20 1,
           descriptor_size = 20\<rparr>" 4 "replicate 20 1" 64]
    by (simp add: new_ctx_def sample_system_def live_def findFileNode_def empty_nodes_def
        SetDescriptor_def isSelfRelative_def no_security_def nodes_ok_empty [unfolded empty_nodes_def])
qed

text \<open>
  Whether \<open>MirrorSetFileSecurity\<close> changes the descriptor of a file that has a node is decided by a
  value that was never written. When the uninitialised \<open>stat\<close> is not zero the change is refused with
  an error and the nodes stay as they are, even when \<open>SetPrivateObjectSecurity\<close> succeeded; when it is
  zero, the request succeeds even when that call failed, and the node then keeps its old descriptor.
\<close>

theorem set_security_decided_by_garbage:
  assumes "GetFilePath_at (globals s) fn = Ret path" and "live (Context s)"
    and "findFileNode (fs s) fn = Some p" and "mount_ok (fs s)"
    and "descriptor_size (security (store (fs s) p)) \<noteq> 0"
  shows "wpf (MirrorSetFileSecurity E fn info m)
    (\<lambda>status s'.
       let si = security (store (fs s) p);
           d = (case sec_SetPrivate E info m (Some (descriptor si)) of
                  None \<Rightarrow> descriptor si | Some x \<Rightarrow> x) in
       if garbage32 E (trace s) \<noteq> 0
       then status = dokan_NtStatusFromWin32 E (last_error E (trace s)) \<and> s' = s
       else status = STATUS_SUCCESS \<and>
         (\<exists>si'. SetDescriptor E (Some d) si = Ret si' \<and> fs s' = set_security p si' (fs s)))
    (\<lambda>_ _. garbage32 E (trace s) = 0) s"
proof -
  have si: "security_ok (security (store (fs s) p))"
    using assms(4) by (simp add: mount_ok_def nodes_ok_def)
  have "\<not> bad_handle (Context s)" using assms(2) by (simp add: bad_handle_def live_def)
  then show ?thesis
    using assms(5)
    by (simp add: MirrorSetFileSecurity_def change_node_def wp_simps assms(1,3) Let_def
        GetDescriptor_nonempty [OF si] split: outcome.split)
qed

theorem set_security_decided_by_garbage_witness:
  "wpf (MirrorSetFileSecurity (sample_system\<lparr>os_garbage := \<lambda>t n. 1\<rparr>) (W ''a'') 4 [])
    (\<lambda>status s'. status = 0xC0000005 \<and> fs s' = sample_nodes) (\<lambda>_ _. False)
    (new_ctx new_Globals\<lparr>Context := 7, fs := sample_nodes\<rparr>)"
proof -
  let ?E = "sample_system\<lparr>os_garbage := \<lambda>t n. 1\<rparr>"
  let ?s = "new_ctx new_Globals\<lparr>Context := 7, fs := sample_nodes\<rparr>"
  have path: "GetFilePath_at (globals ?s) (W ''a'') = Ret (W ''a'')"
    by (simp add: GetFilePath_at_eq new_Globals_def mirror_path_def relative_part_def under_unc_def
        W_def c_str_def new_ctx_def)
  have "mount_ok sample_nodes"
    by (auto simp: mount_ok_def counts_ok_def sample_nodes_def make_shared_def empty_nodes_def
        addFileNode_def nodes_ok_def findFileNode_def security_ok_def new_node_def no_security_def)
  moreover have "findFileNode sample_nodes (W ''a'') = Some 0"
    "descriptor_size (security (store sample_nodes 0)) = 4"
    by (simp_all add: sample_nodes_def make_shared_def empty_nodes_def addFileNode_def
        findFileNode_def node_name_def)
  moreover have "garbage32 ?E (trace ?s) \<noteq> 0" by (simp add: garbage32_def)
  moreover have "dokan_NtStatusFromWin32 ?E (last_error ?E (trace ?s)) = 0xC0000005"
    by (simp add: sample_system_def new_ctx_def)
  ultimately have "wpf (MirrorSetFileSecurity ?E (W ''a'') 4 [])
      (\<lambda>status s'. status = 0xC0000005 \<and> s' = ?s) (\<lambda>_ _. False) ?s"
    using set_security_decided_by_garbage [of ?s "W ''a''" "W ''a''" 0 ?E 4 "[]", OF path]
    by (simp add: live_def new_ctx_def)
  then show ?thesis by (rule wpf_mono) (simp_all add: new_ctx_def)
qed

subsection \<open>The default descriptor\<close>

text \<open>
  The default descriptor is built once. After a call that gave a descriptor, the next one gives
  the same descriptor, with success and without any system call.
\<close>

theorem default_descriptor_once:
  "wpf (bind (CreateDefaultSelfRelativeSD E) (\<lambda>r.
        bind (gets trace) (\<lambda>t.
        bind (CreateDefaultSelfRelativeSD E) (\<lambda>r'. return (r, t, r')))))
    (\<lambda>((st, sdo), t, (st', sdo')) s'.
       sdo = None \<or> st = ERROR_SUCCESS \<and> st' = ERROR_SUCCESS \<and> sdo' = sdo \<and> trace s' = t)
    (\<lambda>_ _. True) s"
proof -
  have first: "wpf (CreateDefaultSelfRelativeSD E)
      (\<lambda>(st, sdo) s'. sdo = None \<or> st = ERROR_SUCCESS \<and> SDCached s' = sdo) (\<lambda>_ _. True) s"
  proof (cases "SDCached s")
    case None
    have any: "wpf (GetNotElevatedSIDS E) (\<lambda>_ _. True) (\<lambda>_ _. True) s"
      by (simp add: wpf_def split: prod.split outcome.split)
    show ?thesis
      unfolding CreateDefaultSelfRelativeSD_def wpf_bind wpf_gets None option.case
      by (rule wpf_mono [OF any]) (auto simp: wp_simps Let_def split: option.split prod.split)
  qed (simp add: CreateDefaultSelfRelativeSD_def wp_simps)
  have again: "wpf (bind (gets trace) (\<lambda>t.
        bind (CreateDefaultSelfRelativeSD E) (\<lambda>r'. return ((st, sdo), t, r'))))
      (\<lambda>((st, sdo), t, (st', sdo')) s'.
         sdo = None \<or> st = ERROR_SUCCESS \<and> st' = ERROR_SUCCESS \<and> sdo' = sdo \<and> trace s' = t)
      (\<lambda>_ _. True) s1"
    if "sdo = None \<or> st = ERROR_SUCCESS \<and> SDCached s1 = sdo" for st sdo s1
  proof (cases sdo)
    case None
    then show ?thesis
      by (auto simp: wpf_def split: prod.split outcome.split)
        (auto simp: bind_def gets_def return_def split: prod.splits outcome.splits)
  next
    case (Some d)
    then have "SDCached s1 = Some d" "st = ERROR_SUCCESS" using that by auto
    then show ?thesis using Some by (simp add: wpf_bind wpf_gets wpf_return wpf_cached_default)
  qed
  show ?thesis
    unfolding wpf_bind [of "CreateDefaultSelfRelativeSD E" _ _ _ s]
    by (rule wpf_mono [OF first]) (auto intro: again)
qed

text \<open>The handles left by building it: none, or one token whose user could not be read.\<close>

definition token_account :: "('a) secos_scheme \<Rightarrow> hist \<Rightarrow> hist \<Rightarrow> bool" where
  "token_account E t t' \<longleftrightarrow>
     (\<exists>leak. (leak = 0 \<or> (\<exists>u. sec_TokenUser E u leak = None)) \<and>
        (\<forall>x. net_search t' x = net_search t x \<and>
           net_open t' x = net_open t x + of_bool (live leak \<and> x = leak)))"

lemma token_account_balanced:
  "\<forall>x. net_search t' x = net_search t x \<and> net_open t' x = net_open t x \<Longrightarrow> token_account E t t'"
  unfolding token_account_def by (rule exI [of _ 0]) (simp add: live_def)

lemma token_account_leak:
  "sec_TokenUser E u leak = None \<Longrightarrow>
    \<forall>x. net_search t' x = net_search t x \<and>
      net_open t' x = net_open t x + of_bool (live leak \<and> x = leak) \<Longrightarrow> token_account E t t'"
  unfolding token_account_def by blast

lemma open_linked_token_handles:
  "wpf (open_linked_token E)
    (\<lambda>r s'. \<forall>x. net_search (trace s') x = net_search (trace s) x \<and> net_open (trace s') x =
       net_open (trace s) x + of_bool (fst r = 0 \<and> live (snd r) \<and> x = snd r)) (\<lambda>_ _. True) s"
  by (simp add: open_linked_token_def BOOL_TO_ERROR_def wp_simps sys_defs live_def split: option.split)

lemma GetNotElevatedSIDS_handles:
  "wpf (GetNotElevatedSIDS E) (\<lambda>_ s'. token_account E (trace s) (trace s')) (\<lambda>_ _. True) s"
proof -
  have rest: "wpf (if err \<noteq> 0 then return (err, None, None)
      else bind (syscall (\<lambda>t. sec_TokenUser E t tok) (\<lambda>_. SecurityCall)) (\<lambda>user.
        case user of
          None \<Rightarrow> bind (GetLastError E) (\<lambda>err. return (err, None, None))
        | Some owner \<Rightarrow>
            bind (syscall (\<lambda>t. sec_TokenGroup E t tok) (\<lambda>_. SecurityCall)) (\<lambda>grp.
            bind (or_fault NullPointer grp) (\<lambda>group.
            bind (CloseHandle tok) (\<lambda>_. return (0, Some owner, Some group))))))
      (\<lambda>_ s'. token_account E (trace s) (trace s')) (\<lambda>_ _. True) s1"
    if s1: "\<forall>x. net_search (trace s1) x = net_search (trace s) x \<and> net_open (trace s1) x =
      net_open (trace s) x + of_bool (err = 0 \<and> live tok \<and> x = tok)" for err tok s1
    using s1
    by (simp add: wp_simps sys_defs split: option.split)
      (auto intro: token_account_balanced token_account_leak)
  show ?thesis
    unfolding GetNotElevatedSIDS_def wpf_bind [of "open_linked_token E"]
    by (rule wpf_mono [OF open_linked_token_handles])
      (simp_all only: split_paired_all prod.case fst_conv snd_conv, erule rest)
qed

text \<open>
  Building the default descriptor closes the tokens it opens, with one exception: when the user
  of the linked token cannot be read, that token stays open.
\<close>

theorem default_descriptor_tokens:
  "wpf (CreateDefaultSelfRelativeSD E)
    (\<lambda>_ s'. \<exists>leak. (leak = 0 \<or> (\<exists>t. sec_TokenUser E t leak = None)) \<and>
       (\<forall>x. net_search (trace s') x = net_search (trace s) x \<and>
          net_open (trace s') x = net_open (trace s) x + of_bool (live leak \<and> x = leak)))
    (\<lambda>_ _. True) s"
proof (fold token_account_def, cases "SDCached s")
  case None
  show "wpf (CreateDefaultSelfRelativeSD E) (\<lambda>_ s'. token_account E (trace s) (trace s')) (\<lambda>_ _. True) s"
    unfolding CreateDefaultSelfRelativeSD_def wpf_bind wpf_gets None option.case
    by (rule wpf_mono [OF GetNotElevatedSIDS_handles])
      (auto simp: wp_simps Let_def split: option.split prod.split)
qed (simp add: CreateDefaultSelfRelativeSD_def wp_simps token_account_balanced)

end
