(* ===== verification/Dispatch.thy ===== *)
theory Dispatch
  imports FileOpen FileMeta FileSecurity
begin

text \<open>
  The mount as a whole: the table of operations that \<open>FileMount::mount\<close> hands to the Dokan library
  (seamless_smb_lib/filemount.cpp) as one function of the request, and the runs of a mount as a step
  relation: the driver sends requests in any order, with any \<open>DOKAN_FILE_INFO\<close>, and the change
  thread runs in between. The lemmas collect, over all operations, what each handler theory shows of
  its own, and lift it to every reachable state.
\<close>

datatype request =
    ZwCreateFile wstr dword dword dword dword dword
  | Cleanup wstr
  | CloseFile wstr
  | Read wstr dword ulong64
  | Write wstr "u8 list" dword ulong64
  | FlushFileBuffers wstr
  | GetFileInformation wstr by_handle_info
  | FindFiles wstr
  | SetFileAttributes wstr dword
  | SetFileTime wstr "ulong64 option" "ulong64 option" "ulong64 option"
  | RemoveFile wstr
  | RemoveDirectory wstr
  | MoveFile wstr wstr bool
  | SetEndOfFile wstr ulong64
  | SetAllocationSize wstr ulong64
  | LockFile wstr ulong64 ulong64
  | UnlockFile wstr ulong64 ulong64
  | GetFileSecurity wstr dword dword
  | SetFileSecurity wstr dword sd
  | GetDiskFreeSpace
  | GetVolumeInformation dword dword "bool \<times> bool \<times> bool"
  | Unmounted
  | FindStreams wstr
  | Mounted

definition ignore :: "'a handler \<Rightarrow> unit handler" where
  "ignore m = bind m (\<lambda>_. return ())"

fun dispatch :: "('a) secos_scheme \<Rightarrow> request \<Rightarrow> unit handler" where
  "dispatch E (ZwCreateFile f a att sh d opt) = ignore (MirrorCreateFile E f a att sh d opt)"
| "dispatch E (Cleanup f) = MirrorCleanup E f"
| "dispatch E (CloseFile f) = MirrorCloseFile E f"
| "dispatch E (Read f n off) = ignore (MirrorReadFile E f n off)"
| "dispatch E (Write f bs n off) = ignore (MirrorWriteFile E f bs n off)"
| "dispatch E (FlushFileBuffers f) = ignore (MirrorFlushFileBuffers E f)"
| "dispatch E (GetFileInformation f i) = ignore (MirrorGetFileInformation E f i)"
| "dispatch E (FindFiles f) = ignore (MirrorFindFiles E f)"
| "dispatch E (SetFileAttributes f a) = ignore (MirrorSetFileAttributes E f a)"
| "dispatch E (SetFileTime f c a w) = ignore (MirrorSetFileTime E f c a w)"
| "dispatch E (RemoveFile f) = ignore (MirrorDeleteFile E f)"
| "dispatch E (RemoveDirectory f) = ignore (DeleteDirectory E f)"
| "dispatch E (MoveFile f f' r) = ignore (MirrorMoveFile E f f' r)"
| "dispatch E (SetEndOfFile f off) = ignore (MirrorSetEndOfFile E f off)"
| "dispatch E (SetAllocationSize f n) = ignore (MirrorSetAllocationSize E f n)"
| "dispatch E (LockFile f off n) = ignore (MirrorLockFile E f off n)"
| "dispatch E (UnlockFile f off n) = ignore (MirrorUnlockFile E f off n)"
| "dispatch E (GetFileSecurity f i n) = ignore (MirrorGetFileSecurity E f i n)"
| "dispatch E (SetFileSecurity f i d) = ignore (MirrorSetFileSecurity E f i d)"
| "dispatch E GetDiskFreeSpace = ignore (MirrorDokanGetDiskFreeSpace E)"
| "dispatch E (GetVolumeInformation n m w) = ignore (MirrorGetVolumeInformation E n m w)"
| "dispatch E Unmounted = ignore MirrorUnmounted"
| "dispatch E (FindStreams f) = ignore (MirrorFindStreams E f)"
| "dispatch E Mounted = ignore MirrorMounted"

subsection \<open>The handlers of theory FileOpen\<close>

lemma create_event_confined: "create_event E g fn flags e \<Longrightarrow> confined g e"
  by (cases "(E, g, fn, flags, e)" rule: create_event.cases) auto

lemma preserves_adds_mono:
  assumes "\<And>e. P e \<Longrightarrow> P' e" and "\<And>t. preserves (adds P g t) m"
  shows "preserves (adds P' g t) m"
proof -
  have "adds P' g t (snd (m s))" if start: "adds P' g t s" for s
  proof -
    obtain old where old: "trace s = old @ t" "list_all P' old" and g: "globals s = g"
      using start by (auto simp: adds_def)
    have "adds P g (trace s) s" using g by (simp add: adds_def)
    then have "adds P g (trace s) (snd (m s))" by (rule preservesD [OF assms(2)])
    then obtain new where new: "trace (snd (m s)) = new @ trace s" "list_all P new"
      "globals (snd (m s)) = g"
      by (auto simp: adds_def)
    have "list_all P' new" using new(2) assms(1) by (auto simp: list_all_iff)
    then show ?thesis using old new by (simp add: adds_def)
  qed
  then show ?thesis by (simp add: preserves_def)
qed

lemma open_confined:
  "preserves (adds (confined g) g t) (MirrorCreateFile E fn access attrs share disp opts)"
  "preserves (adds (confined g) g t) (MirrorCleanup E fn)"
  "preserves (adds (confined g) g t) (MirrorCloseFile E fn)"
proof -
  show "preserves (adds (confined g) g t) (MirrorCreateFile E fn access attrs share disp opts)"
    by (rule preserves_adds_mono [OF create_event_confined MirrorCreateFile_adds])
qed (unfold MirrorCleanup_def MirrorCloseFile_def, (intro adds_intros; simp)+)

lemma make_add_ok:
  assumes "mount_ok n" "security_ok (security x)"
  shows "mount_ok (snd (make_shared x n))"
    and "mount_ok (snd (addFileNode (Some (next_ptr n)) (snd (make_shared x n))))"
  using assms nodes_ok_make_shared [of n x]
  by (simp_all add: mount_ok_def counts_ok_nodes)
    (rule nodes_ok_addFileNode, simp_all add: make_shared_def)

lemma mount_ok_counts:
  "mount_ok n \<Longrightarrow> mount_ok (insert_writeCount h n)" "mount_ok n \<Longrightarrow> mount_ok (erase_writeCount h n)"
  by (auto simp: mount_ok_def counts_ok_def nodes_ok_def insert_writeCount_def erase_writeCount_def
      split: option.split)

text \<open>
  An invariant of the nodes that a new node of the opened name does not break, made or also added, is
  kept by the phases of an opening.
\<close>

lemma phases_keep:
  assumes "\<And>n x. N n \<Longrightarrow> security_ok (security x) \<Longrightarrow> fileName x = fn \<Longrightarrow>
      N (snd (make_shared x n)) \<and> N (snd (addFileNode (Some (next_ptr n)) (snd (make_shared x n))))"
  shows "preserves (fs_inv N)
    (create_phases E g fn path attrs opts fileAttr flags secAttr tok isDir)"
proof -
  have made: "N (snd (make_shared (new_node fn dir attrs\<lparr>security := si\<rparr>) n)) \<and>
      N (snd (addFileNode (Some (next_ptr n)) (snd (make_shared (new_node fn dir attrs\<lparr>security := si\<rparr>) n))))"
    if "N n" and "SetDescriptor E d no_security = Ret si" for n dir d si
    using assms [OF that(1), of "new_node fn dir attrs\<lparr>security := si\<rparr>"]
      SetDescriptor_ok [OF that(2) security_ok_no_security] by (simp add: new_node_def)
  have create: "preserves (fs_inv N) (create_directory_phase E g fn path attrs cd secAttr tok)" for cd
    by (rule preserves_by_wpf)
      (auto simp: create_directory_phase_def wp_simps sys_defs fs_inv_def made split: outcome.split)
  have open_dir: "preserves (fs_inv N)
      (open_directory_phase E g path fileAttr opts ga fl cd d tok)" for ga fl cd d
    by (rule preserves_by_wpf) (simp add: open_directory_phase_def wp_simps sys_defs fs_inv_def)
  have open_file: "preserves (fs_inv N)
      (file_phase E g fn path attrs fileAttr ga fl cd secAttr tok)" for ga fl cd
    by (rule preserves_by_wpf)
      (auto simp: file_phase_def wp_simps sys_defs fs_inv_def Let_def made split: outcome.split)
  show ?thesis
    unfolding create_phases_def by (intro fs_inv_intros create open_dir open_file)
qed

lemma phases_nodes:
  "preserves (fs_inv mount_ok)
    (create_phases E g fn path attrs opts fileAttr flags secAttr tok isDir)"
  by (rule phases_keep) (simp add: make_add_ok)

lemma open_nodes:
  "preserves (fs_inv mount_ok) (MirrorCreateFile E fn access attrs share disp opts)"
  "preserves (fs_inv mount_ok) (MirrorCleanup E fn)"
  "preserves (fs_inv mount_ok) (MirrorCloseFile E fn)"
proof -
  have counts: "preserves (fs_inv mount_ok) (modify (\<lambda>s. s\<lparr>fs := insert_writeCount h (fs s)\<rparr>))"
    "preserves (fs_inv mount_ok) (modify (\<lambda>s. s\<lparr>fs := erase_writeCount h (fs s)\<rparr>))" for h
    by (rule preserves_modify; simp add: fs_inv_def mount_ok_counts)+
  show "preserves (fs_inv mount_ok) (MirrorCreateFile E fn access attrs share disp opts)"
    "preserves (fs_inv mount_ok) (MirrorCleanup E fn)"
    "preserves (fs_inv mount_ok) (MirrorCloseFile E fn)"
    unfolding MirrorCreateFile_def MirrorCleanup_def MirrorCloseFile_def finish_create_def
      open_token_def Let_def
    by (intro counts phases_nodes fs_inv_intros; simp)+
qed

subsection \<open>Invariants of the nodes without the counters\<close>

text \<open>What does not look at the write counters is kept by every handler that changes nothing else.\<close>

locale counter_free =
  fixes N :: "nodes \<Rightarrow> bool"
  assumes counter_free: "N (n\<lparr>writeCounts := w\<rparr>) \<longleftrightarrow> N n"
begin

lemma count_steps:
  "preserves (fs_inv N) (count_write E h)"
  "preserves (fs_inv N) (modify (\<lambda>s. s\<lparr>fs := insert_writeCount h (fs s)\<rparr>))"
  "preserves (fs_inv N) (modify (\<lambda>s. s\<lparr>fs := erase_writeCount h (fs s)\<rparr>))"
  by (rule preserves_by_wpf; simp add: count_write_def insert_writeCount_def erase_writeCount_def wp_simps
      sys_defs fs_inv_def counter_free split: option.split)+

lemma data_kept:
  "preserves (fs_inv N) (MirrorReadFile E fn len off)"
  "preserves (fs_inv N) (MirrorWriteFile E fn buf len off)"
  "preserves (fs_inv N) (MirrorFlushFileBuffers E fn)"
  "preserves (fs_inv N) (MirrorSetEndOfFile E fn off)"
  "preserves (fs_inv N) (MirrorSetAllocationSize E fn off)"
  "preserves (fs_inv N) (MirrorLockFile E fn off n)"
  "preserves (fs_inv N) (MirrorUnlockFile E fn off n)"
  "preserves (fs_inv N) (MirrorSetFileTime E fn tc ta tw)"
  unfolding data_handlers current_or_reopen_def reopen_def status_of_def with_handle_def
    fill_cache_def uncached_read_def seek_for_write_def write_at_def Let_def
  by (intro fs_inv_intros read_block_frame count_steps; simp)+

lemma meta_kept:
  "preserves (fs_inv N) (MirrorGetFileInformation E fn info)"
  "preserves (fs_inv N) (MirrorFindFiles E fn)"
  "preserves (fs_inv N) (MirrorFindStreams E fn)"
  "preserves (fs_inv N) (MirrorSetFileAttributes E fn a)"
  "preserves (fs_inv N) (MirrorGetVolumeInformation E vn fsn wants)"
  "preserves (fs_inv N) (MirrorDokanGetDiskFreeSpace E)"
  "preserves (fs_inv N) (MirrorGetFileSecurity E' fn i len)"
  unfolding meta_handlers meta_steps security_handlers answer_security_def with_handle_def Let_def
  by (intro fs_inv_intros fs_inv_fill fs_inv_default GetDescriptor_fs; simp)+

lemma closing_kept:
  "preserves (fs_inv N) (MirrorCleanup E fn)" "preserves (fs_inv N) (MirrorCloseFile E fn)"
  unfolding MirrorCleanup_def MirrorCloseFile_def
  by (intro count_steps fs_inv_intros; simp)+

lemma finish_kept: "preserves (fs_inv N) (finish_create a r)"
  unfolding finish_create_def by (intro count_steps fs_inv_intros; simp)

lemma ignored_kept: "preserves (fs_inv N) m \<Longrightarrow> preserves (fs_inv N) (ignore m)"
  unfolding ignore_def by (intro fs_inv_intros)

lemmas kept = ignored_kept data_kept meta_kept closing_kept

end

text \<open>With a law for new nodes of a name, also by the handler that opens that name.\<close>

locale growing = counter_free +
  fixes fn :: wstr
  assumes grow: "N n \<Longrightarrow> security_ok (security x) \<Longrightarrow> fileName x = fn \<Longrightarrow>
      N (snd (make_shared x n)) \<and> N (snd (addFileNode (Some (next_ptr n)) (snd (make_shared x n))))"
begin

lemma create_kept: "preserves (fs_inv N) (MirrorCreateFile E fn access attrs share disp opts)"
  unfolding MirrorCreateFile_def open_token_def Let_def
  by (intro finish_kept phases_keep grow fs_inv_intros; simp)

end

subsection \<open>Every request\<close>

lemma dispatch_confined: "preserves (adds (confined g) g t) (dispatch E r)"
  by (cases r) (auto simp: ignore_def MirrorMounted_def MirrorUnmounted_def
      intro!: preserves_intros open_confined data_confined meta_confined security_confined)

lemma dispatch_nodes: "preserves (fs_inv mount_ok) (dispatch E r)"
  by (cases r) (auto simp: ignore_def MirrorMounted_def MirrorUnmounted_def
      intro!: preserves_intros open_nodes data_nodes meta_nodes security_nodes)

subsection \<open>Handles of the requests that open nothing\<close>

text \<open>The requests that manage the open file, and those that may build the default descriptor.\<close>

fun manages_handles :: "request \<Rightarrow> bool" where
  "manages_handles (ZwCreateFile f a att sh d opt) = True"
| "manages_handles (Cleanup f) = True"
| "manages_handles (CloseFile f) = True"
| "manages_handles (GetFileSecurity f i n) = True"
| "manages_handles (SetFileSecurity f i d) = True"
| "manages_handles r = False"

lemma keeps_handles_ignore: "keeps_handles m \<Longrightarrow> keeps_handles (ignore m)"
  unfolding keeps_handles_def ignore_def wpf_bind
  by (intro allI, erule allE, erule wpf_mono) (simp_all add: wpf_return)

lemma keeps_handles_mounted: "keeps_handles MirrorMounted" "keeps_handles MirrorUnmounted"
  by (simp_all add: keeps_handles_def MirrorMounted_def MirrorUnmounted_def wp_simps)

text \<open>
  C8: No request leaks a handle. Every operation of the table other than create, cleanup, close and
  the two security requests leaves each handle and each search open exactly as often as before, on
  every return path and whatever the system answers: what it reopened or searched, it closes.
\<close>

theorem dispatch_keeps_handles:
  assumes "\<not> manages_handles r"
  shows "wpf (dispatch E r) (\<lambda>_ s'. balanced (trace s) (trace s')) (\<lambda>_ _. True) s"
proof -
  have "keeps_handles (dispatch E r)"
    using assms by (cases r)
      (auto intro!: keeps_handles_ignore data_handles meta_handles keeps_handles_mounted)
  then show ?thesis by (simp add: keeps_handles_def)
qed

theorem dispatch_keeps_handles_witness:
  "wpf (dispatch sample_system (Read (W ''x'') 16 0)) (\<lambda>_ s'. balanced [] (trace s')) (\<lambda>_ _. True)
    (new_ctx new_Globals)"
  using dispatch_keeps_handles [of "Read (W ''x'') 16 0" sample_system "new_ctx new_Globals"]
  by (simp add: new_ctx_def del: dispatch.simps)

subsection \<open>Runs of a mount\<close>

record dokan_file_info =
  fi_SecurityDescriptor :: "sd option"
  fi_Context :: handle
  fi_IsDirectory :: bool
  fi_DeleteOnClose :: bool
  fi_PagingIo :: bool
  fi_WriteToEndOfFile :: bool
  fi_ProcessId :: dword

definition load_info :: "dokan_file_info \<Rightarrow> ctx \<Rightarrow> ctx" where
  "load_info i s = s\<lparr>SecurityDescriptor := fi_SecurityDescriptor i, Context := fi_Context i,
     IsDirectory := fi_IsDirectory i, DeleteOnClose := fi_DeleteOnClose i,
     PagingIo := fi_PagingIo i, WriteToEndOfFile := fi_WriteToEndOfFile i,
     ProcessId := fi_ProcessId i\<rparr>"

inductive reachable :: "secos \<Rightarrow> globals \<Rightarrow> ctx \<Rightarrow> bool" for E g where
  start: "mount_ok n \<Longrightarrow> reachable E g (new_ctx g\<lparr>fs := n\<rparr>)"
| request: "reachable E g s \<Longrightarrow> dispatch E r (load_info i s) = (Ret (), s') \<Longrightarrow> reachable E g s'"
| change: "reachable E g s \<Longrightarrow>
    reachable E g (s\<lparr>cache := MonitorDirectoryChanges ws (cache s)\<rparr>)"

inductive_cases reachableE: "reachable E g s"

lemma load_info_frame [simp]:
  "trace (load_info i s) = trace s" "globals (load_info i s) = globals s"
  "fs (load_info i s) = fs s" "cache (load_info i s) = cache s"
  by (simp_all add: load_info_def)

lemma reachable_invariant:
  "reachable E g s \<Longrightarrow> mount_ok (fs s) \<and> globals s = g \<and> list_all (confined g) (trace s)"
proof (induction rule: reachable.induct)
  case (start n)
  then show ?case by (simp add: new_ctx_def)
next
  case (request s r i s')
  let ?s = "load_info i s"
  have "adds (confined g) g (trace s) ?s" using request.IH by (simp add: adds_def)
  then have "adds (confined g) g (trace s) (snd (dispatch E r ?s))"
    by (rule preservesD [OF dispatch_confined])
  moreover have "fs_inv mount_ok (snd (dispatch E r ?s))"
    by (rule preservesD [OF dispatch_nodes]) (simp add: fs_inv_def request.IH)
  ultimately show ?case
    using request.IH request.hyps by (auto simp: adds_def fs_inv_def)
next
  case (change s ws)
  then show ?case by simp
qed

text \<open>
  C1: A mount never leaves its directory. In every reachable state, every path the mount has ever
  named to the system (opened, searched, queried, changed, deleted) starts with its root directory, except
  for the drive of the two volume queries and the names of streams in a rename.
\<close>

theorem mount_confined:
  assumes "reachable E g s"
  shows "list_all (confined g) (trace s)"
  using reachable_invariant [OF assms] by simp

text \<open>
  C2: The mount's tables stay well formed. In every reachable state no node is listed twice, every
  listed node exists, every stored descriptor has exactly its stated length, and no write counter is
  above five.
\<close>

theorem mount_tables_ok:
  assumes "reachable E g s"
  shows "distinct (filenodes (fs s)) \<and> list_all (\<lambda>p. p < next_ptr (fs s)) (filenodes (fs s)) \<and>
    (\<forall>p. length (descriptor (security (store (fs s) p))) =
       unat (descriptor_size (security (store (fs s) p)))) \<and>
    (\<forall>h. unat (writeCount (fs s) h) \<le> 5)"
proof -
  have ok: "nodes_ok (fs s)" "counts_ok (fs s)"
    using reachable_invariant [OF assms] by (simp_all add: mount_ok_def)
  have "unat (writeCount (fs s) h) \<le> 5" for h
    using ok(2) by (auto simp: counts_ok_def writeCount_def word_le_nat_alt split: option.split)
  then show ?thesis
    using ok(1) by (simp add: nodes_ok_def list_all_iff security_ok_def)
qed

text \<open>One request on the sample system, for the witnesses.\<close>

definition sample_info :: dokan_file_info where
  "sample_info = \<lparr>fi_SecurityDescriptor = None, fi_Context = 7, fi_IsDirectory = False,
     fi_DeleteOnClose = True, fi_PagingIo = False, fi_WriteToEndOfFile = False, fi_ProcessId = 1\<rparr>"

definition sample_globals :: globals where
  "sample_globals = Globals_of (W ''C:'') (W ''M:'') []"

definition sample_state :: ctx where
  "sample_state = snd (dispatch sample_system (Cleanup (W ''x'')) (load_info sample_info (new_ctx sample_globals)))"

lemma sample_cleanup:
  "wpf (MirrorCleanup sample_system (W ''x''))
    (\<lambda>a s'. a = () \<and> trace s' = [OnPath DeleteFileCall (W ''C:x''), Closed 7]) (\<lambda>_ _. False)
    (load_info sample_info (new_ctx sample_globals))"
  by (simp add: MirrorCleanup_def wp_simps sys_defs GetFilePath_at_eq new_ctx_def sample_globals_def
      Globals_of_def new_Globals_def mirror_path_def relative_part_def under_unc_def W_def c_str_def
      load_info_def sample_info_def)

lemma sample_reachable: "reachable sample_system sample_globals sample_state"
proof (rule reachable.request)
  show "reachable sample_system sample_globals (new_ctx sample_globals)"
    using reachable.start [OF mount_ok_empty, of sample_system sample_globals]
    by (simp add: new_ctx_def)
  show "dispatch sample_system (Cleanup (W ''x'')) (load_info sample_info (new_ctx sample_globals)) =
      (Ret (), sample_state)"
    using sample_cleanup
    by (auto simp: sample_state_def wpf_def split: prod.splits outcome.splits)
qed

lemma sample_trace: "trace sample_state = [OnPath DeleteFileCall (W ''C:x''), Closed 7]"
  using sample_cleanup by (auto simp: sample_state_def wpf_def split: prod.splits outcome.splits)

theorem mount_confined_witness:
  "list_all (confined sample_globals) [OnPath DeleteFileCall (W ''C:x''), Closed 7]"
  using mount_confined [OF sample_reachable] by (simp only: sample_trace)

theorem mount_tables_ok_witness: "\<forall>h. unat (writeCount (fs sample_state) h) \<le> 5"
  using mount_tables_ok [OF sample_reachable] by simp

end
