(* ===== verification/Sessions.thy ===== *)
theory Sessions
  imports Dispatch
begin

text \<open>
  The open files of a mount over its whole life. Between opening and closing a name the driver keeps one
  \<open>DOKAN_FILE_INFO\<close>, whose \<open>Context\<close> the handlers use for the handle: a session. Sessions of many files are
  interleaved in any order; the driver is documented to clean a session up before it closes it, and
  to forget one whose opening failed. The invariant is an exact account of the handles.
\<close>

subsection \<open>Handlers that leave \<open>Context\<close> alone\<close>

definition context_is :: "handle \<Rightarrow> ctx \<Rightarrow> bool" where
  "context_is h s \<longleftrightarrow> Context s = h"

lemma context_modify: "(\<And>s. Context (f s) = Context s) \<Longrightarrow> preserves (context_is h) (modify f)"
  by (intro preserves_modify) (simp add: context_is_def)

lemma context_syscall: "preserves (context_is h) (syscall f ev)"
  by (intro preserves_syscall) (simp add: context_is_def)

lemma context_system:
  "preserves (context_is h) (open_handle E c)" "preserves (context_is h) (CreateFile E p a sh sec d fl)"
  "preserves (context_is h) (CloseHandle k)" "preserves (context_is h) (close_if b k)"
  "preserves (context_is h) (on_path E pc p)" "preserves (context_is h) (GetFileAttributes E p)"
  "preserves (context_is h) (on_handle E hc k)"
  "preserves (context_is h) (on_handle_out E hc k (v :: hist \<Rightarrow> 'v))"
  "preserves (context_is h) (FindFirstFile E p)" "preserves (context_is h) (FindFirstStream E p)"
  "preserves (context_is h) (FindClose k)" "preserves (context_is h) (SetLastError e)"
  "preserves (context_is h) (FillFindData fd)" "preserves (context_is h) (FillFindStreamData E fd)"
  "preserves (context_is h) (ReadFile E k n off)" "preserves (context_is h) (WriteFile E k bs)"
  "preserves (context_is h) (SetFilePointerEx E k dist m)"
  "preserves (context_is h) (SetFilePointer E k dist m)"
  "preserves (context_is h) (GetFileSize E k)" "preserves (context_is h) (GetFileSizeEx E k)"
  "preserves (context_is h) (GetLastError E)"
  by (auto simp: sys_defs close_if_def intro!: preserves_intros context_syscall)

lemma context_shared:
  "preserves (context_is h) (last_status E)" "preserves (context_is h) (GetFilePath fn)"
  "preserves (context_is h) (find_node fn)" "preserves (context_is h) (add_node p)"
  "preserves (context_is h) (delete_node fn)" "preserves (context_is h) (rename_node fn fn')"
  "preserves (context_is h) (make_node E' fn dir attrs d)"
  by (rule preserves_by_wpf; simp add: wp_simps context_is_def split: outcome.split)+

lemmas context_intros = preserves_intros context_modify context_system context_shared context_syscall

lemma context_fill:
  "preserves (context_is h) (fill_entries r ds)" "preserves (context_is h) (fill_streams E ds)"
  by (induction ds) (simp_all add: context_intros)

lemma context_default: "preserves (context_is h) (CreateDefaultSelfRelativeSD E)"
  unfolding CreateDefaultSelfRelativeSD_def GetNotElevatedSIDS_def open_linked_token_def
    BOOL_TO_ERROR_def Let_def
  by (intro context_intros; simp)

lemma context_ignore: "preserves (context_is h) m \<Longrightarrow> preserves (context_is h) (ignore m)"
  unfolding ignore_def by (intro preserves_intros)

lemma data_context:
  "preserves (context_is h) (MirrorReadFile E fn len off)"
  "preserves (context_is h) (MirrorWriteFile E fn buf len off)"
  "preserves (context_is h) (MirrorFlushFileBuffers E fn)"
  "preserves (context_is h) (MirrorSetEndOfFile E fn off)"
  "preserves (context_is h) (MirrorSetAllocationSize E fn off)"
  "preserves (context_is h) (MirrorLockFile E fn off n)"
  "preserves (context_is h) (MirrorUnlockFile E fn off n)"
  "preserves (context_is h) (MirrorSetFileTime E fn tc ta tw)"
  unfolding data_handlers data_steps read_block_def by (intro context_intros; simp)+

lemma meta_context:
  "preserves (context_is h) (MirrorGetFileInformation E fn info)"
  "preserves (context_is h) (MirrorFindFiles E fn)"
  "preserves (context_is h) (MirrorFindStreams E fn)"
  "preserves (context_is h) (MirrorDeleteFile E fn)"
  "preserves (context_is h) (DeleteDirectory E fn)"
  "preserves (context_is h) (MirrorMoveFile E' fn new b)"
  "preserves (context_is h) (MirrorSetFileAttributes E fn a)"
  "preserves (context_is h) (MirrorGetVolumeInformation E vn fsn wants)"
  "preserves (context_is h) (MirrorDokanGetDiskFreeSpace E)"
  unfolding meta_handlers meta_steps rename_target_def Let_def
  by (intro context_intros context_fill; simp)+

lemma security_context:
  "preserves (context_is h) (MirrorGetFileSecurity E fn info len)"
  "preserves (context_is h) (MirrorSetFileSecurity E fn info m)"
  unfolding security_handlers answer_security_def GetDescriptor_def change_node_def first_change_def
    with_handle_def Let_def
  by (intro context_intros context_default; simp)+

fun changes_context :: "request \<Rightarrow> bool" where
  "changes_context (ZwCreateFile f a att sh d opt) = True"
| "changes_context (Cleanup f) = True"
| "changes_context (CloseFile f) = True"
| "changes_context r = False"

lemma dispatch_context: "\<not> changes_context r \<Longrightarrow> preserves (context_is h) (dispatch E r)"
  by (cases r) (auto simp: MirrorMounted_def MirrorUnmounted_def
      intro!: preserves_intros context_ignore data_context meta_context security_context)

subsection \<open>Security requests and handles\<close>

text \<open>
  When the user of a token can always be read, building the default descriptor closes every token, and
  then the security requests, too, leave every handle as it was.
\<close>

definition tokens_readable :: "('a) secos_scheme \<Rightarrow> bool" where
  "tokens_readable E \<longleftrightarrow> (\<forall>t h. sec_TokenUser E t h \<noteq> None)"

lemma keeps_handles_bind:
  assumes "keeps_handles m" and "\<And>a. keeps_handles (f a)"
  shows "keeps_handles (bind m f)"
  unfolding keeps_handles_def wpf_bind
proof
  fix s :: ctx
  have "wpf (f a) (\<lambda>_ s''. balanced (trace s) (trace s'')) (\<lambda>_ _. True) s'"
    if "balanced (trace s) (trace s')" for a and s' :: ctx
    by (rule wpf_mono [OF assms(2) [unfolded keeps_handles_def, rule_format]])
      (auto intro: balanced_trans [OF that])
  then show "wpf m (\<lambda>a. wpf (f a) (\<lambda>_ s'. balanced (trace s) (trace s')) (\<lambda>_ _. True)) (\<lambda>_ _. True) s"
    by (intro wpf_mono [OF assms(1) [unfolded keeps_handles_def, rule_format]])
qed

lemma keeps_handles_default:
  assumes "tokens_readable E" shows "keeps_handles (CreateDefaultSelfRelativeSD E)"
proof (rule keeps_handlesI)
  fix s :: ctx
  show "wpf (CreateDefaultSelfRelativeSD E)
      (\<lambda>_ s'. \<forall>h. net_open (trace s') h = net_open (trace s) h \<and>
         net_search (trace s') h = net_search (trace s) h) (\<lambda>_ _. True) s"
  proof (rule wpf_mono [OF default_descriptor_tokens])
    fix a and s' :: ctx
    assume "\<exists>leak. (leak = 0 \<or> (\<exists>t. sec_TokenUser E t leak = None)) \<and>
       (\<forall>x. net_search (trace s') x = net_search (trace s) x \<and>
          net_open (trace s') x = net_open (trace s) x + of_bool (live leak \<and> x = leak))"
    then obtain leak where "leak = 0" and same: "\<forall>x. net_search (trace s') x = net_search (trace s) x \<and>
        net_open (trace s') x = net_open (trace s) x + of_bool (live leak \<and> x = leak)"
      using assms unfolding tokens_readable_def by blast
    then show "\<forall>h. net_open (trace s') h = net_open (trace s) h \<and>
        net_search (trace s') h = net_search (trace s) h"
      by (simp add: live_def)
  qed simp
qed

lemma keeps_handles_steps:
  "keeps_handles (return a)" "keeps_handles (fail e)" "keeps_handles (gets f)"
  "keeps_handles (or_fault e v)" "keeps_handles (lift_outcome r)" "keeps_handles (last_status E)"
  "keeps_handles (GetLastError E)" "keeps_handles (GetFilePath fn)" "keeps_handles (find_node fn)"
  "keeps_handles (add_node p)" "keeps_handles (make_node E' fn dir attrs d)"
  by (rule keeps_handlesI; simp add: wp_simps sys_defs split: option.split outcome.split)+

lemma keeps_handles_modify: "(\<And>s. trace (f s) = trace s) \<Longrightarrow> keeps_handles (modify f)"
  by (rule keeps_handlesI) (simp add: wp_simps)

lemma keeps_handles_cases:
  "keeps_handles m \<Longrightarrow> keeps_handles m' \<Longrightarrow> keeps_handles (if b then m else m')"
  "keeps_handles m \<Longrightarrow> (\<And>a. keeps_handles (f a)) \<Longrightarrow>
    keeps_handles (case v of None \<Rightarrow> m | Some a \<Rightarrow> f a)"
  "(\<And>a b. keeps_handles (k a b)) \<Longrightarrow> keeps_handles (case p of (a, b) \<Rightarrow> k a b)"
  by (auto split: option.split prod.split)

lemmas keeps_handles_intros = keeps_handles_bind keeps_handles_steps keeps_handles_modify keeps_handles_cases

lemma security_handles:
  assumes "tokens_readable E"
  shows "keeps_handles (MirrorGetFileSecurity E fn info len)"
    and "keeps_handles (MirrorSetFileSecurity E fn info m)"
  unfolding security_handlers answer_security_def GetDescriptor_def change_node_def first_change_def
    with_handle_def Let_def
  by (intro keeps_handles_intros keeps_handles_default [OF assms]; simp)+

lemma dispatch_handles:
  assumes "tokens_readable E" and "\<not> changes_context r"
  shows "keeps_handles (dispatch E r)"
  using assms(2)
  by (cases r) (auto intro!: keeps_handles_ignore data_handles meta_handles keeps_handles_mounted
      security_handles assms(1))

subsection \<open>What an opening leaves\<close>

text \<open>The statuses with which the library goes on with a file; after any other it forgets it.\<close>

definition opened_status :: "ntstatus \<Rightarrow> bool" where
  "opened_status st \<longleftrightarrow> st = STATUS_SUCCESS \<or> st = STATUS_OBJECT_NAME_COLLISION"

definition result_status :: "ntstatus + ntstatus \<times> handle \<Rightarrow> ntstatus" where
  "result_status r = (case r of Inl st \<Rightarrow> st | Inr (st, h) \<Rightarrow> st)"

lemma create_directory_phase_context:
  "wpf (create_directory_phase E g fn path attrs cd d tok) (\<lambda>_ s'. Context s' = Context s) (\<lambda>_ _. True) s"
  by (auto simp: create_directory_phase_def wp_simps sys_defs split: outcome.split)

lemma open_directory_phase_context:
  "wpf (open_directory_phase E g path fileAttr opts ga fl cd d tok)
    (\<lambda>r s'. opened_status (result_status r) \<or> Context s' = Context s) (\<lambda>_ _. True) s"
  by (simp add: open_directory_phase_def wp_simps sys_defs result_status_def opened_status_def)

lemma file_phase_context:
  "wpf (file_phase E g fn path attrs fileAttr ga fl cd d tok)
    (\<lambda>r s'. opened_status (result_status r) \<or> Context s' = Context s) (\<lambda>_ _. True) s"
  by (simp add: file_phase_def wp_simps sys_defs result_status_def opened_status_def Let_def
      split: outcome.split)

lemma create_phases_context:
  "wpf (create_phases E g fn path attrs opts fileAttr flags d tok isDir)
    (\<lambda>r s'. opened_status (result_status r) \<or> Context s' = Context s) (\<lambda>_ _. True) s"
proof -
  obtain ga fl cd where flags: "flags = (ga, fl, cd)" by (cases flags)
  have "wpf (if status = STATUS_SUCCESS
        then open_directory_phase E g path fileAttr opts ga fl cd d' tok
        else return (Inr (status, 0)))
      (\<lambda>r s'. opened_status (result_status r) \<or> Context s' = Context s) (\<lambda>_ _. True) s1"
    if "Context s1 = Context s" for status d' s1
    using that open_directory_phase_context [of E g path fileAttr opts ga fl cd d' tok s1]
    by (simp add: wp_simps)
  then show ?thesis
    unfolding create_phases_def flags prod.case wpf_if wpf_bind wpf_case_prod
    by (auto intro!: wpf_mono [OF create_directory_phase_context] file_phase_context)
qed

text \<open>An opening that fails keeps no handle: \<open>Context\<close> is what it was.\<close>

lemma failed_create_keeps_context:
  "wpf (MirrorCreateFile E fn access attrs share disp opts)
    (\<lambda>st s'. opened_status st \<or> Context s' = Context s) (\<lambda>_ _. True) s"
proof (rule MirrorCreateFile_by_phases, goal_cases)
  case (1 tok path fileAttr flags d isDir a s1)
  show ?case
    by (rule wpf_mono [OF create_phases_context])
      (rule finish_create_by, auto simp: 1(1) result_status_def)
qed simp_all

subsection \<open>Sessions\<close>

record session =
  open_name :: wstr
  open_context :: handle
  cleaned :: bool

text \<open>
  The runs of a mount with the files the driver has open. A request on a session carries its \<open>Context\<close>;
  the other fields of \<open>DOKAN_FILE_INFO\<close> are the driver's choice each time. Requests about the volume carry
  no handle.
\<close>

inductive mount_run :: "secos \<Rightarrow> globals \<Rightarrow> ctx \<Rightarrow> session list \<Rightarrow> bool" for E g where
  mounted: "mount_ok n \<Longrightarrow> mount_run E g (new_ctx g\<lparr>fs := n\<rparr>) []"
| opened: "mount_run E g s ss \<Longrightarrow>
    MirrorCreateFile E f a att sh d opt (load_info (i\<lparr>fi_Context := 0\<rparr>) s) = (Ret st, s') \<Longrightarrow>
    opened_status st \<Longrightarrow>
    mount_run E g s' (\<lparr>open_name = f, open_context = Context s', cleaned = False\<rparr> # ss)"
| not_opened: "mount_run E g s ss \<Longrightarrow>
    MirrorCreateFile E f a att sh d opt (load_info (i\<lparr>fi_Context := 0\<rparr>) s) = (Ret st, s') \<Longrightarrow>
    \<not> opened_status st \<Longrightarrow> mount_run E g s' ss"
| requested: "mount_run E g s (xs @ x # ys) \<Longrightarrow> \<not> changes_context r \<Longrightarrow>
    dispatch E r (load_info (i\<lparr>fi_Context := open_context x\<rparr>) s) = (Ret (), s') \<Longrightarrow>
    mount_run E g s' (xs @ x\<lparr>open_context := Context s'\<rparr> # ys)"
| no_file: "mount_run E g s ss \<Longrightarrow> \<not> changes_context r \<Longrightarrow>
    dispatch E r (load_info (i\<lparr>fi_Context := 0\<rparr>) s) = (Ret (), s') \<Longrightarrow> mount_run E g s' ss"
| cleaned_up: "mount_run E g s (xs @ x # ys) \<Longrightarrow> \<not> cleaned x \<Longrightarrow>
    dispatch E (Cleanup (open_name x)) (load_info (i\<lparr>fi_Context := open_context x\<rparr>) s) = (Ret (), s') \<Longrightarrow>
    mount_run E g s' (xs @ x\<lparr>open_context := Context s', cleaned := True\<rparr> # ys)"
| closed: "mount_run E g s (xs @ x # ys) \<Longrightarrow> cleaned x \<Longrightarrow>
    dispatch E (CloseFile (open_name x)) (load_info (i\<lparr>fi_Context := open_context x\<rparr>) s) = (Ret (), s') \<Longrightarrow>
    mount_run E g s' (xs @ ys)"
| changed: "mount_run E g s ss \<Longrightarrow>
    mount_run E g (s\<lparr>cache := MonitorDirectoryChanges ws (cache s)\<rparr>) ss"

text \<open>Such a run is a run of the mount in the sense of theory Dispatch.\<close>

lemma mount_run_reachable: "mount_run E g s ss \<Longrightarrow> reachable E g s"
proof (induction rule: mount_run.induct)
  case (opened s ss f a att sh d opt i st s')
  then have "dispatch E (ZwCreateFile f a att sh d opt) (load_info (i\<lparr>fi_Context := 0\<rparr>) s) = (Ret (), s')"
    by (simp add: ignore_def bind_def return_def)
  then show ?case using opened.IH by (rule reachable.request [rotated])
next
  case (not_opened s ss f a att sh d opt i st s')
  then have "dispatch E (ZwCreateFile f a att sh d opt) (load_info (i\<lparr>fi_Context := 0\<rparr>) s) = (Ret (), s')"
    by (simp add: ignore_def bind_def return_def)
  then show ?case using not_opened.IH by (rule reachable.request [rotated])
next
  case (mounted n)
  then show ?case by (rule reachable.start)
next
  case (requested s xs x ys r i s')
  show ?case by (rule reachable.request [OF requested.IH requested.hyps(3)])
next
  case (no_file s ss r i s')
  show ?case by (rule reachable.request [OF no_file.IH no_file.hyps(3)])
next
  case (cleaned_up s xs x ys i s')
  show ?case by (rule reachable.request [OF cleaned_up.IH cleaned_up.hyps(3)])
next
  case (closed s xs x ys i s')
  show ?case by (rule reachable.request [OF closed.IH closed.hyps(3)])
next
  case (changed s ss ws)
  show ?case by (rule reachable.change [OF changed.IH])
qed

subsection \<open>The account\<close>

definition holds :: "session list \<Rightarrow> handle \<Rightarrow> int" where
  "holds ss h = int (length (filter (\<lambda>x. live (open_context x) \<and> open_context x = h) ss))"

lemma holds_simps [simp]:
  "holds [] h = 0"
  "holds (x # ss) h = of_bool (live (open_context x) \<and> open_context x = h) + holds ss h"
  "holds (xs @ ys) h = holds xs h + holds ys h"
  by (auto simp: holds_def)

definition accounted :: "ctx \<Rightarrow> session list \<Rightarrow> bool" where
  "accounted s ss \<longleftrightarrow> (\<forall>h. net_search (trace s) h = 0 \<and> net_open (trace s) h = holds ss h) \<and>
     (\<forall>x \<in> set ss. cleaned x \<longrightarrow> open_context x = 0)"

lemma load_context [simp]: "Context (load_info i s) = fi_Context i"
  by (simp add: load_info_def)

lemma create_account:
  assumes "MirrorCreateFile E f a att sh d opt (load_info (i\<lparr>fi_Context := 0\<rparr>) s) = (Ret st, s')"
    and "\<not> m_ImpersonateCallerUser (globals s)"
  shows "net_search (trace s') h = net_search (trace s) h"
    and "net_open (trace s') h = net_open (trace s) h + of_bool (live (Context s') \<and> Context s' = h)"
    and "\<not> opened_status st \<Longrightarrow> Context s' = 0"
proof -
  have kept: "opened_status st \<or> Context s' = 0"
    using run_by_wpf [OF assms(1) failed_create_keeps_context] by simp
  have "created_handles (load_info (i\<lparr>fi_Context := 0\<rparr>) s) st s'"
    by (rule run_by_wpf [OF assms(1) MirrorCreateFile_wpf])
  then show "net_search (trace s') h = net_search (trace s) h"
    and "net_open (trace s') h = net_open (trace s) h + of_bool (live (Context s') \<and> Context s' = h)"
    using assms(2) by (auto simp: created_handles_def live_def)
  show "\<not> opened_status st \<Longrightarrow> Context s' = 0" using kept by simp
qed

lemma request_account:
  assumes "tokens_readable E" and "\<not> changes_context r"
    and "dispatch E r (load_info i s) = (Ret (), s')"
  shows "net_search (trace s') h = net_search (trace s) h"
    and "net_open (trace s') h = net_open (trace s) h" and "Context s' = fi_Context i"
proof -
  have "balanced (trace s) (trace s')"
    using run_by_wpf [OF assms(3) dispatch_handles [OF assms(1,2), unfolded keeps_handles_def, rule_format]]
    by simp
  then show "net_search (trace s') h = net_search (trace s) h" "net_open (trace s') h = net_open (trace s) h"
    by (simp_all add: balanced_def)
  have "context_is (fi_Context i) s'"
    by (rule preserves_run [OF dispatch_context [OF assms(2)] _ assms(3)]) (simp add: context_is_def)
  then show "Context s' = fi_Context i" by (simp add: context_is_def)
qed

lemma cleanup_account:
  assumes "MirrorCleanup E f (load_info i s) = (Ret (), s')"
  shows "net_search (trace s') h = net_search (trace s) h"
    and "net_open (trace s') h = net_open (trace s) h - of_bool (live (fi_Context i) \<and> fi_Context i = h)"
    and "Context s' = 0"
  using run_by_wpf [OF assms MirrorCleanup_exact] by (auto simp: live_def)

lemma close_account:
  assumes "MirrorCloseFile E f (load_info i s) = (Ret (), s')" and "fi_Context i = 0"
  shows "trace s' = trace s"
proof -
  have "wpf (MirrorCloseFile E f) (\<lambda>_ s'. trace s' = trace s) (\<lambda>_ _. True) (load_info i s)"
    using assms(2) by (simp add: MirrorCloseFile_def wp_simps bad_handle_def split: outcome.split)
  from run_by_wpf [OF assms(1) this] show ?thesis .
qed

lemma mount_run_accounted:
  assumes "\<not> m_ImpersonateCallerUser g" and "tokens_readable E"
  shows "mount_run E g s ss \<Longrightarrow> accounted s ss"
proof (induction rule: mount_run.induct)
  case (mounted n)
  then show ?case by (simp add: accounted_def new_ctx_def)
next
  case (opened s ss f a att sh d opt i st s')
  then have "\<not> m_ImpersonateCallerUser (globals s)"
    using reachable_invariant [OF mount_run_reachable] assms(1) by blast
  then show ?case
    using opened.IH create_account(1,2) [OF opened.hyps(2)] by (simp add: accounted_def)
next
  case (not_opened s ss f a att sh d opt i st s')
  then have "\<not> m_ImpersonateCallerUser (globals s)"
    using reachable_invariant [OF mount_run_reachable] assms(1) by blast
  then show ?case
    using not_opened.IH create_account [OF not_opened.hyps(2)] not_opened.hyps(3)
    by (simp add: accounted_def live_def)
next
  case (requested s xs x ys r i s')
  then show ?case
    using request_account [OF assms(2) requested.hyps(2,3)] by (auto simp: accounted_def)
next
  case (no_file s ss r i s')
  then show ?case using request_account [OF assms(2) no_file.hyps(2,3)] by (simp add: accounted_def)
next
  case (cleaned_up s xs x ys i s')
  then have "MirrorCleanup E (open_name x) (load_info (i\<lparr>fi_Context := open_context x\<rparr>) s) = (Ret (), s')"
    by simp
  from cleanup_account [OF this] show ?case
    using cleaned_up.IH by (auto simp: accounted_def live_def)
next
  case (closed s xs x ys i s')
  then have "MirrorCloseFile E (open_name x) (load_info (i\<lparr>fi_Context := open_context x\<rparr>) s) = (Ret (), s')"
    and "open_context x = 0" by (auto simp: accounted_def)
  with close_account [OF this(1)] show ?case
    using closed.IH by (simp add: accounted_def live_def)
next
  case (changed s ss ws)
  then show ?case by (simp add: accounted_def)
qed

text \<open>
  C4: On a mount that does not impersonate its callers, and when the user of every token can be
  read, the open handles are exactly those of the files the driver has open: in every state of any
  interleaving of openings, requests, cleanups and closings of any number of files, every handle is open
  exactly as often as a session holds it and no search is open. Nothing is closed twice, nothing is lost,
  and when the last file is cleaned up no handle is open. Neither condition can be left out: with
  impersonation the two early returns of \<open>MirrorCreateFile\<close> leave the token of the caller open, and
  with a token whose user cannot be read \<open>GetNotElevatedSIDS\<close> leaves it open.
\<close>

theorem mount_handles_accounted:
  assumes "mount_run E g s ss" and "\<not> m_ImpersonateCallerUser g" and "tokens_readable E"
  shows "net_search (trace s) h = 0 \<and>
    net_open (trace s) h = int (length (filter (\<lambda>x. live (open_context x) \<and> open_context x = h) ss)) \<and>
    (list_all cleaned ss \<longrightarrow> net_open (trace s) h = 0)"
proof -
  have acc: "accounted s ss" using mount_run_accounted [OF assms(2,3,1)] .
  have "holds ss h = 0" if "list_all cleaned ss"
    using that acc by (auto simp: holds_def accounted_def list_all_iff live_def filter_empty_conv)
  then show ?thesis using acc by (auto simp: accounted_def holds_def)
qed

lemma sample_open:
  "wpf (MirrorCreateFile sample_system (W ''x'') GENERIC_READ 0 0 OPEN_EXISTING 0)
    (\<lambda>st s'. opened_status st \<and> Context s' = 0x102) (\<lambda>_ _. False)
    (load_info (sample_info\<lparr>fi_Context := 0\<rparr>) (new_ctx sample_globals))"
  by (simp add: MirrorCreateFile_def wp_simps sys_defs GetFilePath_at_eq new_ctx_def sample_globals_def
      Globals_of_def new_Globals_def mirror_path_def relative_part_def under_unc_def W_def c_str_def
      load_info_def sample_info_def Let_def open_token_def create_phases_def request_flags_def
      file_phase_def finish_create_def cannot_delete_def impersonate_def uses_token_def
      end_impersonation_def take_descriptor_def bad_handle_def file_opened_def opened_status_def
      sample_system_def)

theorem mount_handles_accounted_witness:
  "\<exists>s x. mount_run sample_system sample_globals s [x] \<and> open_context x = 0x102 \<and>
     net_open (trace s) 0x102 = 1"
proof -
  obtain st s' where run: "MirrorCreateFile sample_system (W ''x'') GENERIC_READ 0 0 OPEN_EXISTING 0
      (load_info (sample_info\<lparr>fi_Context := 0\<rparr>) (new_ctx sample_globals)) = (Ret st, s')"
    and st: "opened_status st" "Context s' = 0x102"
    using sample_open by (auto simp: wpf_def split: prod.splits outcome.splits)
  let ?x = "\<lparr>open_name = W ''x'', open_context = Context s', cleaned = False\<rparr>"
  have "mount_run sample_system sample_globals (new_ctx sample_globals) []"
    using mount_run.mounted [OF mount_ok_empty, of sample_system sample_globals]
    by (simp add: new_ctx_def)
  then have opened: "mount_run sample_system sample_globals s' [?x]"
    by (rule mount_run.opened [OF _ run st(1)])
  have "\<not> m_ImpersonateCallerUser sample_globals" "tokens_readable sample_system"
    by (simp_all add: sample_globals_def Globals_of_def new_Globals_def tokens_readable_def sample_system_def)
  from mount_handles_accounted [OF opened this, of "0x102"] st(2)
  have "net_open (trace s') 0x102 = 1" by (simp add: live_def)
  then show ?thesis using opened st(2) by (intro exI [of _ s'] exI [of _ ?x]) simp
qed

end
