(* ===== verification/FileNodes.thy ===== *)
theory FileNodes
  imports FileMeta FileSecurity
begin

text \<open>
  Handlers in sequence on one mount: the descriptor set for a file belongs to the file, so a renaming
  takes it along and a deletion ends it. The proofs rest on the interface \<open>name_table\<close> of the nodes.
\<close>

subsection \<open>What the handlers do to the nodes\<close>

lemma set_name_security: "security (store (set_name p f n) q) = security (store n q)"
  by (simp add: set_name_def)

lemma rename_security: "security (store (snd (rename f g n)) q) = security (store n q)"
  by (simp add: rename_def set_name_security split: option.split)

lemma wpf_move:
  assumes "GetFilePath_at (globals s) fn = Ret path" and "live (Context s)"
    and "newName \<noteq> []" "hd newName \<noteq> COLON" "GetFilePath_at (globals s) newName = Ret target"
  shows "wpf (MirrorMoveFile E fn newName b) Q F s =
    (let ok = os_handle E (trace s) (SetRenameCall b target) (Context s);
         s' = s\<lparr>trace := OnHandle (SetRenameCall b target) (Context s) ok # trace s\<rparr> in
     if \<not> sec_HeapAlloc E (trace s) (rename_info_size target) then Q STATUS_BUFFER_OVERFLOW s
     else if ok then Q STATUS_SUCCESS (s'\<lparr>fs := snd (rename fn newName (fs s))\<rparr>)
     else Q (dokan_NtStatusFromWin32 E (last_error E (trace s'))) s')"
proof -
  have "\<not> bad_handle (Context s)" using assms(2) by (simp add: bad_handle_def live_def)
  then show ?thesis
    by (simp add: MirrorMoveFile_def rename_target_def with_handle_def wp_simps sys_defs assms Let_def)
qed

lemma wpf_get_security:
  assumes "GetFilePath_at (globals s) fn = Ret path" and "findFileNode (fs s) fn = Some p"
    and "security_ok (security (store (fs s) p))"
    and "descriptor_size (security (store (fs s) p)) \<noteq> 0"
    and "sec_GetPrivate E (descriptor (security (store (fs s) p))) info = Some r"
  shows "wpf (MirrorGetFileSecurity E fn info len) Q F s =
    Q (if of_nat (length r) > len then (STATUS_BUFFER_OVERFLOW, None, Some (of_nat (length r)))
       else (STATUS_SUCCESS, Some r, Some (of_nat (length r)))) s"
  by (simp add: MirrorGetFileSecurity_def wp_simps assms GetDescriptor_nonempty wpf_answer_security)

subsection \<open>A renaming takes the descriptor along\<close>

text \<open>
  C20: A file keeps its security when it is renamed onto a name no node has. When the file has a
  stored descriptor and \<open>MirrorMoveFile\<close> succeeds, \<open>MirrorGetFileSecurity\<close> on the new name answers the
  parts of exactly the descriptor the old name had, the old name has no descriptor any more, and every
  other name keeps its own; when the renaming is refused, all names keep theirs. Onto a name that has a
  node, as a replacing rename does, this fails (\<open>replacing_rename_keeps_replaced_security\<close>).
\<close>

theorem renamed_file_keeps_security:
  assumes "table_ok (fs s)" and "findFileNode (fs s) fn = Some p"
    and "findFileNode (fs s) newName = None"
    and "descriptor_size (security (store (fs s) p)) \<noteq> 0"
    and "sec_GetPrivate E (descriptor (security (store (fs s) p))) info = Some r"
    and "GetFilePath_at (globals s) fn = Ret path" and "live (Context s)"
    and "newName \<noteq> []" "hd newName \<noteq> COLON" "GetFilePath_at (globals s) newName = Ret target"
  shows "wpf (bind (MirrorMoveFile E fn newName replace) (\<lambda>st.
         bind (gets fs) (\<lambda>n.
         if findFileNode n newName = None then return (st, n, None)
         else bind (MirrorGetFileSecurity E newName info len) (\<lambda>answer. return (st, n, Some answer)))))
    (\<lambda>(st, n, answer) s'.
       if sec_HeapAlloc E (trace s) (rename_info_size target) \<and>
          os_handle E (trace s) (SetRenameCall replace target) (Context s)
       then st = STATUS_SUCCESS \<and>
         answer = Some (if of_nat (length r) > len
                   then (STATUS_BUFFER_OVERFLOW, None, Some (of_nat (length r)))
                   else (STATUS_SUCCESS, Some r, Some (of_nat (length r)))) \<and>
         findFileNode n = (findFileNode (fs s))(fn := None, newName \<mapsto> p) \<and>
         (\<forall>q. security (store n q) = security (store (fs s) q))
       else n = fs s \<and> answer = None) (\<lambda>_ _. False) s"
proof -
  let ?n = "snd (rename fn newName (fs s))"
  have lookup: "findFileNode ?n = (findFileNode (fs s))(fn := None, newName \<mapsto> p)"
    using nt.lookup_rename [OF assms(1,3), of fn] assms(2) by simp
  have si: "security_ok (security (store (fs s) p))"
    using assms(1) by (simp add: table_ok_def nodes_ok_def)
  show ?thesis
    by (simp add: wpf_bind [of "MirrorMoveFile E fn newName replace"] wpf_move [OF assms(6-10)]
        wpf_bind [of "gets fs"] wpf_bind [of "MirrorGetFileSecurity E newName info len"] wpf_gets
        wpf_return lookup assms Let_def wpf_get_security rename_security si)
qed

theorem renamed_file_keeps_security_witness:
  "wpf (bind (MirrorMoveFile sample_system (W ''a'') (W ''b'') True) (\<lambda>st.
         bind (gets fs) (\<lambda>n.
         if findFileNode n (W ''b'') = None then return (st, n, None)
         else bind (MirrorGetFileSecurity sample_system (W ''b'') 4 64) (\<lambda>answer.
           return (st, n, Some answer)))))
    (\<lambda>(st, n, answer) s'. st = STATUS_SUCCESS \<and>
       answer = Some (STATUS_SUCCESS, Some [1, 0, 4, 0x80], Some 4)) (\<lambda>_ _. False)
    (new_ctx new_Globals\<lparr>Context := 7, fs := sample_nodes\<rparr>)"
proof -
  let ?s = "new_ctx new_Globals\<lparr>Context := 7, fs := sample_nodes\<rparr>"
  have path: "GetFilePath_at (globals ?s) (W ''a'') = Ret (W ''a'')"
      "GetFilePath_at (globals ?s) (W ''b'') = Ret (W ''b'')"
    by (simp_all add: GetFilePath_at_eq new_Globals_def mirror_path_def relative_part_def
        under_unc_def W_def c_str_def new_ctx_def)
  have table: "table_ok (fs ?s)"
    by (auto simp: table_ok_def nodes_ok_def names_distinct_def sample_nodes_def make_shared_def
        empty_nodes_def addFileNode_def findFileNode_def security_ok_def new_node_def no_security_def)
  have names: "findFileNode (fs ?s) (W ''a'') = Some 0" "findFileNode (fs ?s) (W ''b'') = None"
    by (simp_all add: sample_nodes_def make_shared_def empty_nodes_def addFileNode_def
        findFileNode_def node_name_def W_def)
  have sd: "security (store (fs ?s) 0) =
      \<lparr>strdescriptor = W ''D:'', descriptor = [1, 0, 4, 0x80], descriptor_size = 4\<rparr>"
    by (simp add: sample_nodes_def make_shared_def empty_nodes_def addFileNode_def findFileNode_def)
  show ?thesis
    by (rule wpf_mono [OF renamed_file_keeps_security [OF table names,
            where E = sample_system and info = 4 and r = "[1, 0, 4, 0x80]" and len = 64, OF _ _ path(1) _ _ _ path(2)]])
      (simp_all only: sd, auto simp: sample_system_def live_def new_ctx_def W_def)
qed

subsection \<open>A deletion ends it\<close>

text \<open>
  After a successful deletion the name has the default descriptor, whatever had been set for it: a
  file made later under the same name does not inherit the security of the deleted one.
\<close>

theorem deleted_file_forgets_security:
  assumes "table_ok (fs s)" and "SDCached s = Some d0" and "live (Context s)"
    and "GetFilePath_at (globals s) fn = Ret path"
    and "sec_GetPrivate E d0 info = Some r" and "\<not> of_nat (length r) > len"
    and "\<not> has_flag (os_FileAttributes E (trace s) path) FILE_ATTRIBUTE_DIRECTORY"
    and "os_handle E (OnPath GetFileAttributesCall path # trace s)
      (SetDispositionCall (DeleteOnClose s)) (Context s)"
  shows "wpf (bind (MirrorDeleteFile E fn) (\<lambda>st.
         bind (MirrorGetFileSecurity E fn info len) (\<lambda>answer. return (st, answer))))
    (\<lambda>(st, answer) s'. st = STATUS_SUCCESS \<and>
       answer = (STATUS_SUCCESS, Some r, Some (of_nat (length r)))) (\<lambda>_ _. False) s"
proof -
  have none: "findFileNode (snd (deleteFileNode fn (fs s))) fn = None"
    using nt.delete_forgets [OF assms(1)] .
  have "\<not> bad_handle (Context s)" using assms(3) by (simp add: bad_handle_def live_def)
  then show ?thesis
    using assms none
    by (simp add: MirrorDeleteFile_def MirrorGetFileSecurity_def wp_simps sys_defs
        wpf_cached_default wpf_answer_security del: not_less)
qed

end
