(* ===== verification/SecurityMap.thy ===== *)
theory SecurityMap
  imports Dispatch FileNodes
begin

text \<open>
  The abstract state of a mount's security: a map from names to descriptors. Every request of the driver
  is given its effect on this map, the handlers are shown to refine it, and with it that a request never
  touches the security of a name it is not about. The nodes implement the map as long as no file is
  renamed onto a name that has a node; what happens then is shown at the end.
\<close>

subsection \<open>The map\<close>

definition sec_map :: "nodes \<Rightarrow> wstr \<rightharpoonup> security_informations" where
  "sec_map n f = map_option (\<lambda>p. security (store n p)) (findFileNode n f)"

definition map_is :: "(wstr \<rightharpoonup> security_informations) \<Rightarrow> nodes \<Rightarrow> bool" where
  "map_is m n \<longleftrightarrow> table_ok n \<and> sec_map n = m"

text \<open>The effect of a request that succeeds or fails, as a relation on maps.\<close>

fun effect :: "request \<Rightarrow> (wstr \<rightharpoonup> security_informations) \<Rightarrow> (wstr \<rightharpoonup> security_informations) \<Rightarrow> bool" where
  "effect (ZwCreateFile f a att sh d opt) m m' \<longleftrightarrow> m' = m \<or> m f = None \<and> (\<exists>si. m' = m(f \<mapsto> si))"
| "effect (RemoveFile f) m m' \<longleftrightarrow> m' = m \<or> m' = m(f := None)"
| "effect (RemoveDirectory f) m m' \<longleftrightarrow> m' = m \<or> m' = m(f := None)"
| "effect (MoveFile f g b) m m' \<longleftrightarrow> m' = m \<or> m' = m(f := None, g := m f)"
| "effect (SetFileSecurity f i d) m m' \<longleftrightarrow> m' = m \<or> (\<exists>si. m' = m(f \<mapsto> si))"
| "effect r m m' \<longleftrightarrow> m' = m"

text \<open>The names whose security a request may change.\<close>

fun concerns :: "request \<Rightarrow> wstr set" where
  "concerns (ZwCreateFile f a att sh d opt) = {f}"
| "concerns (RemoveFile f) = {f}"
| "concerns (RemoveDirectory f) = {f}"
| "concerns (MoveFile f g b) = {f, g}"
| "concerns (SetFileSecurity f i d) = {f}"
| "concerns r = {}"

lemma effect_frame: "effect r m m' \<Longrightarrow> f \<notin> concerns r \<Longrightarrow> m' f = m f"
  by (cases r) auto

subsection \<open>Operations on the nodes\<close>

lemma sec_map_None [simp]: "sec_map n f = None \<longleftrightarrow> findFileNode n f = None"
  by (simp add: sec_map_def)

lemma table_nodes_ok: "table_ok n \<Longrightarrow> nodes_ok n"
  by (simp add: table_ok_def)

lemma find_below: "nodes_ok n \<Longrightarrow> findFileNode n f = Some p \<Longrightarrow> p < next_ptr n"
  by (drule find_in_filenodes) (simp add: nodes_ok_def)

lemma find_make_shared: "nodes_ok n \<Longrightarrow> findFileNode (snd (make_shared x n)) = findFileNode n"
  by (auto simp: findFileNode_def make_shared_def node_name_def nodes_ok_def fun_eq_iff intro!: find_cong)

lemma table_make_shared:
  assumes "table_ok n" and "security_ok (security x)"
  shows "map_is (sec_map n) (snd (make_shared x n))"
proof -
  have n: "nodes_ok n" "\<forall>p \<in> set (filenodes n). p < next_ptr n"
    using assms(1) by (simp_all add: table_ok_def nodes_ok_def)
  have list: "filenodes (snd (make_shared x n)) = filenodes n" by (simp add: make_shared_def)
  have names: "map (node_name (snd (make_shared x n))) (filenodes n) = map (node_name n) (filenodes n)"
    using n(2) by (auto simp: make_shared_def node_name_def)
  have "table_ok (snd (make_shared x n))"
    using assms(1) nodes_ok_make_shared [OF n(1) assms(2)]
    unfolding table_ok_def names_distinct_def list names by simp
  moreover have "sec_map (snd (make_shared x n)) f = sec_map n f" for f
    unfolding sec_map_def find_make_shared [OF n(1)]
    by (cases "findFileNode n f") (auto simp: make_shared_def dest: find_below [OF n(1)])
  ultimately show ?thesis by (simp add: map_is_def fun_eq_iff)
qed

lemma add_made:
  assumes "table_ok n" and "security_ok (security x)"
  shows "map_is (if findFileNode n (fileName x) = None then (sec_map n)(fileName x \<mapsto> security x)
      else sec_map n) (snd (addFileNode (Some (next_ptr n)) (snd (make_shared x n))))"
proof -
  let ?n = "snd (make_shared x n)" and ?p = "next_ptr n"
  have made: "table_ok ?n" "sec_map ?n = sec_map n"
    using table_make_shared [OF assms] by (simp_all add: map_is_def)
  have p: "unlisted ?n ?p" "node_name ?n ?p = fileName x" "store ?n ?p = x"
    using assms(1) by (auto simp: unlisted_def table_ok_def nodes_ok_def make_shared_def node_name_def)
  have same: "findFileNode ?n = findFileNode n"
    using find_make_shared assms(1) by (simp add: table_ok_def)
  show ?thesis
  proof (cases "findFileNode n (fileName x)")
    case None
    have look: "findFileNode (snd (addFileNode (Some ?p) ?n)) = (findFileNode n)(fileName x \<mapsto> ?p)"
      using nt.lookup_insert [OF made(1) p(1)] p(2) None same by simp
    have "store (snd (addFileNode (Some ?p) ?n)) = store ?n" by (simp add: addFileNode_def split: option.split)
    then have "sec_map (snd (addFileNode (Some ?p) ?n)) = (sec_map n)(fileName x \<mapsto> security x)"
      using look p(3) made(2) same by (auto simp: sec_map_def fun_eq_iff)
    then show ?thesis using nt.inv_insert [OF made(1) p(1)] None by (simp add: map_is_def)
  next
    case (Some q)
    then have "snd (addFileNode (Some ?p) ?n) = ?n"
      using nt.insert_present [of ?n ?p] p(2) same by simp
    then show ?thesis using Some made by (simp add: map_is_def)
  qed
qed

lemma delete_map:
  assumes "table_ok n"
  shows "map_is ((sec_map n)(f := None)) (snd (deleteFileNode f n))"
proof -
  have "store (snd (deleteFileNode f n)) = store n"
    by (simp add: deleteFileNode_def split: option.split)
  then show ?thesis
    using nt.lookup_delete [OF assms] nt.inv_delete [OF assms]
    by (auto simp: map_is_def sec_map_def fun_eq_iff)
qed

lemma rename_map:
  assumes "table_ok n" and "findFileNode n g = None"
  shows "map_is (if findFileNode n f = None then sec_map n else (sec_map n)(f := None, g := sec_map n f))
    (snd (rename f g n))"
proof -
  have "security (store (snd (rename f g n)) p) = security (store n p)" for p
    by (simp add: rename_def set_name_def split: option.split)
  then show ?thesis
    using nt.lookup_rename [OF assms, of f] nt.inv_rename [OF assms, of f]
    by (auto simp: map_is_def sec_map_def fun_eq_iff split: option.splits)
qed

lemma set_security_map:
  assumes "table_ok n" and "findFileNode n f = Some p" and "security_ok si"
  shows "map_is ((sec_map n)(f \<mapsto> si)) (set_security p si n)"
proof -
  have names: "node_name (set_security p si n) = node_name n" "filenodes (set_security p si n) = filenodes n"
    by (auto simp: set_security_def node_name_def)
  then have look: "findFileNode (set_security p si n) = findFileNode n"
    by (simp add: findFileNode_def fun_eq_iff)
  have store: "security (store (set_security p si n) q) = (if q = p then si else security (store n q))" for q
    by (simp add: set_security_def)
  have "sec_map (set_security p si n) g = ((sec_map n)(f \<mapsto> si)) g" for g
  proof (cases "g = f")
    case True
    then show ?thesis using assms(2) by (simp add: sec_map_def look store)
  next
    case False
    then have "findFileNode n g \<noteq> Some p"
      using assms(2) by (auto dest: find_in_filenodes)
    then show ?thesis
      using False by (cases "findFileNode n g") (simp_all add: sec_map_def look store)
  qed
  moreover have "table_ok (set_security p si n)"
    using assms nodes_ok_set_security [of n si p] names by (simp add: table_ok_def names_distinct_def)
  ultimately show ?thesis by (simp add: map_is_def fun_eq_iff)
qed

subsection \<open>Requests that leave the map alone\<close>

lemma counts_frame [simp]:
  "table_ok (n\<lparr>writeCounts := w\<rparr>) = table_ok n" "sec_map (n\<lparr>writeCounts := w\<rparr>) = sec_map n"
proof -
  have names: "node_name (n\<lparr>writeCounts := w\<rparr>) = node_name n" by (simp add: node_name_def fun_eq_iff)
  show "table_ok (n\<lparr>writeCounts := w\<rparr>) = table_ok n" "sec_map (n\<lparr>writeCounts := w\<rparr>) = sec_map n"
    by (simp_all add: table_ok_def nodes_ok_def names_distinct_def sec_map_def findFileNode_def names fun_eq_iff)
qed

interpretation sm: counter_free "map_is m" for m
  by unfold_locales (simp add: map_is_def)

subsection \<open>Requests that change it\<close>

text \<open>Opening a file may add one name, with a descriptor of its own; it is the same at every stage.\<close>

definition grown :: "(wstr \<rightharpoonup> security_informations) \<Rightarrow> wstr \<Rightarrow> nodes \<Rightarrow> bool" where
  "grown m f n \<longleftrightarrow> table_ok n \<and> (sec_map n = m \<or> m f = None \<and> (\<exists>si. sec_map n = m(f \<mapsto> si)))"

lemma grown_make:
  assumes "grown m f n" and "security_ok (security x)" and "fileName x = f"
  shows "grown m f (snd (make_shared x n))"
    and "grown m f (snd (addFileNode (Some (next_ptr n)) (snd (make_shared x n))))"
proof -
  have ok: "table_ok n" using assms(1) by (simp add: grown_def)
  show "grown m f (snd (make_shared x n))"
    using table_make_shared [OF ok assms(2)] assms(1) by (simp add: grown_def map_is_def)
  show "grown m f (snd (addFileNode (Some (next_ptr n)) (snd (make_shared x n))))"
  proof (cases "findFileNode n f")
    case None
    then have none: "sec_map n f = None" by simp
    with assms(1) have "sec_map n = m" unfolding grown_def by (metis fun_upd_same option.distinct(1))
    then show ?thesis
      using add_made [OF ok assms(2)] None assms(3) none by (auto simp: grown_def map_is_def)
  next
    case (Some q)
    then show ?thesis using add_made [OF ok assms(2)] assms(1,3) by (simp add: grown_def map_is_def)
  qed
qed

interpretation gr: growing "grown m f" f for m f
  by unfold_locales (simp_all add: grown_make, simp add: grown_def)

text \<open>A deletion removes the name, or changes nothing; a removal is always reported as a success.\<close>

lemma delete_effect:
  assumes "table_ok (fs s)"
  shows "wpf (MirrorDeleteFile E f) (\<lambda>st s'. fs s' = fs s \<or>
      st = STATUS_SUCCESS \<and> map_is ((sec_map (fs s))(f := None)) (fs s')) (\<lambda>_ s'. fs s' = fs s) s"
    and "wpf (DeleteDirectory E f) (\<lambda>st s'. fs s' = fs s \<or>
      st = STATUS_SUCCESS \<and> map_is ((sec_map (fs s))(f := None)) (fs s')) (\<lambda>_ s'. fs s' = fs s) s"
  using delete_map [OF assms, of f]
  by (auto simp: MirrorDeleteFile_def DeleteDirectory_def wp_simps sys_defs
      split: outcome.split option.split prod.split)

lemma move_effect:
  assumes "table_ok (fs s)" and "findFileNode (fs s) g = None"
  shows "wpf (MirrorMoveFile E f g b) (\<lambda>st s'. fs s' = fs s \<or> st = STATUS_SUCCESS \<and>
      map_is (if findFileNode (fs s) f = None then sec_map (fs s)
        else (sec_map (fs s))(f := None, g := sec_map (fs s) f)) (fs s')) (\<lambda>_ s'. fs s' = fs s) s"
proof -
  define m' where "m' = (if findFileNode (fs s) f = None then sec_map (fs s)
    else (sec_map (fs s))(f := None, g := sec_map (fs s) f))"
  have "map_is m' (snd (rename f g (fs s)))" using rename_map [OF assms, of f] by (simp add: m'_def)
  then show ?thesis
    unfolding m'_def [symmetric]
    by (auto simp: MirrorMoveFile_def rename_target_def with_handle_def wp_simps sys_defs Let_def split: outcome.split)
qed

text \<open>A change of the security ends with a descriptor for the name, its first one or another one.\<close>

definition set_allowed :: "nodes \<Rightarrow> wstr \<Rightarrow> nodes \<Rightarrow> bool" where
  "set_allowed n f n' \<longleftrightarrow> table_ok n' \<and> (sec_map n' = sec_map n \<or> (\<exists>si. sec_map n' = (sec_map n)(f \<mapsto> si)))"

lemma set_allowed_refl [simp]: "set_allowed n f n = table_ok n"
  by (simp add: set_allowed_def)

lemma map_is_allowed: "map_is ((sec_map n)(f \<mapsto> si)) n' \<Longrightarrow> set_allowed n f n'"
  by (auto simp: map_is_def set_allowed_def)

lemma change_node_effect:
  assumes "table_ok (fs s)" and "findFileNode (fs s) f = Some p"
  shows "wpf (change_node E p i d) (\<lambda>_ s'. set_allowed (fs s) f (fs s')) (\<lambda>_ s'. fs s' = fs s) s"
proof -
  have si: "security_ok (security (store (fs s) p))"
    using assms(1) by (simp add: table_ok_def nodes_ok_def)
  have upd: "set_allowed (fs s) f (set_security p si' (fs s))"
    if "SetDescriptor E sdo (security (store (fs s) p)) = Ret si'" for sdo si'
    using set_security_map [OF assms SetDescriptor_ok [OF that si]] by (rule map_is_allowed)
  show ?thesis
    unfolding change_node_def wpf_bind wpf_gets
    by (rule wpf_keeps_fs [OF GetDescriptor_fs])
      (use assms(1) in \<open>auto simp: wp_simps Let_def intro: upd split: option.split outcome.split\<close>)
qed

lemma first_change_effect:
  assumes "table_ok (fs s)" and "findFileNode (fs s) f = None"
  shows "wpf (first_change E f i d) (\<lambda>_ s'. set_allowed (fs s) f (fs s')) (\<lambda>_ s'. fs s' = fs s) s"
proof -
  have made: "set_allowed (fs s) f (snd (addFileNode (Some (next_ptr (fs s)))
      (snd (make_shared (new_node f dir a\<lparr>security := si\<rparr>) (fs s)))))"
    if "SetDescriptor E sdo no_security = Ret si" for dir a sdo si
    using add_made [OF assms(1), of "new_node f dir a\<lparr>security := si\<rparr>"] assms(2)
      SetDescriptor_ok [OF that security_ok_no_security]
    by (intro map_is_allowed) (simp add: new_node_def)
  show ?thesis
    unfolding first_change_def wpf_bind [of "CreateDefaultSelfRelativeSD E"]
    by (rule wpf_keeps_fs [OF fs_inv_default])
      (use assms(1) in \<open>auto simp: wp_simps intro: made split: option.split outcome.split\<close>)
qed

lemma set_effect:
  assumes "table_ok (fs s)"
  shows "wpf (MirrorSetFileSecurity E f i d) (\<lambda>_ s'. set_allowed (fs s) f (fs s')) (\<lambda>_ s'. fs s' = fs s) s"
  unfolding MirrorSetFileSecurity_def with_handle_def
  using assms change_node_effect [OF assms, of f _ E i d] first_change_effect [OF assms, of f E i d]
  by (auto simp: wp_simps split: outcome.split option.split)

subsection \<open>Every request\<close>

fun fresh_target :: "request \<Rightarrow> nodes \<Rightarrow> bool" where
  "fresh_target (MoveFile f g b) n \<longleftrightarrow> findFileNode n g = None"
| "fresh_target r n \<longleftrightarrow> True"

definition follows :: "request \<Rightarrow> nodes \<Rightarrow> nodes \<Rightarrow> bool" where
  "follows r n n' \<longleftrightarrow> table_ok n' \<and> effect r (sec_map n) (sec_map n')"

lemma wpf_ignore: "wpf (ignore m) Q F s = wpf m (\<lambda>_. Q ()) F s"
proof -
  have "wpf (return ()) Q F = Q ()" by (simp add: fun_eq_iff wpf_return)
  then show ?thesis by (simp add: ignore_def wpf_bind)
qed

lemma follows_kept:
  assumes "preserves (fs_inv (map_is (sec_map (fs s)))) m" and "table_ok (fs s)"
    and "\<And>m'. effect r m' m'"
  shows "wpf m (\<lambda>_ s'. follows r (fs s) (fs s')) (\<lambda>_ _. True) s"
  by (rule wpf_mono [OF wpf_by_preserves [OF assms(1)]])
    (use assms(2,3) in \<open>simp_all add: fs_inv_def map_is_def follows_def\<close>)

lemma request_effect:
  assumes ok: "table_ok (fs s)" and fresh: "fresh_target r (fs s)"
  shows "wpf (dispatch E r) (\<lambda>_ s'. follows r (fs s) (fs s')) (\<lambda>_ _. True) s"
proof (cases r)
  case (ZwCreateFile f a att sh d opt)
  have "fs_inv (grown (sec_map (fs s)) f) s" using ok by (simp add: fs_inv_def grown_def)
  from wpf_by_preserves [OF gr.create_kept this] show ?thesis
    unfolding ZwCreateFile dispatch.simps wpf_ignore
    by (rule wpf_mono) (auto simp: fs_inv_def grown_def follows_def)
next
  case (RemoveFile f)
  show ?thesis
    unfolding RemoveFile dispatch.simps wpf_ignore
    by (rule wpf_mono [OF delete_effect(1) [OF ok]]) (use ok in \<open>auto simp: follows_def map_is_def\<close>)
next
  case (RemoveDirectory f)
  show ?thesis
    unfolding RemoveDirectory dispatch.simps wpf_ignore
    by (rule wpf_mono [OF delete_effect(2) [OF ok]]) (use ok in \<open>auto simp: follows_def map_is_def\<close>)
next
  case (MoveFile f g b)
  have "findFileNode (fs s) g = None" using fresh MoveFile by simp
  from move_effect [OF ok this] show ?thesis
    unfolding MoveFile dispatch.simps wpf_ignore
    by (rule wpf_mono) (use ok in \<open>auto simp: follows_def map_is_def split: if_splits\<close>)
next
  case (SetFileSecurity f i d)
  show ?thesis
    unfolding SetFileSecurity dispatch.simps wpf_ignore
    by (rule wpf_mono [OF set_effect [OF ok]]) (auto simp: follows_def set_allowed_def)
qed (simp_all only: dispatch.simps, (rule follows_kept [OF _ ok], auto intro!: sm.kept preserves_intros
      simp: MirrorMounted_def MirrorUnmounted_def ignore_def)+)

subsection \<open>A mount in service\<close>

text \<open>
  The requests a mount answers, in order, with the change thread of the cache running in between; each
  renaming goes onto a name that has no node.
\<close>

inductive served :: "secos \<Rightarrow> ctx \<Rightarrow> request list \<Rightarrow> ctx \<Rightarrow> bool" for E where
  idle: "served E s [] s"
| answered: "served E s rs s1 \<Longrightarrow> fresh_target r (fs s1) \<Longrightarrow>
    dispatch E r (load_info i s1) = (Ret (), s') \<Longrightarrow> served E s (rs @ [r]) s'"
| noticed: "served E s rs s1 \<Longrightarrow>
    served E s rs (s1\<lparr>cache := MonitorDirectoryChanges ws (cache s1)\<rparr>)"

text \<open>The abstract mount: the effects of the requests one after the other.\<close>

inductive effects :: "request list \<Rightarrow> (wstr \<rightharpoonup> security_informations) \<Rightarrow>
    (wstr \<rightharpoonup> security_informations) \<Rightarrow> bool" where
  no_effect: "effects [] m m"
| next_effect: "effects rs m m' \<Longrightarrow> effect r m' m'' \<Longrightarrow> effects (rs @ [r]) m m''"

lemma effects_frame: "effects rs m m' \<Longrightarrow> \<forall>r \<in> set rs. f \<notin> concerns r \<Longrightarrow> m' f = m f"
  by (induction rule: effects.induct) (auto dest: effect_frame)

lemma served_refines:
  "served E s rs s' \<Longrightarrow> table_ok (fs s) \<Longrightarrow>
    table_ok (fs s') \<and> globals s' = globals s \<and> effects rs (sec_map (fs s)) (sec_map (fs s'))"
proof (induction rule: served.induct)
  case (idle s)
  then show ?case by (simp add: no_effect)
next
  case (answered s rs s1 r i s')
  then have ok: "table_ok (fs (load_info i s1))" "fresh_target r (fs (load_info i s1))" by simp_all
  have "follows r (fs s1) (fs s')"
    using run_by_wpf [OF answered.hyps(3) request_effect [OF ok]] by simp
  moreover have "adds (confined (globals s1)) (globals s1) (trace s1) s'"
    by (rule preserves_run [OF dispatch_confined _ answered.hyps(3)]) (simp add: adds_def)
  ultimately show ?case
    using answered.IH answered.prems by (auto simp: follows_def adds_def intro: next_effect)
next
  case (noticed s rs s1 ws)
  then show ?case by simp
qed

text \<open>
  C5: A mount whose renamings go onto names without a node implements a map from names to
  descriptors. Whatever requests of this kind it answers (\<open>served\<close>), in any order and whatever the system
  says: the nodes stay a map, each request has one of the effects its kind allows on it, and the security of a name that no
  request concerned is what it was. In particular \<open>MirrorGetFileSecurity\<close> answers for such a name the
  parts of the descriptor it had at the start. A renaming that replaces a file is outside this and breaks
  the map, as is shown below.
\<close>

theorem mount_refines_security:
  assumes "served E s rs s'" and "table_ok (fs s)"
  shows "table_ok (fs s') \<and> effects rs (sec_map (fs s)) (sec_map (fs s')) \<and>
    (\<forall>f. list_all (\<lambda>r. f \<notin> concerns r) rs \<longrightarrow> sec_map (fs s') f = sec_map (fs s) f \<and>
       (\<forall>si path info r len.
          sec_map (fs s) f = Some si \<and> descriptor_size si \<noteq> 0 \<and>
          GetFilePath_at (globals s) f = Ret path \<and> sec_GetPrivate E (descriptor si) info = Some r \<longrightarrow>
          wpf (MirrorGetFileSecurity E f info len)
            (\<lambda>answer _. answer = (if of_nat (length r) > len
                then (STATUS_BUFFER_OVERFLOW, None, Some (of_nat (length r)))
                else (STATUS_SUCCESS, Some r, Some (of_nat (length r))))) (\<lambda>_ _. False) s'))"
proof -
  have ref: "table_ok (fs s')" "globals s' = globals s" "effects rs (sec_map (fs s)) (sec_map (fs s'))"
    using served_refines [OF assms] by simp_all
  have same: "sec_map (fs s') f = sec_map (fs s) f" if "list_all (\<lambda>r. f \<notin> concerns r) rs" for f
    using effects_frame [OF ref(3)] that by (simp add: list_all_iff)
  have "wpf (MirrorGetFileSecurity E f info len)
      (\<lambda>answer _. answer = (if of_nat (length r) > len
          then (STATUS_BUFFER_OVERFLOW, None, Some (of_nat (length r)))
          else (STATUS_SUCCESS, Some r, Some (of_nat (length r))))) (\<lambda>_ _. False) s'"
    if has: "sec_map (fs s') f = Some si" "descriptor_size si \<noteq> 0" "GetFilePath_at (globals s) f = Ret path"
      "sec_GetPrivate E (descriptor si) info = Some r" for f si path info r len
  proof -
    obtain p where p: "findFileNode (fs s') f = Some p" "security (store (fs s') p) = si"
      using has(1) by (auto simp: sec_map_def)
    have "security_ok (security (store (fs s') p))"
      using ref(1) by (simp add: table_ok_def nodes_ok_def)
    then show ?thesis
      using wpf_get_security [of s' f path p E info r] has p ref(2) by simp
  qed
  then show ?thesis using ref same by simp
qed

text \<open>A first change of the security of one file, beside another file that has a descriptor.\<close>

definition sample_start :: ctx where
  "sample_start = new_ctx sample_globals\<lparr>fs := sample_nodes, SDCached := Some (replicate 20 2)\<rparr>"

lemma sample_start_ok: "table_ok (fs sample_start)"
  by (auto simp: sample_start_def table_ok_def nodes_ok_def names_distinct_def sample_nodes_def
      make_shared_def empty_nodes_def addFileNode_def findFileNode_def security_ok_def new_node_def
      no_security_def)

lemma sample_change:
  "wpf (dispatch sample_system (SetFileSecurity (W ''b'') 4 (replicate 20 1)))
    (\<lambda>_ s'. findFileNode (fs s') (W ''b'') = Some 1) (\<lambda>_ _. False) (load_info sample_info sample_start)"
  by (simp add: MirrorSetFileSecurity_def first_change_def with_handle_def wp_simps GetFilePath_at_eq
      new_ctx_def sample_globals_def Globals_of_def new_Globals_def mirror_path_def relative_part_def
      under_unc_def W_def c_str_def load_info_def sample_info_def wpf_ignore sample_system_def
      sample_nodes_def findFileNode_def node_name_def make_shared_def addFileNode_def empty_nodes_def
      wpf_cached_default sample_start_def bad_handle_def SetDescriptor_def isSelfRelative_def
      no_security_def new_node_def)

theorem mount_refines_security_witness:
  "\<exists>s' st. served sample_system sample_start [SetFileSecurity (W ''b'') 4 (replicate 20 1)] s' \<and>
     findFileNode (fs s') (W ''b'') = Some 1 \<and>
     wpf (MirrorGetFileSecurity sample_system (W ''a'') 4 64)
       (\<lambda>answer _. answer = (STATUS_SUCCESS, Some [1, 0, 4, 0x80], Some 4)) (\<lambda>_ _. False) s'"
proof -
  let ?r = "SetFileSecurity (W ''b'') 4 (replicate 20 1)"
  obtain s' where run: "dispatch sample_system ?r (load_info sample_info sample_start) = (Ret (), s')"
    and s': "findFileNode (fs s') (W ''b'') = Some 1"
    using sample_change by (auto simp: wpf_def simp del: dispatch.simps split: prod.splits outcome.splits)
  have served: "served sample_system sample_start [?r] s'"
    using served.answered [OF served.idle, of ?r sample_start sample_system sample_info s'] run by simp
  note table = sample_start_ok
  have sd: "sec_map (fs sample_start) (W ''a'') =
      Some \<lparr>strdescriptor = W ''D:'', descriptor = [1, 0, 4, 0x80], descriptor_size = 4\<rparr>"
    by (simp add: sec_map_def sample_start_def sample_nodes_def make_shared_def empty_nodes_def
        addFileNode_def findFileNode_def node_name_def W_def)
  have path: "GetFilePath_at (globals sample_start) (W ''a'') = Ret (W ''C:a'')"
    by (simp add: GetFilePath_at_eq sample_start_def new_ctx_def sample_globals_def Globals_of_def
        new_Globals_def mirror_path_def relative_part_def under_unc_def W_def c_str_def)
  have parts: "sec_GetPrivate sample_system [1, 0, 4, 0x80] 4 = Some [1, 0, 4, 0x80]"
    by (simp add: sample_system_def)
  have other: "list_all (\<lambda>r. W ''a'' \<notin> concerns r) [?r]" by (simp add: W_def)
  have "wpf (MirrorGetFileSecurity sample_system (W ''a'') 4 64)
      (\<lambda>answer _. answer = (STATUS_SUCCESS, Some [1, 0, 4, 0x80], Some 4)) (\<lambda>_ _. False) s'"
    by (rule wpf_mono [OF mount_refines_security [OF served table, THEN conjunct2, THEN conjunct2,
          THEN spec, THEN mp, OF other, THEN conjunct2, rule_format, OF conjI [OF sd conjI [OF _ conjI [OF path]]]]])
      (simp_all add: parts, simp)
  with served s' show ?thesis by blast
qed

subsection \<open>Where the nodes are not that map\<close>

text \<open>
  Renaming onto a name that has a node, which a replacing rename does: the replaced file's node is not
  removed, two nodes have the name, and the one listed first is found. When that is the replaced file's,
  the renamed file takes its security, and the own descriptor of the renamed file is not found under
  any name; and when that node is deleted the other one appears in its place.
\<close>

lemma find_before:
  "q \<in> set (takeWhile (\<lambda>x. x \<noteq> p) xs) \<Longrightarrow> find P xs = Some q \<Longrightarrow>
    find (\<lambda>x. x = p \<or> P x) xs = Some q"
  by (induction xs) (auto simp: find_Some_iff split: if_splits)

theorem replacing_rename_keeps_replaced_security:
  assumes "table_ok n" and "findFileNode n f = Some p" and "findFileNode n g = Some q" and "f \<noteq> g"
    and "q \<in> set (takeWhile (\<lambda>x. x \<noteq> p) (filenodes n))"
  shows "findFileNode (snd (rename f g n)) g = Some q \<and> findFileNode (snd (rename f g n)) f = None \<and>
    \<not> table_ok (snd (rename f g n)) \<and>
    findFileNode (snd (deleteFileNode g (snd (rename f g n)))) g = Some p"
proof -
  have p: "p \<in> set (filenodes n)" "node_name n p = f" and q: "q \<in> set (filenodes n)" "node_name n q = g"
    using find_in_filenodes [OF assms(2)] find_in_filenodes [OF assms(3)] by auto
  then have "q \<noteq> p" using assms(4) by auto
  have inj: "inj_on (node_name n) (set (filenodes n))"
    using assms(1) by (simp add: table_ok_def names_distinct_def distinct_map)
  let ?n = "snd (rename f g n)" and ?f = "(node_name n)(p := g)"
  have ren: "filenodes ?n = filenodes n" "node_name ?n = ?f"
    using p(1) assms(2) by (auto simp: rename_def set_name_def node_name_def)
  have "findFileNode ?n g = find (\<lambda>x. x = p \<or> node_name n x = g) (filenodes n)"
    by (simp add: findFileNode_def ren) (rule find_cong, auto)
  then have g: "findFileNode ?n g = Some q"
    using find_before [OF assms(5)] assms(3) by (simp add: findFileNode_def)
  have f: "findFileNode ?n f = None"
    using inj p assms(4) by (auto simp: find_none_iff ren inj_on_def)
  have twice: "\<not> table_ok ?n"
    using p(1) q \<open>q \<noteq> p\<close> by (auto simp: table_ok_def names_distinct_def ren distinct_map inj_on_def)
  have "findFileNode (snd (deleteFileNode g ?n)) g = find (\<lambda>x. ?f x = g) (removeAll q (filenodes n))"
    using g p(1) by (auto simp: deleteFileNode_def findFileNode_def ren)
  also have "\<dots> = find (\<lambda>x. x = p) (removeAll q (filenodes n))"
    using inj q by (intro find_cong) (auto simp: inj_on_def)
  also have "\<dots> = Some p"
    using p(1) \<open>q \<noteq> p\<close> find_None_iff [of "\<lambda>x. x = p" "removeAll q (filenodes n)"]
    by (cases "find (\<lambda>x. x = p) (removeAll q (filenodes n))") (auto dest: find_Some_iff [THEN iffD1])
  finally show ?thesis using f g twice by simp
qed

text \<open>The same for the handlers: after such a renaming the file answers with the replaced file's security.\<close>

theorem replaced_file_keeps_security:
  assumes "table_ok (fs s)" and "findFileNode (fs s) f = Some p" and "findFileNode (fs s) g = Some q"
    and "f \<noteq> g" and "q \<in> set (takeWhile (\<lambda>x. x \<noteq> p) (filenodes (fs s)))"
    and "descriptor_size (security (store (fs s) q)) \<noteq> 0"
    and "sec_GetPrivate E (descriptor (security (store (fs s) q))) info = Some r"
    and "GetFilePath_at (globals s) f = Ret path" and "live (Context s)"
    and "g \<noteq> []" "hd g \<noteq> COLON" "GetFilePath_at (globals s) g = Ret target"
    and "sec_HeapAlloc E (trace s) (rename_info_size target)"
    and "os_handle E (trace s) (SetRenameCall True target) (Context s)"
    and "of_nat (length r) \<le> len"
  shows "wpf (bind (MirrorMoveFile E f g True) (\<lambda>st.
         bind (MirrorGetFileSecurity E g info len) (\<lambda>answer. return (st, answer))))
    (\<lambda>(st, answer) s'. st = STATUS_SUCCESS \<and>
       answer = (STATUS_SUCCESS, Some r, Some (of_nat (length r)))) (\<lambda>_ _. False) s"
proof -
  have g: "findFileNode (snd (rename f g (fs s))) g = Some q"
    using replacing_rename_keeps_replaced_security [OF assms(1-5)] by simp
  have si: "security_ok (security (store (fs s) q))"
    using assms(1) by (simp add: table_ok_def nodes_ok_def)
  have "\<not> len < of_nat (length r)" using assms(15) by simp
  then show ?thesis
    by (simp add: wpf_bind [of "MirrorMoveFile E f g True"] wpf_move [OF assms(8-12)] assms(13,14)
        wpf_bind [of "MirrorGetFileSecurity E g info len"] wpf_return Let_def g
        wpf_get_security rename_security si assms(6,7,12))
qed

text \<open>
  Renaming a directory moves only its own node: the files in it keep their descriptors under their old
  names, where they do not exist any more, and have the default descriptor under their new ones.
\<close>

theorem renamed_directory_leaves_children:
  assumes "table_ok n" and "findFileNode n e = None"
    and "e \<noteq> d @ BACKSLASH # x" and "d \<noteq> e @ BACKSLASH # x"
  shows "sec_map (snd (rename d e n)) (d @ BACKSLASH # x) = sec_map n (d @ BACKSLASH # x) \<and>
    sec_map (snd (rename d e n)) (e @ BACKSLASH # x) = sec_map n (e @ BACKSLASH # x)"
  using rename_map [OF assms(1,2), of d] assms(3,4)
  by (auto simp: map_is_def split: if_splits)

end
