(* ===== verification/NodeRaces.thy ===== *)
theory NodeRaces
  imports SecurityMap
begin

text \<open>
  Requests served at the same time. The library calls the handlers from many threads; the mutex of
  class \<open>Nodes\<close> (seamless_smb_lib/nodes.h) makes each of its operations one step, and the mutex of a
  node the change of its descriptor. All handlers but one use the nodes once and are one step here;
  \<open>MirrorSetFileSecurity\<close> (seamless_smb_lib/filesecurity.cpp) looks the file up, then prepares or changes
  a descriptor, then adds the node, and other threads may run in between.
\<close>

subsection \<open>The steps of a thread\<close>

datatype progress = Fresh | Looked "ptr option" | Prepared ptr | Answered "ntstatus option"

record job =
  job_request :: request
  job_info :: dokan_file_info
  job_progress :: progress

definition look_up :: "wstr \<Rightarrow> progress handler" where
  "look_up fn =
    bind (GetFilePath fn) (\<lambda>path.
    bind (gets Context) (\<lambda>h.
    if bad_handle h then return (Answered (Some STATUS_INVALID_HANDLE))
    else bind (find_node fn) (\<lambda>node. return (Looked node))))"

definition prepare_node :: "secos \<Rightarrow> wstr \<Rightarrow> dword \<Rightarrow> sd \<Rightarrow> progress handler" where
  "prepare_node E fn info modification =
    bind (CreateDefaultSelfRelativeSD E) (\<lambda>(st, sdo).
    case sec_SetPrivate E info modification sdo of
      None \<Rightarrow> bind (last_status E) (\<lambda>st. return (Answered (Some st)))
    | Some d \<Rightarrow>
        bind (gets IsDirectory) (\<lambda>dir.
        bind (make_node E fn dir 0 (Some d)) (\<lambda>p. return (Prepared p))))"

fun set_step :: "secos \<Rightarrow> wstr \<Rightarrow> dword \<Rightarrow> sd \<Rightarrow> progress \<Rightarrow> progress handler" where
  "set_step E f i d Fresh = look_up f"
| "set_step E f i d (Looked (Some p)) = bind (change_node E p i d) (\<lambda>st. return (Answered (Some st)))"
| "set_step E f i d (Looked None) = prepare_node E f i d"
| "set_step E f i d (Prepared p) =
    bind (add_node (Some p)) (\<lambda>_. return (Answered (Some STATUS_SUCCESS)))"
| "set_step E f i d (Answered st) = return (Answered st)"

fun is_set :: "request \<Rightarrow> bool" where
  "is_set (SetFileSecurity f i d) = True"
| "is_set r = False"

fun advance :: "secos \<Rightarrow> request \<Rightarrow> progress \<Rightarrow> progress handler" where
  "advance E (SetFileSecurity f i d) x = set_step E f i d x"
| "advance E r x = (if x = Fresh then bind (dispatch E r) (\<lambda>_. return (Answered None)) else return x)"

text \<open>A thread that runs alone is the handler.\<close>

lemma bind_assoc: "bind (bind m f) g = bind m (\<lambda>a. bind (f a) g)"
  by (simp add: bind_def fun_eq_iff split: prod.split outcome.split)

lemma bind_return [simp]: "bind (return a) f = f a" "bind m return = m"
  by (simp_all add: bind_def return_def fun_eq_iff split: prod.split outcome.split)

lemma bind_cases:
  "bind (if b then m else m') f = (if b then bind m f else bind m' f)"
  "bind (case v of None \<Rightarrow> k | Some a \<Rightarrow> k' a) f = (case v of None \<Rightarrow> bind k f | Some a \<Rightarrow> bind (k' a) f)"
  "bind (case p of (a, b) \<Rightarrow> l a b) f = (case p of (a, b) \<Rightarrow> bind (l a b) f)"
  by (auto split: option.split prod.split)

lemma set_step_looked:
  "set_step E f i d (Looked node) = (case node of None \<Rightarrow> prepare_node E f i d
     | Some p \<Rightarrow> bind (change_node E p i d) (\<lambda>st. return (Answered (Some st))))"
  by (simp split: option.split)

theorem set_steps_sequential:
  "bind (set_step E f i d Fresh) (\<lambda>x. bind (set_step E f i d x) (set_step E f i d)) =
    bind (MirrorSetFileSecurity E f i d) (\<lambda>st. return (Answered (Some st)))"
  unfolding look_up_def prepare_node_def MirrorSetFileSecurity_def with_handle_def first_change_def
    set_step.simps(1) bind_assoc bind_cases bind_return set_step_looked set_step.simps(4,5) ..

subsection \<open>What a step leaves of the nodes\<close>

text \<open>
  \<open>frame U n n'\<close>: of the nodes that exist in \<open>n\<close> none is newly listed in \<open>n'\<close>, and only names of \<open>U\<close>
  are given.
\<close>

definition frame :: "wstr set \<Rightarrow> nodes \<Rightarrow> nodes \<Rightarrow> bool" where
  "frame U n n' \<longleftrightarrow> next_ptr n \<le> next_ptr n' \<and>
     (\<forall>p < next_ptr n. (p \<in> set (filenodes n') \<longrightarrow> p \<in> set (filenodes n)) \<and>
        (node_name n' p = node_name n p \<or> node_name n' p \<in> U))"

lemma frame_refl [simp]: "frame U n n"
  by (simp add: frame_def)

lemma node_name_counts [simp]: "node_name (n\<lparr>writeCounts := w\<rparr>) = node_name n"
  by (simp add: node_name_def fun_eq_iff)

lemma frame_make:
  assumes "frame U n n'"
  shows "frame U n (snd (make_shared x n'))"
    and "frame U n (snd (addFileNode (Some (next_ptr n')) (snd (make_shared x n'))))"
proof -
  have le: "next_ptr n \<le> next_ptr n'" using assms by (simp add: frame_def)
  have names: "node_name (snd (make_shared x n')) p = node_name n' p" if "p < next_ptr n" for p
    using that le by (simp add: make_shared_def node_name_def)
  show make: "frame U n (snd (make_shared x n'))"
    using assms names by (simp add: frame_def) (simp add: make_shared_def)
  have add: "next_ptr (snd (addFileNode (Some q) k)) = next_ptr k"
    "node_name (snd (addFileNode (Some q) k)) = node_name k"
    "set (filenodes (snd (addFileNode (Some q) k))) \<subseteq> insert q (set (filenodes k))" for q and k :: nodes
    by (auto simp: addFileNode_def split: option.split)
  have "next_ptr n' \<ge> next_ptr n" using le .
  then show "frame U n (snd (addFileNode (Some (next_ptr n')) (snd (make_shared x n'))))"
    using make add(3) [of "next_ptr n'" "snd (make_shared x n')"]
    unfolding frame_def add(1,2) by (auto dest!: subsetD)
qed

interpretation fr: growing "frame U n" f for U n f
  by unfold_locales (simp_all add: frame_make, simp add: frame_def)

lemma frame_table:
  "preserves (fs_inv (frame U n)) (delete_node f)"
  "g \<in> U \<Longrightarrow> preserves (fs_inv (frame U n)) (rename_node f g)"
  by (rule preserves_by_wpf;
      auto simp: wp_simps fs_inv_def frame_def deleteFileNode_def rename_def set_name_def node_name_def
        split: option.split)+

lemma frame_deletions:
  "preserves (fs_inv (frame U n)) (MirrorDeleteFile E f)"
  "preserves (fs_inv (frame U n)) (DeleteDirectory E f)"
  "g \<in> U \<Longrightarrow> preserves (fs_inv (frame U n)) (MirrorMoveFile E' f g b)"
  unfolding meta_handlers meta_steps rename_target_def Let_def
  by (intro fs_inv_intros frame_table; simp)+

lemma dispatch_frame:
  "\<not> is_set r \<Longrightarrow> concerns r \<subseteq> U \<Longrightarrow> preserves (fs_inv (frame U n)) (dispatch E r)"
  by (cases r) (auto simp: MirrorMounted_def MirrorUnmounted_def ignore_def
      intro!: preserves_intros fr.kept fr.create_kept frame_deletions)

subsection \<open>One step\<close>

text \<open>The nodes a thread still points to, and those it has made and not yet added.\<close>

fun refers :: "progress \<Rightarrow> ptr list" where
  "refers (Looked (Some p)) = [p]"
| "refers (Prepared p) = [p]"
| "refers x = []"

fun made :: "progress \<Rightarrow> ptr list" where
  "made (Prepared p) = [p]"
| "made x = []"

definition safe_step :: "wstr set \<Rightarrow> progress \<Rightarrow> nodes \<Rightarrow> progress \<Rightarrow> nodes \<Rightarrow> bool" where
  "safe_step U x n x' n' \<longleftrightarrow> table_ok n' \<and> (\<forall>f. f \<notin> U \<longrightarrow> sec_map n' f = sec_map n f) \<and>
     next_ptr n \<le> next_ptr n' \<and>
     (\<forall>p < next_ptr n. p \<in> set (filenodes n') \<longrightarrow> p \<in> set (filenodes n) \<or> p \<in> set (made x)) \<and>
     (\<forall>p < next_ptr n. node_name n' p = node_name n p \<or> node_name n' p \<in> U) \<and>
     (\<forall>p \<in> set (refers x'). p < next_ptr n' \<and> node_name n' p \<in> U) \<and>
     (x' = x \<and> n' = n \<or> made x' = [] \<or>
      (\<exists>p \<ge> next_ptr n. made x' = [p] \<and> p \<notin> set (filenodes n')))"

definition step_ready :: "wstr set \<Rightarrow> progress \<Rightarrow> nodes \<Rightarrow> bool" where
  "step_ready U x n \<longleftrightarrow> table_ok n \<and>
     (\<forall>p \<in> set (refers x). p < next_ptr n \<and> node_name n p \<in> U) \<and> (\<forall>p \<in> set (made x). p \<notin> set (filenodes n))"

lemma safe_stay: "step_ready U x n \<Longrightarrow> safe_step U x n x n"
  by (simp add: safe_step_def step_ready_def)

lemma safe_same:
  "table_ok n \<Longrightarrow> \<forall>p \<in> set (refers x'). p < next_ptr n \<and> node_name n p \<in> U \<Longrightarrow> made x' = [] \<Longrightarrow>
    safe_step U x n x' n"
  by (simp add: safe_step_def)

lemma safe_dispatch:
  assumes "table_ok (fs s)" and "fresh_target r (fs s)" and "concerns r \<subseteq> U" and "\<not> is_set r"
  shows "wpf (dispatch E r) (\<lambda>_ s'. safe_step U Fresh (fs s) (Answered None) (fs s')) (\<lambda>_ _. True) s"
proof (rule wpf_mono [OF wpf_conj])
  show "wpf (dispatch E r) (\<lambda>_ s'. follows r (fs s) (fs s')) (\<lambda>_ _. True) s"
    by (rule request_effect [OF assms(1,2)])
  show "wpf (dispatch E r) (\<lambda>_. fs_inv (frame U (fs s))) (\<lambda>_. fs_inv (frame U (fs s))) s"
    by (rule wpf_by_preserves [OF dispatch_frame [OF assms(4,3)]]) (simp add: fs_inv_def)
  show "safe_step U Fresh (fs s) (Answered None) (fs s')"
    if "follows r (fs s) (fs s') \<and> fs_inv (frame U (fs s)) s'" for s'
    using that assms(3) effect_frame [of r "sec_map (fs s)" "sec_map (fs s')"]
    by (auto simp: follows_def fs_inv_def frame_def safe_step_def)
qed simp

lemma safe_look_up:
  assumes "table_ok (fs s)" and "f \<in> U"
  shows "wpf (look_up f) (\<lambda>x' s'. safe_step U Fresh (fs s) x' (fs s')) (\<lambda>_ _. True) s"
proof -
  have "safe_step U Fresh (fs s) (Looked (findFileNode (fs s) f)) (fs s)"
    using assms find_in_filenodes [of "fs s" f] find_below [OF table_nodes_ok [OF assms(1)], of f]
    by (cases "findFileNode (fs s) f") (auto intro!: safe_same)
  then show ?thesis
    using assms(1) by (auto simp: look_up_def wp_simps intro!: safe_same split: outcome.split)
qed

lemma safe_prepare:
  assumes "table_ok (fs s)" and "f \<in> U"
  shows "wpf (prepare_node E f i d) (\<lambda>x' s'. safe_step U (Looked None) (fs s) x' (fs s')) (\<lambda>_ _. True) s"
proof -
  have made: "safe_step U (Looked None) (fs s) (Prepared (next_ptr (fs s)))
      (snd (make_shared (new_node f dir a\<lparr>security := si\<rparr>) (fs s)))"
    if "SetDescriptor E sdo no_security = Ret si" for dir a sdo si
    using table_make_shared [OF assms(1), of "new_node f dir a\<lparr>security := si\<rparr>"] assms
      SetDescriptor_ok [OF that security_ok_no_security]
    by (auto simp: safe_step_def map_is_def) (auto simp: make_shared_def node_name_def new_node_def
        table_ok_def nodes_ok_def)
  show ?thesis
    unfolding prepare_node_def wpf_bind [of "CreateDefaultSelfRelativeSD E"]
    by (rule wpf_keeps_fs [OF fs_inv_default])
      (use assms(1) in \<open>auto simp: wp_simps intro: made intro!: safe_same split: option.split outcome.split\<close>)
qed

lemma safe_change:
  assumes "table_ok (fs s)" and "p < next_ptr (fs s)" "node_name (fs s) p \<in> U"
  shows "wpf (change_node E p i d)
    (\<lambda>st s'. safe_step U (Looked (Some p)) (fs s) (Answered (Some st)) (fs s')) (\<lambda>_ _. True) s"
proof -
  have si: "security_ok (security (store (fs s) p))"
    using assms(1) by (simp add: table_ok_def nodes_ok_def)
  have upd: "safe_step U (Looked (Some p)) (fs s) (Answered st) (set_security p si' (fs s))"
    if si': "security_ok si'" for st si'
  proof -
    let ?n = "set_security p si' (fs s)"
    have names: "node_name ?n = node_name (fs s)" "filenodes ?n = filenodes (fs s)"
      "next_ptr ?n = next_ptr (fs s)" by (auto simp: set_security_def node_name_def)
    then have look: "findFileNode ?n = findFileNode (fs s)" by (simp add: findFileNode_def fun_eq_iff)
    have "sec_map ?n f = sec_map (fs s) f" if "f \<notin> U" for f
    proof (cases "findFileNode (fs s) f")
      case (Some q)
      then have "q \<noteq> p" using find_in_filenodes [OF Some] assms(3) that by auto
      then show ?thesis using Some by (simp add: sec_map_def look) (simp add: set_security_def)
    qed (simp add: sec_map_def look)
    moreover have "table_ok ?n"
      using assms(1) nodes_ok_set_security [OF _ si'] names by (simp add: table_ok_def names_distinct_def)
    ultimately show ?thesis by (simp add: safe_step_def names)
  qed
  show ?thesis
    unfolding change_node_def wpf_bind wpf_gets
    by (rule wpf_keeps_fs [OF GetDescriptor_fs])
      (use assms(1) in \<open>auto simp: wp_simps Let_def intro: upd intro!: safe_same
        dest!: SetDescriptor_ok [OF _ si] split: option.split outcome.split\<close>)
qed

lemma safe_add:
  assumes "step_ready U (Prepared p) (fs s)"
  shows "wpf (add_node (Some p)) (\<lambda>_ s'. safe_step U (Prepared p) (fs s) (Answered st) (fs s')) (\<lambda>_ _. True) s"
proof -
  let ?n = "snd (addFileNode (Some p) (fs s))"
  have p: "table_ok (fs s)" "unlisted (fs s) p" "node_name (fs s) p \<in> U"
    using assms by (simp_all add: step_ready_def unlisted_def)
  have same: "next_ptr ?n = next_ptr (fs s)" "node_name ?n = node_name (fs s)" "store ?n = store (fs s)"
    "set (filenodes ?n) \<subseteq> insert p (set (filenodes (fs s)))"
    by (auto simp: addFileNode_def split: option.split)
  have "findFileNode ?n f = findFileNode (fs s) f" if "f \<notin> U" for f
  proof (cases "findFileNode (fs s) (node_name (fs s) p)")
    case None
    then show ?thesis using nt.lookup_insert [OF p(1,2) None] p(3) that by auto
  qed (simp add: nt.insert_present)
  then show ?thesis
    using nt.inv_insert [OF p(1,2)] same by (auto simp: wp_simps safe_step_def sec_map_def)
qed

lemma advance_safe:
  assumes "step_ready U x (fs s)" and "fresh_target r (fs s)" and "concerns r \<subseteq> U"
  shows "wpf (advance E r x) (\<lambda>x' s'. safe_step U x (fs s) x' (fs s')) (\<lambda>_ _. True) s"
proof (cases "is_set r")
  case False
  have ok: "table_ok (fs s)" using assms(1) by (simp add: step_ready_def)
  have "advance E r x = (if x = Fresh then bind (dispatch E r) (\<lambda>_. return (Answered None)) else return x)"
    using False by (cases r) simp_all
  then show ?thesis
    using safe_dispatch [OF ok assms(2,3) False, of E] safe_stay [OF assms(1)]
    by (simp add: wpf_bind wpf_return [abs_def] del: dispatch.simps)
next
  case True
  then obtain f i d where r: "r = SetFileSecurity f i d" by (cases r) auto
  have ok: "table_ok (fs s)" "f \<in> U" using assms(1,3) r by (simp_all add: step_ready_def)
  show ?thesis
  proof (cases "(E, f, i, d, x)" rule: set_step.cases)
    case (2 E f i d p)
    then show ?thesis
      using safe_change [OF ok(1), of p U E i d] assms(1) r by (simp add: wpf_bind wpf_return [abs_def] step_ready_def)
  qed (use assms(1) r safe_look_up [OF ok] safe_prepare [OF ok] safe_add safe_stay in \<open>auto simp: wp_simps\<close>)
qed

subsection \<open>Many threads\<close>

text \<open>
  The threads of a mount, all those ever started, in the order in which the requests arrived. Any of
  them may make the next step; a renaming makes its own onto a name that has no node then.
\<close>

inductive interleaved :: "secos \<Rightarrow> ctx \<Rightarrow> ctx \<Rightarrow> job list \<Rightarrow> bool" for E s0 where
  quiet: "interleaved E s0 s0 []"
| arrives: "interleaved E s0 s js \<Longrightarrow>
    interleaved E s0 s (js @ [\<lparr>job_request = r, job_info = i, job_progress = Fresh\<rparr>])"
| moves: "interleaved E s0 s (xs @ j # ys) \<Longrightarrow> fresh_target (job_request j) (fs s) \<Longrightarrow>
    advance E (job_request j) (job_progress j) (load_info (job_info j) s) = (Ret x, s') \<Longrightarrow>
    interleaved E s0 s' (xs @ j\<lparr>job_progress := x\<rparr> # ys)"
| notices: "interleaved E s0 s js \<Longrightarrow>
    interleaved E s0 (s\<lparr>cache := MonitorDirectoryChanges ws (cache s)\<rparr>) js"

abbreviation unadded :: "job list \<Rightarrow> ptr list" where
  "unadded js \<equiv> concat (map (\<lambda>j. made (job_progress j)) js)"

definition races_ok :: "wstr set \<Rightarrow> nodes \<Rightarrow> job list \<Rightarrow> bool" where
  "races_ok U n js \<longleftrightarrow> table_ok n \<and>
     (\<forall>j \<in> set js. \<forall>p \<in> set (refers (job_progress j)). p < next_ptr n \<and> node_name n p \<in> U) \<and>
     distinct (unadded js) \<and> set (unadded js) \<inter> set (filenodes n) = {}"

lemma made_refers: "p \<in> set (made x) \<Longrightarrow> p \<in> set (refers x)"
  by (cases x) auto

lemma races_ready: "races_ok U n (xs @ j # ys) \<Longrightarrow> step_ready U (job_progress j) n"
  by (auto simp: races_ok_def step_ready_def)

lemma races_step:
  assumes "races_ok U n (xs @ j # ys)" and "safe_step U (job_progress j) n x' n'"
  shows "races_ok U n' (xs @ j\<lparr>job_progress := x'\<rparr> # ys)"
proof -
  let ?x = "job_progress j" and ?others = "unadded xs @ unadded ys"
  have below: "p < next_ptr n" if "k \<in> set xs \<union> set ys" "p \<in> set (refers (job_progress k))" for k p
    using that assms(1) by (auto simp: races_ok_def)
  then have below_made: "p < next_ptr n" if "p \<in> set ?others" for p
    using that by (auto dest!: made_refers)
  have refs: "\<forall>k \<in> set xs \<union> set ys. \<forall>p \<in> set (refers (job_progress k)). p < next_ptr n' \<and> node_name n' p \<in> U"
  proof (intro ballI)
    fix k p
    assume k: "k \<in> set xs \<union> set ys" "p \<in> set (refers (job_progress k))"
    then have "node_name n p \<in> U" using assms(1) by (auto simp: races_ok_def)
    moreover have "node_name n' p = node_name n p \<or> node_name n' p \<in> U" "next_ptr n \<le> next_ptr n'"
      using assms(2) below [OF k] by (auto simp: safe_step_def)
    ultimately show "p < next_ptr n' \<and> node_name n' p \<in> U" using below [OF k] by auto
  qed
  have apart: "distinct ?others" "set ?others \<inter> set (made ?x) = {}" "set ?others \<inter> set (filenodes n) = {}"
    using assms(1) by (auto simp: races_ok_def)
  define rest where "rest = set ?others"
  have sets: "\<forall>p \<in> rest. p < next_ptr n" "rest \<inter> set (made ?x) = {}" "rest \<inter> set (filenodes n) = {}"
    using apart(2,3) below_made by (simp_all only: rest_def) blast
  then have out: "rest \<inter> set (filenodes n') = {}"
    using assms(2) unfolding safe_step_def by blast
  have own: "distinct (made x') \<and> set (made x') \<inter> rest = {} \<and> set (made x') \<inter> set (filenodes n') = {}"
  proof -
    consider "x' = ?x" "n' = n" | "made x' = []" | p where "next_ptr n \<le> p" "made x' = [p]" "p \<notin> set (filenodes n')"
      using assms(2) by (auto simp: safe_step_def)
    then show ?thesis
    proof cases
      case 1
      then show ?thesis using assms(1) sets(2) by (auto simp: races_ok_def)
    qed (use sets(1) in auto)
  qed
  have "distinct (unadded (xs @ j\<lparr>job_progress := x'\<rparr> # ys))"
    using own apart(1) by (auto simp: rest_def)
  moreover have "set (unadded (xs @ j\<lparr>job_progress := x'\<rparr> # ys)) = rest \<union> set (made x')"
    by (auto simp: rest_def)
  ultimately show ?thesis
    using refs out own assms(2) unfolding races_ok_def safe_step_def by auto
qed

lemma interleaved_races:
  "interleaved E s0 s js \<Longrightarrow> table_ok (fs s0) \<Longrightarrow> \<forall>j \<in> set js. concerns (job_request j) \<subseteq> U \<Longrightarrow>
    races_ok U (fs s) js \<and> (\<forall>f. f \<notin> U \<longrightarrow> sec_map (fs s) f = sec_map (fs s0) f)"
proof (induction rule: interleaved.induct)
  case quiet
  then show ?case by (simp add: races_ok_def)
next
  case (arrives s js r i)
  then show ?case by (simp add: races_ok_def)
next
  case (moves s xs j ys x s')
  then have IH: "races_ok U (fs s) (xs @ j # ys)" "\<forall>f. f \<notin> U \<longrightarrow> sec_map (fs s) f = sec_map (fs s0) f"
    and U: "concerns (job_request j) \<subseteq> U" by auto
  have ready: "step_ready U (job_progress j) (fs (load_info (job_info j) s))"
    using races_ready [OF IH(1)] by simp
  have "fresh_target (job_request j) (fs (load_info (job_info j) s))" using moves.hyps(2) by simp
  from run_by_wpf [OF moves.hyps(3) advance_safe [OF ready this U]]
  have safe: "safe_step U (job_progress j) (fs s) x (fs s')" by simp
  then have "\<forall>f. f \<notin> U \<longrightarrow> sec_map (fs s') f = sec_map (fs s) f" by (simp add: safe_step_def)
  then show ?case using races_step [OF IH(1) safe] IH(2) by simp
next
  case (notices s js ws)
  then show ?case by simp
qed

text \<open>
  C6: Requests served at the same time do not disturb other files. In every interleaving of any number
  of threads, at the granularity of the locks, in which each renaming goes onto a name that has no node
  when it is done (\<open>interleaved\<close>), the nodes stay a map from names to descriptors, no node
  that a thread is about to add is listed already, and a name that none of the requests concerns keeps
  its descriptor. A renaming that replaces a file breaks the map even when it is alone.
\<close>

theorem interleaving_isolates:
  assumes "interleaved E s0 s js" and "table_ok (fs s0)"
  shows "table_ok (fs s) \<and>
    list_all (\<lambda>j. case job_progress j of Prepared p \<Rightarrow> p \<notin> set (filenodes (fs s)) | _ \<Rightarrow> True) js \<and>
    (\<forall>f. list_all (\<lambda>j. f \<notin> concerns (job_request j)) js \<longrightarrow> sec_map (fs s) f = sec_map (fs s0) f)"
proof -
  let ?U = "\<Union>j \<in> set js. concerns (job_request j)"
  have inv: "races_ok ?U (fs s) js" "\<forall>f. f \<notin> ?U \<longrightarrow> sec_map (fs s) f = sec_map (fs s0) f"
    using interleaved_races [OF assms, of ?U] by auto
  have "p \<notin> set (filenodes (fs s))" if j: "j \<in> set js" "job_progress j = Prepared p" for j p
  proof -
    have "p \<in> set (unadded js)" using j by force
    then show ?thesis using inv(1) unfolding races_ok_def by blast
  qed
  then show ?thesis
    using inv by (auto simp: races_ok_def list_all_iff split: progress.split)
qed

definition sample_job :: "progress \<Rightarrow> job" where
  "sample_job x = \<lparr>job_request = SetFileSecurity (W ''b'') 4 (replicate 20 1), job_info = sample_info,
     job_progress = x\<rparr>"

lemma sample_look_up:
  "wpf (look_up (W ''b'')) (\<lambda>x s'. x = Looked None \<and> globals s' = globals s \<and> fs s' = fs s) (\<lambda>_ _. False)
     (load_info sample_info s)"
  if "globals s = globals sample_start" "fs s = fs sample_start"
  using that
  by (simp add: look_up_def wp_simps GetFilePath_at_eq sample_start_def new_ctx_def sample_globals_def
      Globals_of_def new_Globals_def mirror_path_def relative_part_def under_unc_def W_def c_str_def
      load_info_def sample_info_def bad_handle_def sample_nodes_def findFileNode_def node_name_def
      make_shared_def addFileNode_def empty_nodes_def)

theorem interleaving_isolates_witness:
  "\<exists>s. interleaved sample_system sample_start s [sample_job (Looked None), sample_job (Looked None)] \<and>
     sec_map (fs s) (W ''a'') = sec_map (fs sample_start) (W ''a'')"
proof -
  let ?run = "interleaved sample_system sample_start"
  have "?run sample_start [sample_job Fresh]"
    using interleaved.arrives [OF interleaved.quiet] by (simp add: sample_job_def)
  then have two: "?run sample_start ([sample_job Fresh] @ [sample_job Fresh])"
    using interleaved.arrives [of sample_system sample_start sample_start "[sample_job Fresh]"]
    by (simp only: sample_job_def)
  obtain s1 where one: "look_up (W ''b'') (load_info sample_info sample_start) = (Ret (Looked None), s1)"
    and s1: "globals s1 = globals sample_start" "fs s1 = fs sample_start"
    using sample_look_up [of sample_start] by (auto simp: wpf_def split: prod.splits outcome.splits)
  obtain s2 where other: "look_up (W ''b'') (load_info sample_info s1) = (Ret (Looked None), s2)"
    using sample_look_up [OF s1] by (auto simp: wpf_def split: prod.splits outcome.splits)
  have "?run s1 [sample_job (Looked None), sample_job Fresh]"
    using interleaved.moves [of sample_system sample_start sample_start "[]" "sample_job Fresh"
        "[sample_job Fresh]" "Looked None" s1] two one
    by (simp add: sample_job_def)
  then have run: "?run s2 [sample_job (Looked None), sample_job (Looked None)]"
    using interleaved.moves [of sample_system sample_start s1 "[sample_job (Looked None)]" "sample_job Fresh"
        "[]" "Looked None" s2] other
    by (simp add: sample_job_def)
  have "list_all (\<lambda>j. W ''a'' \<notin> concerns (job_request j)) [sample_job (Looked None), sample_job (Looked None)]"
    by (simp add: sample_job_def W_def)
  from interleaving_isolates [OF run sample_start_ok, THEN conjunct2, THEN conjunct2, rule_format, OF this] run
  show ?thesis by blast
qed

subsection \<open>What else holds between the threads\<close>

text \<open>
  The confinement of the mount and its tables do not depend on the order of the threads, and a thread
  comes to its end: each of its steps that is not its last takes it nearer.
\<close>

lemma adds_steps:
  "preserves (adds (confined g) g t) (advance E r x)"
proof (cases "is_set r")
  case False
  then have "advance E r x =
      (if x = Fresh then bind (dispatch E r) (\<lambda>_. return (Answered None)) else return x)"
    by (cases r) simp_all
  then show ?thesis
    by (auto intro!: preserves_intros dispatch_confined)
next
  case True
  then obtain f i d where r: "r = SetFileSecurity f i d" by (cases r) auto
  show ?thesis
    unfolding r advance.simps
    by (cases "(E, f, i, d, x)" rule: set_step.cases)
      (simp_all add: look_up_def prepare_node_def change_node_def GetDescriptor_def Let_def,
        (intro adds_intros adds_default; simp)+)
qed

theorem interleaved_confined:
  "interleaved E s0 s js \<Longrightarrow> globals s = globals s0 \<and>
    (list_all (confined (globals s0)) (trace s0) \<longrightarrow> list_all (confined (globals s0)) (trace s))"
proof (induction rule: interleaved.induct)
  case (moves s xs j ys x s')
  let ?g = "globals s0"
  have "adds (confined ?g) ?g (trace s) (load_info (job_info j) s)"
    using moves.IH by (simp add: adds_def)
  then have "adds (confined ?g) ?g (trace s) s'"
    by (rule preserves_run [OF adds_steps _ moves.hyps(3)])
  then show ?case using moves.IH by (auto simp: adds_def)
qed simp_all

fun steps_left :: "progress \<Rightarrow> nat" where
  "steps_left Fresh = 3"
| "steps_left (Looked p) = 2"
| "steps_left (Prepared p) = 1"
| "steps_left (Answered st) = 0"

lemma set_step_nearer:
  "0 < steps_left x \<Longrightarrow> wpf (set_step E f i d x) (\<lambda>x' _. steps_left x' < steps_left x) (\<lambda>_ _. True) s"
proof (cases "(E, f, i, d, x)" rule: set_step.cases)
  case (3 E f i d)
  have "wpf (prepare_node E f i d) (\<lambda>x' _. steps_left x' < 2) (\<lambda>_ _. True) s"
    unfolding prepare_node_def wpf_bind [of "CreateDefaultSelfRelativeSD E"]
    by (rule wpf_keeps_fs [OF fs_inv_default])
      (auto simp: wp_simps split: option.split outcome.split)
  then show ?thesis using 3 by simp
next
  case (2 E f i d p)
  have "wpf (change_node E p i d) (\<lambda>_ _. True) (\<lambda>_ _. True) s" by (simp add: wpf_def split: prod.split outcome.split)
  then show ?thesis using 2 by (simp add: wpf_bind wpf_return [abs_def])
qed (auto simp: look_up_def wp_simps split: outcome.split)

subsection \<open>A change that is lost\<close>

lemma second_add_refused:
  assumes "table_ok n" and "findFileNode n f = None" and "fileName x = f" "fileName y = f"
    and "security_ok (security x)" "security_ok (security y)"
  shows "sec_map (snd (addFileNode (Some (next_ptr (snd (make_shared x n)))) (snd (addFileNode
      (Some (next_ptr n)) (snd (make_shared y (snd (make_shared x n)))))))) f = Some (security x)"
proof -
  let ?n1 = "snd (make_shared x n)" and ?n2 = "snd (make_shared y (snd (make_shared x n)))"
  let ?p = "next_ptr n" and ?q = "next_ptr (snd (make_shared x n))"
  let ?n3 = "snd (addFileNode (Some ?p) ?n2)"
  have n1: "table_ok ?n1" "table_ok ?n2"
    using table_make_shared [OF assms(1,5)] table_make_shared [OF _ assms(6), of ?n1]
    by (simp_all add: map_is_def)
  have look: "findFileNode ?n2 = findFileNode n"
    using find_make_shared [OF table_nodes_ok] assms(1) n1(1) by simp
  have p: "unlisted ?n2 ?p" "node_name ?n2 ?p = f" "node_name ?n2 ?q = f" "store ?n2 ?p = x"
    using assms(1,3,4) by (auto simp: unlisted_def table_ok_def nodes_ok_def make_shared_def node_name_def)
  have "findFileNode ?n3 = (findFileNode n)(f \<mapsto> ?p)"
    using nt.lookup_insert [OF n1(2) p(1)] p(2) look assms(2) by simp
  moreover have same: "store ?n3 = store ?n2" "node_name ?n3 = node_name ?n2"
    by (auto simp: addFileNode_def node_name_def split: option.split)
  ultimately have "snd (addFileNode (Some ?q) ?n3) = ?n3" and "findFileNode ?n3 f = Some ?p"
    using nt.insert_present [of ?n3 ?q] p(3) by simp_all
  then show ?thesis using p(4) same(1) by (simp add: sec_map_def)
qed

text \<open>
  Two threads change the security of one file for the first time, and both look it up before either
  has added a node. Both report success, but the node of the second is refused, which nothing
  tests: its change is lost. One after the other, the second changes the node of the first.
\<close>

theorem simultaneous_first_changes:
  assumes "table_ok (fs s)" and "findFileNode (fs s) f = None" and "GetFilePath_at (globals s) f = Ret path"
    and "live (Context s)" and "SDCached s = Some d0"
    and "sec_SetPrivate E i m (Some d0) = Some d" and "SetDescriptor E (Some d) no_security = Ret si"
    and "sec_SetPrivate E i' m' (Some d0) = Some d'" and "SetDescriptor E (Some d') no_security = Ret si'"
  shows "wpf
      (bind (set_step E f i m Fresh) (\<lambda>x. bind (set_step E f i' m' Fresh) (\<lambda>y.
       bind (set_step E f i m x) (\<lambda>x. bind (set_step E f i' m' y) (\<lambda>y.
       bind (set_step E f i m x) (\<lambda>x. bind (set_step E f i' m' y) (\<lambda>y. return (x, y))))))))
    (\<lambda>(x, y) s'. x = Answered (Some STATUS_SUCCESS) \<and> y = Answered (Some STATUS_SUCCESS) \<and>
       sec_map (fs s') f = Some si) (\<lambda>_ _. False) s"
proof -
  have "\<not> bad_handle (Context s)" using assms(4) by (simp add: bad_handle_def live_def)
  moreover have "sec_map (snd (addFileNode (Some (next_ptr (snd (make_shared x (fs s))))) (snd (addFileNode
      (Some (next_ptr (fs s))) (snd (make_shared y (snd (make_shared x (fs s))))))))) f = Some si"
    if "x = new_node f (IsDirectory s) 0\<lparr>security := si\<rparr>" "y = new_node f (IsDirectory s) 0\<lparr>security := si'\<rparr>"
    for x y
    using second_add_refused [OF assms(1,2), of x y] that SetDescriptor_ok [OF assms(7) security_ok_no_security]
      SetDescriptor_ok [OF assms(9) security_ok_no_security] by (simp add: new_node_def)
  ultimately show ?thesis
    using assms by (simp add: look_up_def prepare_node_def wp_simps wpf_cached_default)
qed

end
