(* ===== verification/NoFault.thy ===== *)
theory NoFault
  imports Dispatch
begin

text \<open>
  When the handlers have a defined result. Every place of the handlers where the C++ code could leave an
  object, use a null pointer or be stopped by the runtime is a \<open>Fault\<close> of the model; here are conditions
  on the system, the configuration and the request under which none is reached, so that the request
  is answered. The remaining reads of variables never written give values that are not faults in the
  model (theory FileSecurity), and what the handlers print is left out.
\<close>

subsection \<open>Programs that do not fault\<close>

definition safe :: "('s \<Rightarrow> bool) \<Rightarrow> ('s, 'a) prog \<Rightarrow> bool" where
  "safe I m \<longleftrightarrow> (\<forall>s. I s \<longrightarrow> wpf m (\<lambda>_. I) (\<lambda>_ _. False) s)"

named_theorems safe_intros

lemma safeD: "safe I m \<Longrightarrow> I s \<Longrightarrow> wpf m (\<lambda>_. I) (\<lambda>_ _. False) s"
  by (simp add: safe_def)

lemma safe_basic [safe_intros]:
  "safe I (return a)" "safe I (gets f)"
  by (simp_all add: safe_def wp_simps)

lemma safe_modify: "(\<And>s. I s \<Longrightarrow> I (f s)) \<Longrightarrow> safe I (modify f)"
  by (simp add: safe_def wp_simps)

lemma safe_bind_value:
  assumes "\<And>s. I s \<Longrightarrow> wpf m (\<lambda>a s'. I s' \<and> P a) (\<lambda>_ _. False) s" and "\<And>a. P a \<Longrightarrow> safe I (f a)"
  shows "safe I (bind m f)"
  unfolding safe_def wpf_bind
  by (intro allI impI, rule wpf_mono [OF assms(1)]) (auto dest: safeD [OF assms(2)])

lemma safe_bind [safe_intros]: "safe I m \<Longrightarrow> (\<And>a. safe I (f a)) \<Longrightarrow> safe I (bind m f)"
  by (rule safe_bind_value [where P = "\<lambda>_. True"]) (simp_all add: safe_def)

lemma safe_cases [safe_intros]:
  "(b \<Longrightarrow> safe I m) \<Longrightarrow> (\<not> b \<Longrightarrow> safe I m') \<Longrightarrow> safe I (if b then m else m')"
  "(b \<Longrightarrow> safe I k) \<Longrightarrow> safe I (whenM b k)"
  "(v = None \<Longrightarrow> safe I m) \<Longrightarrow> (\<And>a. v = Some a \<Longrightarrow> safe I (h a)) \<Longrightarrow>
    safe I (case v of None \<Rightarrow> m | Some a \<Rightarrow> h a)"
  "(\<And>a. x = Inl a \<Longrightarrow> safe I (l a)) \<Longrightarrow> (\<And>b. x = Inr b \<Longrightarrow> safe I (r b)) \<Longrightarrow>
    safe I (case x of Inl a \<Rightarrow> l a | Inr b \<Rightarrow> r b)"
  "(\<And>a b. p = (a, b) \<Longrightarrow> safe I (q a b)) \<Longrightarrow> safe I (case p of (a, b) \<Rightarrow> q a b)"
  "safe I (q (fst p) (snd p)) \<Longrightarrow> safe I (case p of (a, b) \<Rightarrow> q a b)"
  by (auto simp: whenM_def safe_basic split: option.split sum.split prod.split)

lemma safe_let: "(\<And>x. x = a \<Longrightarrow> safe I (f x)) \<Longrightarrow> safe I (let x = a in f x)"
  by (simp add: Let_def)

subsection \<open>The system, the configuration and the request\<close>

text \<open>
  The security API may fail at any call. What one request needs of it: the descriptor the request stores
  can be stored (it has the length it states, and a text), and the descriptor the file has is there, its
  own or the default one as it is built or cached in this state.
\<close>

definition storable :: "('a) secos_scheme \<Rightarrow> sd \<Rightarrow> bool" where
  "storable E d \<longleftrightarrow> (case SetDescriptor E (Some d) no_security of Ret _ \<Rightarrow> True | Fault _ \<Rightarrow> False)"

definition default_of :: "('a) secos_scheme \<Rightarrow> ctx \<Rightarrow> sd option" where
  "default_of E s = (case fst (CreateDefaultSelfRelativeSD E s) of Ret (_, sdo) \<Rightarrow> sdo | Fault _ \<Rightarrow> None)"

definition descriptor_of :: "('a) secos_scheme \<Rightarrow> ctx \<Rightarrow> wstr \<Rightarrow> sd option" where
  "descriptor_of E s fn =
     (case findFileNode (fs s) fn of
        None \<Rightarrow> default_of E s
      | Some p \<Rightarrow>
          (let si = security (store (fs s) p) in
           if descriptor_size si \<noteq> 0 then Some (descriptor si) else default_of E s))"

fun descriptors_fit :: "('a) secos_scheme \<Rightarrow> ctx \<Rightarrow> request \<Rightarrow> bool" where
  "descriptors_fit E s (ZwCreateFile f a att sh d opt) =
     (case SecurityDescriptor s of None \<Rightarrow> True | Some d \<Rightarrow> storable E d)"
| "descriptors_fit E s (GetFileSecurity f i n) = (descriptor_of E s f \<noteq> None)"
| "descriptors_fit E s (SetFileSecurity f i m) =
     (case descriptor_of E s f of
        None \<Rightarrow> False
      | Some d \<Rightarrow> storable E (case sec_SetPrivate E i m (Some d) of None \<Rightarrow> d | Some x \<Rightarrow> x))"
| "descriptors_fit E s r = True"

definition fits :: "globals \<Rightarrow> wstr \<Rightarrow> bool" where
  "fits g fn \<longleftrightarrow> length (mirror_path g fn) < DOKAN_MAX_PATH"

text \<open>
  The request: its names fit the path buffer, a listed directory has a path, the buffer of a write is as
  long as said, the buffers for the volume's names hold them, and a read of the special file answered from
  the cache does not leave the cached block.
\<close>

fun request_fits :: "globals \<Rightarrow> cache \<Rightarrow> request \<Rightarrow> bool" where
  "request_fits g c (ZwCreateFile f a att sh d opt) = fits g f"
| "request_fits g c (Cleanup f) = fits g f"
| "request_fits g c (CloseFile f) = fits g f"
| "request_fits g c (Read f n off) =
    (fits g f \<and> (f \<noteq> bzvolfile \<or> (case cached_read c n off of Some (Fault e) \<Rightarrow> False | _ \<Rightarrow> True)))"
| "request_fits g c (Write f bs n off) = (fits g f \<and> unat n \<le> length bs)"
| "request_fits g c (FlushFileBuffers f) = fits g f"
| "request_fits g c (GetFileInformation f i) = fits g f"
| "request_fits g c (FindFiles f) = (fits g f \<and> mirror_path g f \<noteq> [])"
| "request_fits g c (SetFileAttributes f a) = fits g f"
| "request_fits g c (SetFileTime f cr a w) = fits g f"
| "request_fits g c (RemoveFile f) = fits g f"
| "request_fits g c (RemoveDirectory f) = (fits g f \<and> mirror_path g f \<noteq> [])"
| "request_fits g c (MoveFile f f' b) =
    (fits g f \<and> (if f' \<noteq> [] \<and> hd f' \<noteq> COLON then fits g f' else length f' < DOKAN_MAX_PATH))"
| "request_fits g c (SetEndOfFile f off) = fits g f"
| "request_fits g c (SetAllocationSize f n) = fits g f"
| "request_fits g c (LockFile f off n) = fits g f"
| "request_fits g c (UnlockFile f off n) = fits g f"
| "request_fits g c (GetFileSecurity f i n) = fits g f"
| "request_fits g c (SetFileSecurity f i d) = fits g f"
| "request_fits g c (GetVolumeInformation n m w) = (length (c_str (m_volname g)) < unat n \<and> 4 < unat m)"
| "request_fits g c (FindStreams f) = fits g f"
| "request_fits g c r = True"

text \<open>
  The state: the configuration, descriptors of their stated length, and the descriptor that came with
  the request, if it is still there, one of \<open>X\<close>.
\<close>

definition sound :: "sd option set \<Rightarrow> globals \<Rightarrow> ctx \<Rightarrow> bool" where
  "sound X g s \<longleftrightarrow> globals s = g \<and> SecurityDescriptor s \<in> X \<and>
     (\<forall>p. security_ok (security (store (fs s) p)))"

lemma sound_any: "sound X g s \<Longrightarrow> sound UNIV g s"
  by (simp add: sound_def)

lemma safe_syscall: "safe (sound X g) (syscall f ev)"
  by (simp add: safe_def wp_simps sound_def)

lemma safe_frame [safe_intros]:
  "(\<And>s. globals (f s) = globals s) \<Longrightarrow> (\<And>s. SecurityDescriptor (f s) = SecurityDescriptor s) \<Longrightarrow>
    (\<And>s. store (fs (f s)) = store (fs s)) \<Longrightarrow> safe (sound X g) (modify f)"
  by (rule safe_modify) (simp add: sound_def)

lemma safe_system [safe_intros]:
  "safe (sound X g) (open_handle E c)" "safe (sound X g) (CreateFile E p a sh sec d fl)"
  "safe (sound X g) (CloseHandle h)" "safe (sound X g) (close_if b h)" "safe (sound X g) (on_path E pc p)"
  "safe (sound X g) (GetFileAttributes E p)" "safe (sound X g) (on_handle E hc h)"
  "safe (sound X g) (on_handle_out E hc h (v :: hist \<Rightarrow> 'v))" "safe (sound X g) (FindFirstFile E p)"
  "safe (sound X g) (FindFirstStream E p)" "safe (sound X g) (FindClose h)"
  "safe (sound X g) (ImpersonateLoggedOnUser E h)" "safe (sound X g) (RevertToSelf E)" "safe (sound X g) (SetLastError e)"
  "safe (sound X g) (FillFindData fd)" "safe (sound X g) (FillFindStreamData E fd)"
  "safe (sound X g) (ReadFile E h n off)" "safe (sound X g) (WriteFile E h bs)"
  "safe (sound X g) (SetFilePointerEx E h dist m)" "safe (sound X g) (SetFilePointer E h dist m)"
  "safe (sound X g) (GetFileSize E h)" "safe (sound X g) (GetFileSizeEx E h)" "safe (sound X g) (GetLastError E)"
  "safe (sound X g) (last_status E)" "safe (sound X g) (GetProcessNameFromPID E pid)"
  "safe (sound X g) (read_block E h n room)"
  "safe (sound X g) (find_node fn)" "safe (sound X g) (add_node po)" "safe (sound X g) (delete_node fn)"
  by (simp_all add: safe_def wp_simps sys_defs close_if_def last_status_def GetProcessNameFromPID_def
      read_block_def find_node_def sound_def addFileNode_def deleteFileNode_def split: option.split)

lemma safe_rename [safe_intros]: "safe (sound X g) (rename_node f f')"
  by (simp add: safe_def wp_simps sound_def rename_def set_name_def split: option.split)

subsection \<open>Paths and descriptors\<close>

lemma safe_path:
  "0 \<notin> set (m_UNCName g) \<Longrightarrow> fits g fn \<Longrightarrow> safe (sound X g) (GetFilePath fn)"
  by (simp add: safe_def wp_simps sound_def fits_def GetFilePath_at_eq)

lemma path_value:
  assumes "0 \<notin> set (m_UNCName g)" and "fits g fn" and "safe (sound X g) (f (mirror_path g fn))"
  shows "safe (sound X g) (bind (GetFilePath fn) f)"
  by (rule safe_bind_value [where P = "\<lambda>path. path = mirror_path g fn"])
    (use assms in \<open>simp_all add: wp_simps sound_def fits_def GetFilePath_at_eq\<close>)

lemma storable_returns:
  assumes "storable E d" shows "\<exists>si'. SetDescriptor E (Some d) si = Ret si'"
  using assms by (auto simp: storable_def SetDescriptor_def Let_def split: if_splits prod.splits option.splits)

lemma SetDescriptor_returns:
  "(\<And>d. sdo = Some d \<Longrightarrow> storable E d) \<Longrightarrow> \<exists>si'. SetDescriptor E sdo si = Ret si'"
  by (cases sdo) (simp_all add: storable_returns, simp add: SetDescriptor_def)

lemma safe_make:
  assumes "\<And>d. sdo = Some d \<Longrightarrow> storable E d"
  shows "safe (sound X g) (make_node E fn dir a sdo)"
  using SetDescriptor_returns [of sdo E no_security, OF assms] SetDescriptor_ok [of E sdo no_security]
  by (auto simp: safe_def wp_simps sound_def make_shared_def security_ok_no_security)

lemma safe_or_fault [safe_intros]: "safe I (or_fault e (Some a))"
  by (simp add: or_fault_def safe_basic)

text \<open>The default descriptor, where it is there.\<close>

lemma sound_steps:
  "preserves (sound X g) (syscall f ev)" "preserves (sound X g) (open_handle E c)"
  "preserves (sound X g) (CloseHandle h)" "preserves (sound X g) (GetLastError E)"
  "preserves (sound X g) (modify (\<lambda>s. s\<lparr>SDCached := d\<rparr>))"
  by (rule preserves_by_wpf; simp add: wp_simps sys_defs sound_def)+

lemma default_keeps_sound: "preserves (sound X g) (CreateDefaultSelfRelativeSD E)"
  unfolding CreateDefaultSelfRelativeSD_def GetNotElevatedSIDS_def open_linked_token_def
    BOOL_TO_ERROR_def Let_def
  by (intro preserves_intros sound_steps)

lemma default_at:
  assumes "default_of E s = Some d" and "sound X g s"
  shows "wpf (CreateDefaultSelfRelativeSD E) (\<lambda>r s'. sound X g s' \<and> snd r = Some d) (\<lambda>_ _. False) s"
  using wpf_by_preserves [OF default_keeps_sound assms(2), of E] assms(1)
  by (auto simp: wpf_def default_of_def split: prod.splits outcome.splits)

lemma descriptor_at:
  assumes "(if descriptor_size si \<noteq> 0 then Some (descriptor si) else default_of E s) = Some d"
    and "security_ok si" and "sound X g s"
  shows "wpf (GetDescriptor E si) (\<lambda>r s'. sound X g s' \<and> r = Some d) (\<lambda>_ _. False) s"
proof (cases "descriptor_size si = 0")
  case True
  then have "default_of E s = Some d" using assms(1) by simp
  then show ?thesis
    using True by (auto simp: GetDescriptor_def wpf_bind wpf_return split: prod.split
        intro!: wpf_mono [OF default_at [OF _ assms(3)]])
next
  case False
  then show ?thesis using assms by (simp add: GetDescriptor_nonempty [OF assms(2)] wpf_return)
qed

subsection \<open>The handlers\<close>

lemma safe_data:
  assumes "0 \<notin> set (m_UNCName g)" and "fits g fn"
  shows "safe (sound X g) (MirrorFlushFileBuffers E fn)"
    "safe (sound X g) (MirrorSetEndOfFile E fn off)"
    "safe (sound X g) (MirrorSetAllocationSize E fn off)"
    "safe (sound X g) (MirrorLockFile E fn off n)"
    "safe (sound X g) (MirrorUnlockFile E fn off n)"
    "safe (sound X g) (MirrorSetFileTime E fn tc ta tw)"
  unfolding data_handlers data_steps
  by (intro safe_intros safe_path [OF assms]; simp)+

lemma read_returns:
  assumes "0 \<notin> set (m_UNCName g)" and "fits g fn" and "sound X g s"
    and "\<And>e. fn = bzvolfile \<Longrightarrow> cached_read (cache s) len off \<noteq> Some (Fault e)"
  shows "wpf (MirrorReadFile E fn len off) (\<lambda>_. sound X g) (\<lambda>_ _. False) s"
proof -
  have path: "GetFilePath_at (globals s) fn = Ret (mirror_path g fn)"
    using assms(1-3) by (simp add: sound_def fits_def GetFilePath_at_eq)
  have uncached: "safe (sound X g) (bind (current_or_reopen E path GENERIC_READ FILE_SHARE_READ) (\<lambda>r.
      case r of Inl status \<Rightarrow> return (status, [])
        | Inr (h, opened) \<Rightarrow> uncached_read E (fn = bzvolfile) len off h opened))" for path
    unfolding data_steps by (intro safe_intros; simp)
  have cached: "\<exists>bs. r = Ret bs" if "fn = bzvolfile" "cached_read (cache s) len off = Some r" for r
    using that assms(4) by (cases r) auto
  show ?thesis
  proof (cases "if fn = bzvolfile then cached_read (cache s) len off else None")
    case None
    show ?thesis
      unfolding MirrorReadFile_def wpf_bind [of "GetFilePath fn"] wpf_bind [of "gets cache"] wpf_gets
        wpf_GetFilePath path outcome.case None option.case
      by (rule safeD [OF uncached assms(3)])
  next
    case (Some r)
    then obtain bs where "r = Ret bs" using cached by (auto split: if_splits)
    then show ?thesis
      unfolding MirrorReadFile_def wpf_bind [of "GetFilePath fn"] wpf_bind [of "gets cache"] wpf_gets
        wpf_GetFilePath path outcome.case Some option.case
      using assms(3) by (simp add: wp_simps)
  qed
qed

text \<open>A clamped write is not longer than the write.\<close>

lemma unat_ucast_le: "unat (ucast (x :: ulong64) :: dword) \<le> unat x"
  by (simp add: unsigned_ucast_eq take_bit_nat_eq_self_iff take_bit_nat_def)

lemma paging_clamp_le:
  assumes "paging_clamp fileSize off n = Some m" shows "unat m \<le> unat n"
proof (cases "off + ucast n > fileSize")
  case True
  have "off < fileSize" using assms by (simp add: paging_clamp_def not_le split: if_splits)
  have n: "unat (ucast n :: ulong64) = unat n" by (simp add: unsigned_ucast_eq take_bit_nat_eq_self_iff less_le_trans [OF unsigned_less])
  have "unat fileSize < unat (off + ucast n)" using True by (simp add: word_less_nat_alt)
  also have "\<dots> \<le> unat off + unat n" by (simp add: unat_word_ariths n)
  finally have "unat (fileSize - off) < unat n"
    using \<open>off < fileSize\<close> by (simp add: unat_sub word_less_nat_alt less_imp_le)
  moreover have "unat ((fileSize - off) AND 0xFFFFFFFF) \<le> unat (fileSize - off)"
    using word_and_le2 [of "fileSize - off" "0xFFFFFFFF"] by (simp add: word_le_nat_alt)
  ultimately show ?thesis
    using assms True \<open>off < fileSize\<close> unat_ucast_le [of "fileSize - off"]
      unat_ucast_le [of "(fileSize - off) AND 0xFFFFFFFF"]
    by (auto simp: paging_clamp_def Let_def split: if_splits)
qed (use assms in \<open>auto simp: paging_clamp_def split: if_splits\<close>)

lemma safe_write:
  assumes "0 \<notin> set (m_UNCName g)" and "fits g fn" and "unat n \<le> length buf"
  shows "safe (sound X g) (MirrorWriteFile E fn buf n off)"
proof -
  have "safe (sound X g) (write_at E buf n off h opened)" for h opened
    unfolding write_at_def
  proof (rule safe_bind_value [where P = "\<lambda>r. \<forall>m. r = Inr m \<longrightarrow> unat m \<le> unat n"], goal_cases)
    case (1 s)
    then show ?case
      by (auto simp: seek_for_write_def wp_simps sys_defs sound_def close_if_def dest: paging_clamp_le
          split: option.split)
  next
    case (2 r)
    then have "unat m \<le> length buf" if "r = Inr m" for m using that assms(3) by fastforce
    then show ?case
      unfolding count_write_def by (auto intro!: safe_intros)
  qed
  then show ?thesis
    unfolding MirrorWriteFile_def reopen_def by (intro safe_intros safe_path [OF assms(1,2)]; simp)
qed

lemma search_pattern_returns: "path \<noteq> [] \<Longrightarrow> safe I (lift_outcome (search_pattern path))"
  by (simp add: search_pattern_def safe_def wp_simps Let_def)

lemma safe_fill [safe_intros]:
  "safe (sound X g) (fill_entries r ds)" "safe (sound X g) (fill_streams E ds)"
  by (induction ds) (auto intro!: safe_intros)

lemma safe_meta:
  assumes "0 \<notin> set (m_UNCName g)" and "fits g fn"
  shows "safe (sound X g) (MirrorGetFileInformation E fn info)"
    "safe (sound X g) (MirrorFindStreams E fn)"
    "safe (sound X g) (MirrorDeleteFile E fn)"
    "safe (sound X g) (MirrorSetFileAttributes E fn a)"
    "safe (sound X g) (MirrorCleanup E fn)"
    "safe (sound X g) (MirrorCloseFile E fn)"
  unfolding meta_handlers meta_steps MirrorCleanup_def MirrorCloseFile_def Let_def
  by (intro safe_intros safe_path [OF assms]; simp add: erase_writeCount_def)+

lemma safe_directory:
  assumes "0 \<notin> set (m_UNCName g)" and "fits g fn" and "mirror_path g fn \<noteq> []"
  shows "safe (sound X g) (MirrorFindFiles E fn)" "safe (sound X g) (DeleteDirectory E fn)"
  unfolding meta_handlers meta_steps
  by (rule path_value [OF assms(1,2)], intro safe_intros search_pattern_returns [OF assms(3)]; simp)+

lemma safe_volume:
  assumes "length (c_str (m_volname g)) < unat n" and "4 < unat m"
  shows "safe (sound X g) (MirrorGetVolumeInformation E n m w)"
proof -
  have names: "wcscpy_s n (c_str (m_volname g)) = Ret (c_str (m_volname g))" "wcscpy_s m (W ''NTFS'') = Ret (W ''NTFS'')"
    using assms by (simp_all add: wcscpy_s_def W_def)
  show "safe (sound X g) (MirrorGetVolumeInformation E n m w)"
    unfolding MirrorGetVolumeInformation_def
    by (rule safe_bind_value [where P = "\<lambda>h. h = g"])
      (auto simp: wp_simps sound_def names safe_def Let_def split: prod.split)
qed

lemma safe_space: "safe (sound X g) (MirrorDokanGetDiskFreeSpace E)"
  by (auto simp: MirrorDokanGetDiskFreeSpace_def safe_def wp_simps sys_defs sound_def Let_def split: prod.split)

lemma safe_move:
  assumes "0 \<notin> set (m_UNCName g)" and "fits g fn"
    and "if new \<noteq> [] \<and> hd new \<noteq> COLON then fits g new else length new < DOKAN_MAX_PATH"
  shows "safe (sound X g) (MirrorMoveFile E fn new b)"
proof -
  have "safe (sound X g) (rename_target new)"
  proof (cases "new \<noteq> [] \<and> hd new \<noteq> COLON")
    case True
    then show ?thesis using assms(3) safe_path [OF assms(1), of new] by (simp add: rename_target_def)
  next
    case False
    then show ?thesis
      using assms(3) by (auto simp: rename_target_def safe_def wp_simps to_path_def wcsncpy_s_def)
  qed
  then show ?thesis
    unfolding MirrorMoveFile_def with_handle_def by (intro safe_intros safe_path [OF assms(1,2)])
qed

lemma safe_answer [safe_intros]: "safe (sound X g) (answer_security E info d len size0)"
  unfolding answer_security_def Let_def by (intro safe_intros)

lemma wpf_path:
  assumes "0 \<notin> set (m_UNCName g)" and "fits g fn" and "sound X g s" and "wpf (f (mirror_path g fn)) Q F s"
  shows "wpf (bind (GetFilePath fn) f) Q F s"
  using assms by (simp add: wp_simps sound_def fits_def GetFilePath_at_eq)

lemma get_security_returns:
  assumes "descriptor_of E s fn = Some d" and "0 \<notin> set (m_UNCName g)" and "fits g fn" and "sound X g s"
  shows "wpf (MirrorGetFileSecurity E fn info len) (\<lambda>_. sound X g) (\<lambda>_ _. False) s"
  unfolding MirrorGetFileSecurity_def
proof (rule wpf_path [OF assms(2-4)])
  have answer: "wpf (answer_security E info d len size0) (\<lambda>_. sound X g) (\<lambda>_ _. False) s'"
    if "sound X g s'" for size0 s'
    by (rule safeD [OF safe_answer that])
  show "wpf (bind (find_node fn) (\<lambda>node. case node of
      Some p \<Rightarrow>
        bind (gets (\<lambda>s. security (store (fs s) p))) (\<lambda>si.
        bind (GetDescriptor E si) (\<lambda>sdo.
        bind (or_fault NullPointer sdo) (\<lambda>d.
        answer_security E info d len 0)))
    | None \<Rightarrow>
        bind (CreateDefaultSelfRelativeSD E) (\<lambda>(st, sdo).
        bind (or_fault NullPointer sdo) (\<lambda>d.
        bind (gets (\<lambda>s. garbage32 E (trace s))) (\<lambda>size0.
        answer_security E info d len size0))))) (\<lambda>_. sound X g) (\<lambda>_ _. False) s"
  proof (cases "findFileNode (fs s) fn")
    case None
    then have "default_of E s = Some d" using assms(1) by (simp add: descriptor_of_def)
    then show ?thesis
      using None by (auto simp: wp_simps answer or_fault_def split: prod.split
          intro!: wpf_mono [OF default_at [OF _ assms(4)]])
  next
    case (Some p)
    let ?si = "security (store (fs s) p)"
    have "(if descriptor_size ?si \<noteq> 0 then Some (descriptor ?si) else default_of E s) = Some d"
      using assms(1) Some by (simp add: descriptor_of_def Let_def)
    moreover have "security_ok ?si" using assms(4) by (simp add: sound_def)
    ultimately show ?thesis
      using Some by (auto simp: wp_simps answer or_fault_def
          intro!: wpf_mono [OF descriptor_at [OF _ _ assms(4)]])
  qed
qed

lemma set_security_returns:
  assumes "descriptor_of E s fn = Some d"
    and "storable E (case sec_SetPrivate E info m (Some d) of None \<Rightarrow> d | Some x \<Rightarrow> x)"
    and "0 \<notin> set (m_UNCName g)" and "fits g fn" and "sound X g s"
  shows "wpf (MirrorSetFileSecurity E fn info m) (\<lambda>_. sound X g) (\<lambda>_ _. False) s"
proof -
  let ?d = "case sec_SetPrivate E info m (Some d) of None \<Rightarrow> d | Some x \<Rightarrow> x"
  have change: "wpf (change_node E p info m) (\<lambda>_. sound X g) (\<lambda>_ _. False) s"
    if p: "findFileNode (fs s) fn = Some p" for p
  proof -
    let ?si = "security (store (fs s) p)"
    have si: "security_ok ?si" using assms(5) by (simp add: sound_def)
    have is_d: "(if descriptor_size ?si \<noteq> 0 then Some (descriptor ?si) else default_of E s) = Some d"
      using assms(1) p by (simp add: descriptor_of_def Let_def)
    obtain si' where si': "SetDescriptor E (Some ?d) ?si = Ret si'" "security_ok si'"
      using storable_returns [OF assms(2), of ?si] SetDescriptor_ok [OF _ si] by blast
    show ?thesis
      unfolding change_node_def wpf_bind [of "gets (\<lambda>s. security (store (fs s) p))"] wpf_gets
      unfolding wpf_bind [of "GetDescriptor E ?si"]
      by (rule wpf_mono [OF descriptor_at [OF is_d si assms(5)]])
        (auto simp: wp_simps Let_def or_fault_def si'(1) sound_def set_security_def si'(2))
  qed
  have first: "wpf (first_change E fn info m) (\<lambda>_. sound X g) (\<lambda>_ _. False) s"
    if "findFileNode (fs s) fn = None"
  proof -
    have d: "default_of E s = Some d" using assms(1) that by (simp add: descriptor_of_def)
    have "safe (sound X g) (case sec_SetPrivate E info m (Some d) of
      None \<Rightarrow> last_status E
    | Some d \<Rightarrow>
        bind (gets IsDirectory) (\<lambda>dir.
        bind (make_node E fn dir 0 (Some d)) (\<lambda>p.
        bind (add_node (Some p)) (\<lambda>_.
        return STATUS_SUCCESS))))"
      by (intro safe_intros safe_make) (use assms(2) in auto)
    then show ?thesis
      unfolding first_change_def wpf_bind [of "CreateDefaultSelfRelativeSD E"]
      by (auto intro!: wpf_mono [OF default_at [OF d assms(5)]] safeD [where I = "sound X g"])
  qed
  show ?thesis
    unfolding MirrorSetFileSecurity_def
    by (rule wpf_path [OF assms(3-5)])
      (auto simp: wpf_with_handle wpf_bind [of "find_node fn"] wpf_find_node assms(5) change first
        split: option.split)
qed

lemma safe_take:
  assumes "None \<in> X" and "\<And>d. Some d \<in> X \<Longrightarrow> storable E d"
  shows "safe (sound X g) (take_descriptor E fn dir attrs secAttr create)"
proof -
  have "safe (sound X g) (modify (\<lambda>s. s\<lparr>SecurityDescriptor := None\<rparr>))"
    by (rule safe_modify) (simp add: sound_def assms(1))
  then have "safe (sound X g) (bind (gets SecurityDescriptor) (\<lambda>d.
       bind (make_node E fn dir attrs d) (\<lambda>p.
       bind (modify (\<lambda>s. s\<lparr>SecurityDescriptor := None\<rparr>)) (\<lambda>_.
       return (Some p, None)))))"
    by (intro safe_bind_value [where P = "\<lambda>d. d \<in> X"] safe_bind safe_basic safe_make)
      (auto simp: wp_simps sound_def assms)
  then show ?thesis unfolding take_descriptor_def by (intro safe_cases(1) safe_basic)
qed

lemma create_returns:
  assumes "\<And>d. SecurityDescriptor s = Some d \<Longrightarrow> storable E d" and "0 \<notin> set (m_UNCName g)" and "fits g fn"
    and "sound X g s"
  shows "wpf (MirrorCreateFile E fn access attrs share disp opts) (\<lambda>_. sound UNIV g) (\<lambda>_ _. False) s"
proof -
  let ?X = "{None, SecurityDescriptor s}"
  have "safe (sound ?X g) (MirrorCreateFile E fn access attrs share disp opts)"
    unfolding MirrorCreateFile_def create_phases_def create_directory_phase_def open_directory_phase_def
      file_phase_def file_opened_def impersonate_def end_impersonation_def open_token_def
      finish_create_def Let_def
    by (intro safe_intros safe_path [OF assms(2,3)] safe_take;
        use assms(1) in \<open>force simp: insert_writeCount_def split: option.split\<close>)
  from safeD [OF this] show ?thesis
    by (rule wpf_mono) (use assms(4) in \<open>auto simp: sound_def\<close>)
qed

subsection \<open>Every request\<close>

lemma safe_ignore: "safe I m \<Longrightarrow> safe I (ignore m)"
  unfolding ignore_def by (intro safe_intros)

lemma request_returns:
  assumes E: "descriptors_fit E s r" and g: "0 \<notin> set (m_UNCName g)" and fits: "request_fits g (cache s) r"
    and s: "sound UNIV g s"
  shows "wpf (dispatch E r) (\<lambda>_. sound UNIV g) (\<lambda>_ _. False) s"
proof -
  have ignored: "wpf (ignore m) (\<lambda>_. sound UNIV g) (\<lambda>_ _. False) s"
    if "wpf m (\<lambda>_. sound UNIV g) (\<lambda>_ _. False) s" for m :: "'x handler"
    unfolding ignore_def wpf_bind by (rule wpf_mono [OF that]) (simp_all add: wp_simps)
  show ?thesis
  proof (cases r)
    case (Read f n off)
    then have "fits g f" "f = bzvolfile \<Longrightarrow> cached_read (cache s) n off \<noteq> Some (Fault e)" for e
      using fits by auto
    from ignored [OF read_returns [OF g this(1) s this(2)]] show ?thesis by (simp add: Read)
  next
    case (ZwCreateFile f a att sh d opt)
    have "storable E sd" if "SecurityDescriptor s = Some sd" for sd
      using E that by (simp add: ZwCreateFile)
    from ignored [OF create_returns [OF this g _ s]] show ?thesis
      using fits by (simp add: ZwCreateFile)
  next
    case (GetFileSecurity f i n)
    then obtain d where "descriptor_of E s f = Some d" using E by auto
    from ignored [OF get_security_returns [OF this g _ s]] show ?thesis
      using fits by (simp add: GetFileSecurity)
  next
    case (SetFileSecurity f i m)
    then obtain d where "descriptor_of E s f = Some d"
        "storable E (case sec_SetPrivate E i m (Some d) of None \<Rightarrow> d | Some x \<Rightarrow> x)"
      using E by (auto split: option.splits)
    from ignored [OF set_security_returns [OF this g _ s]] show ?thesis
      using fits by (simp add: SetFileSecurity)
  qed (use fits in \<open>auto simp: MirrorMounted_def MirrorUnmounted_def
      intro!: safeD [where I = "sound UNIV g" and s = s, OF _ s] safe_ignore safe_data [OF g] safe_write [OF g] safe_meta [OF g] safe_directory [OF g]
        safe_volume safe_space safe_move [OF g] safe_basic split: if_splits\<close>)
qed

text \<open>
  On a system whose security API never fails every request is such a one; the witnesses use it, the
  properties do not.
\<close>

definition security_never_fails :: "('a) secos_scheme \<Rightarrow> bool" where
  "security_never_fails E \<longleftrightarrow> (\<forall>t h. sec_TokenGroup E t h \<noteq> None) \<and>
     (\<forall>as. sec_ExplicitEntries E as = ERROR_SUCCESS) \<and> (\<forall>ow gr as. sec_BuildDescriptor E ow gr as \<noteq> None) \<and>
     (\<forall>d. storable E d)"

lemma never_fails_default:
  assumes "security_never_fails E" shows "default_of E s \<noteq> None"
proof -
  have linked: "wpf (open_linked_token E) (\<lambda>_ _. True) (\<lambda>_ _. False) s"
    by (simp add: open_linked_token_def BOOL_TO_ERROR_def wp_simps sys_defs split: option.split)
  have grp: "sec_TokenGroup E t h \<noteq> None" for t h using assms by (simp add: security_never_fails_def)
  have sids: "wpf (GetNotElevatedSIDS E) (\<lambda>_ _. True) (\<lambda>_ _. False) s"
    unfolding GetNotElevatedSIDS_def wpf_bind [of "open_linked_token E"]
    by (rule wpf_mono [OF linked])
      (auto simp: grp wp_simps sys_defs or_fault_def split: option.split)
  have build: "\<exists>d. sec_BuildDescriptor E ow gr as = Some d" "sec_ExplicitEntries E as = ERROR_SUCCESS" for ow gr as
    using assms by (auto simp: security_never_fails_def)
  have "wpf (CreateDefaultSelfRelativeSD E) (\<lambda>r _. snd r \<noteq> None) (\<lambda>_ _. False) s"
  proof (cases "SDCached s")
    case None
    show ?thesis
      unfolding CreateDefaultSelfRelativeSD_def wpf_bind [of "gets SDCached"] wpf_gets None option.case
        wpf_bind [of "GetNotElevatedSIDS E"]
    proof (rule wpf_mono [OF sids], goal_cases)
      case (1 r s')
      obtain err owner grp where r: "r = (err, owner, grp)" by (cases r)
      obtain b where "sec_BuildDescriptor E sid_everyone (Some sid_everyone) as = Some (b as)" for as
        using build(1) by (metis)
      moreover obtain c where "sec_BuildDescriptor E ow gr as = Some (c ow gr as)" for ow gr as
        using build(1) by metis
      ultimately show ?case
        by (simp add: r Let_def build(2) or_fault_def wp_simps split: option.split)
    qed simp
  qed (simp add: CreateDefaultSelfRelativeSD_def wp_simps)
  then show ?thesis by (auto simp: default_of_def wpf_def split: prod.splits outcome.splits)
qed

lemma never_fails_fit:
  assumes "security_never_fails E" shows "descriptors_fit E s r"
proof -
  have d: "descriptor_of E s f \<noteq> None" for f
    using never_fails_default [OF assms] by (simp add: descriptor_of_def Let_def split: option.split)
  have "storable E d" for d using assms by (simp add: security_never_fails_def)
  then show ?thesis using d by (cases r) (auto split: option.split)
qed

lemma sample_never_fails: "security_never_fails sample_system"
  by (simp add: security_never_fails_def storable_def SetDescriptor_def isSelfRelative_def
      sample_system_def unat_of_nat Let_def not_less)

text \<open>
  C3: A mount answers. In every reachable state, a request that fits (its names fit the path buffer
  together with the root, a write comes with the bytes it announces, the volume's names fit their
  buffers, a cached read stays inside the block) and whose descriptors are there (a descriptor that the
  request brings or that the change leaves has its stated length and a text, the file's own or the default
  descriptor can be had in this very state) reaches none of the faults of the model: no handler leaves
  an object, uses a null pointer or is stopped by the runtime, the request returns, whatever the file
  system says. Without the condition on the descriptors the security requests do fault.
\<close>

theorem mount_answers:
  assumes "reachable E g s" and "0 \<notin> set (m_UNCName g)"
    and "request_fits g (cache s) r" and "descriptors_fit E (load_info i s) r"
  shows "\<exists>s'. dispatch E r (load_info i s) = (Ret (), s') \<and> reachable E g s'"
proof -
  have "sound UNIV g (load_info i s)"
    using reachable_invariant [OF assms(1)] by (simp add: sound_def mount_ok_def nodes_ok_def)
  moreover have "request_fits g (cache (load_info i s)) r" using assms(3) by simp
  ultimately have "wpf (dispatch E r) (\<lambda>_. sound UNIV g) (\<lambda>_ _. False) (load_info i s)"
    by (intro request_returns [OF assms(4,2)])
  then obtain s' where "dispatch E r (load_info i s) = (Ret (), s')"
    by (auto simp: wpf_def simp del: dispatch.simps split: prod.splits outcome.splits)
  then show ?thesis using reachable.request [OF assms(1)] by blast
qed

theorem mount_answers_witness:
  "\<exists>s'. dispatch sample_system (SetFileSecurity (W ''x'') 4 (replicate 20 1)) (load_info sample_info sample_state)
      = (Ret (), s') \<and> reachable sample_system sample_globals s'"
proof (rule mount_answers [OF sample_reachable])
  show "0 \<notin> set (m_UNCName sample_globals)"
    by (simp add: sample_globals_def Globals_of_def new_Globals_def)
  show "request_fits sample_globals (cache sample_state) (SetFileSecurity (W ''x'') 4 (replicate 20 1))"
    by (simp add: fits_def mirror_path_def relative_part_def under_unc_def sample_globals_def Globals_of_def
        new_Globals_def W_def c_str_def)
  show "descriptors_fit sample_system (load_info sample_info sample_state)
      (SetFileSecurity (W ''x'') 4 (replicate 20 1))"
    by (rule never_fails_fit [OF sample_never_fails])
qed

text \<open>
  Where the default descriptor cannot be had, the query of a file without a node uses a null pointer:
  the answer of \<open>CreateDefaultSelfRelativeSD\<close> is not looked at.
\<close>

theorem missing_default_faults:
  assumes "GetFilePath_at (globals s) fn = Ret path" and "findFileNode (fs s) fn = None"
    and "CreateDefaultSelfRelativeSD E s = (Ret (st, None), s')"
  shows "fst (MirrorGetFileSecurity E fn info len s) = Fault NullPointer"
  using assms
  by (simp add: MirrorGetFileSecurity_def bind_def GetFilePath_def find_node_def gets_def or_fault_def
      lift_outcome_def fail_def)

end
