(* ===== verification/CacheThread.thy ===== *)
theory CacheThread
  imports Cache
begin

text \<open>
  The life of the cache object and of its thread (seamless_smb_lib/cache.cpp): the constructor starts
  the thread, the destructor sets the exit event and waits for the thread to end. The two run side by
  side, so they are a step relation; one step is what one of them does up to its next call of the
  system. What the calls answer is left open: every answer is a step.
\<close>

subsection \<open>The two sides and their steps\<close>

datatype thread_at = NotBegun | EventMade | AtRequest | AtWait | ThreadEnded

datatype owner_at = InUse | Joining | Destroyed

text \<open>The exit event: no handle yet (or none given), or an event that is set or not.\<close>

record cache_run =
  thread_at :: thread_at
  owner_at :: owner_at
  exitEvent :: "bool option"
  dir_open :: bool
  shared :: cache

datatype thread_step =
    CreatesEvent bool
  | OpensDirectory bool
  | RequestsChanges bool
  | TakesChanges "notification list"
  | SeesExit
  | SetsExit
  | Joins

definition new_Cache :: cache_run where
  "new_Cache = \<lparr>thread_at = NotBegun, owner_at = InUse, exitEvent = None, dir_open = False,
     shared = empty_cache\<rparr>"

text \<open>\<open>SetEvent\<close> on the null handle fails, and its answer is not looked at.\<close>

definition SetEvent_exit :: "cache_run \<Rightarrow> cache_run" where
  "SetEvent_exit s =
     s\<lparr>exitEvent := (case exitEvent s of None \<Rightarrow> None | Some b \<Rightarrow> Some True)\<rparr>"

text \<open>
  A wait for the directory and the event ends at once when the event is the null handle, and gives the
  directory when both are set.
\<close>

inductive cache_step :: "cache_run \<Rightarrow> thread_step \<Rightarrow> cache_run \<Rightarrow> bool" where
  make_event: "thread_at s = NotBegun \<Longrightarrow>
    cache_step s (CreatesEvent b)
      (s\<lparr>thread_at := EventMade, exitEvent := (if b then Some False else None)\<rparr>)"
| open_dir: "thread_at s = EventMade \<Longrightarrow>
    cache_step s (OpensDirectory b)
      (if b then s\<lparr>thread_at := AtRequest, dir_open := True\<rparr> else s\<lparr>thread_at := ThreadEnded\<rparr>)"
| request: "thread_at s = AtRequest \<Longrightarrow>
    cache_step s (RequestsChanges b)
      (if b then s\<lparr>thread_at := AtWait\<rparr> else s\<lparr>thread_at := ThreadEnded, dir_open := False\<rparr>)"
| changed: "thread_at s = AtWait \<Longrightarrow> exitEvent s \<noteq> None \<Longrightarrow>
    cache_step s (TakesChanges evs) (s\<lparr>thread_at := AtRequest, shared := handle_buffer evs (shared s)\<rparr>)"
| exit: "thread_at s = AtWait \<Longrightarrow> exitEvent s \<noteq> Some False \<Longrightarrow>
    cache_step s SeesExit (s\<lparr>thread_at := ThreadEnded, dir_open := False\<rparr>)"
| destroy: "owner_at s = InUse \<Longrightarrow>
    cache_step s SetsExit ((SetEvent_exit s)\<lparr>owner_at := Joining\<rparr>)"
| joined: "owner_at s = Joining \<Longrightarrow> thread_at s = ThreadEnded \<Longrightarrow>
    cache_step s Joins (s\<lparr>owner_at := Destroyed\<rparr>)"

inductive cache_steps :: "cache_run \<Rightarrow> thread_step list \<Rightarrow> cache_run \<Rightarrow> bool" where
  no_step: "cache_steps s [] s"
| a_step: "cache_step s l s' \<Longrightarrow> cache_steps s' ls s'' \<Longrightarrow> cache_steps s (l # ls) s''"

code_pred cache_step .
code_pred cache_steps .

inductive_cases cache_stepE: "cache_step s l s'"
inductive_simps cache_steps_simps [simp]: "cache_steps s [] s'" "cache_steps s (l # ls) s'"
inductive_simps cache_step_simps:
  "cache_step s (CreatesEvent b) s'" "cache_step s (OpensDirectory b) s'"
  "cache_step s (RequestsChanges b) s'" "cache_step s (TakesChanges evs) s'"
  "cache_step s SeesExit s'" "cache_step s SetsExit s'" "cache_step s Joins s'"

lemma cache_steps_induct [consumes 1, case_names no_step a_step]:
  assumes "cache_steps s ls s'" and "I s"
    and "\<And>s l s'. I s \<Longrightarrow> cache_step s l s' \<Longrightarrow> I s'"
  shows "I s'"
  using assms(1,2) by induction (simp_all add: assms(3))

subsection \<open>The directory handle\<close>

definition run_ok :: "cache_run \<Rightarrow> bool" where
  "run_ok s \<longleftrightarrow> (dir_open s \<longleftrightarrow> thread_at s = AtRequest \<or> thread_at s = AtWait) \<and>
     (owner_at s = Destroyed \<longrightarrow> thread_at s = ThreadEnded)"

lemma run_ok_step: "run_ok s \<Longrightarrow> cache_step s l s' \<Longrightarrow> run_ok s'"
  by (erule cache_stepE) (auto simp: run_ok_def SetEvent_exit_def)

lemma run_ok_steps: "cache_steps s ls s' \<Longrightarrow> run_ok s \<Longrightarrow> run_ok s'"
  by (erule cache_steps_induct) (simp_all add: run_ok_step)

lemma run_ok_new: "run_ok new_Cache"
  by (simp add: run_ok_def new_Cache_def)

subsection \<open>How long a run can be\<close>

text \<open>What is left to do, without the turns that take changes.\<close>

fun thread_todo :: "thread_at \<Rightarrow> nat" where
  "thread_todo NotBegun = 4"
| "thread_todo EventMade = 3"
| "thread_todo AtRequest = 2"
| "thread_todo AtWait = 1"
| "thread_todo ThreadEnded = 0"

fun owner_todo :: "owner_at \<Rightarrow> nat" where
  "owner_todo InUse = 2"
| "owner_todo Joining = 1"
| "owner_todo Destroyed = 0"

definition todo :: "cache_run \<Rightarrow> nat" where
  "todo s = thread_todo (thread_at s) + owner_todo (owner_at s)"

fun turns :: "thread_step list \<Rightarrow> nat" where
  "turns [] = 0"
| "turns (TakesChanges evs # ls) = Suc (turns ls)"
| "turns (_ # ls) = turns ls"

lemma run_length:
  "cache_steps s ls s' \<Longrightarrow> length ls + todo s' \<le> todo s + 2 * turns ls"
proof (induction rule: cache_steps.induct)
  case (a_step s l s' ls s'')
  from a_step.hyps(1) a_step.IH show ?case
    by cases (auto simp: todo_def SetEvent_exit_def split: if_splits)
qed simp

subsection \<open>Destruction\<close>

text \<open>
  Once the thread has begun when the destructor tells it to end, the event is set and stays set, or could
  not be made, and a wait for it ends at once.
\<close>

definition exit_set :: "cache_run \<Rightarrow> bool" where
  "exit_set s \<longleftrightarrow> exitEvent s \<noteq> Some False \<and> thread_at s \<noteq> NotBegun \<and> owner_at s \<noteq> InUse"

lemma exit_set_step: "exit_set s \<Longrightarrow> cache_step s l s' \<Longrightarrow> exit_set s'"
  by (erule cache_stepE) (auto simp: exit_set_def SetEvent_exit_def)

lemma exit_set_steps: "cache_steps s ls s' \<Longrightarrow> exit_set s \<Longrightarrow> exit_set s'"
  by (erule cache_steps_induct) (simp_all add: exit_set_step)

definition begun_ok :: "cache_run \<Rightarrow> bool" where
  "begun_ok s \<longleftrightarrow> (thread_at s = NotBegun \<longrightarrow> exitEvent s = None)"

lemma begun_ok_step: "begun_ok s \<Longrightarrow> cache_step s l s' \<Longrightarrow> begun_ok s'"
  by (erule cache_stepE) (auto simp: begun_ok_def SetEvent_exit_def split: if_splits)

lemma begun_ok_steps: "cache_steps s ls s' \<Longrightarrow> begun_ok s \<Longrightarrow> begun_ok s'"
  by (erule cache_steps_induct) (simp_all add: begun_ok_step)

lemma exit_set_goes_on:
  assumes "exit_set s" and "owner_at s \<noteq> Destroyed"
  shows "\<exists>l s'. cache_step s l s'"
proof -
  have own: "owner_at s = Joining" using assms by (cases "owner_at s") (auto simp: exit_set_def)
  show ?thesis
    using assms own
    by (cases "thread_at s") (use cache_step.exit [of s] in \<open>auto simp: exit_set_def intro: cache_step.intros\<close>)
qed

lemma begun_destruction_ends:
  assumes "run_ok s" and "thread_at s \<noteq> NotBegun"
    and "cache_step s SetsExit s1" and "cache_steps s1 after s2"
  shows "length after \<le> 4 + 2 * turns after \<and>
    ((\<nexists>l s'. cache_step s2 l s') \<longrightarrow>
       owner_at s2 = Destroyed \<and> thread_at s2 = ThreadEnded \<and> \<not> dir_open s2)"
proof -
  have s1: "exit_set s1" "todo s1 \<le> 4"
    using assms(2,3)
    by (auto elim!: cache_stepE simp: exit_set_def SetEvent_exit_def todo_def split: option.splits)
      (cases "thread_at s"; simp)+
  have s2: "exit_set s2" using exit_set_steps [OF assms(4) s1(1)] .
  have "run_ok s2"
    using run_ok_step [OF assms(1,3)] run_ok_steps [OF assms(4)] by blast
  moreover have "owner_at s2 = Destroyed" if "\<nexists>l s'. cache_step s2 l s'"
    using exit_set_goes_on [OF s2] that by blast
  ultimately show ?thesis
    using run_length [OF assms(4)] s1(2) by (auto simp: run_ok_def)
qed

text \<open>
  C25: When the destructor of the cache runs after its thread has made the exit event, it ends. From
  then on every run of the two has at most four steps and two for every buffer of changes that still
  arrives, and it can only stop with the object destroyed, the thread ended and the handle of the
  directory closed.
\<close>

theorem cache_destruction_ends:
  assumes "cache_steps new_Cache before s" and "exitEvent s \<noteq> None"
    and "cache_step s SetsExit s1" and "cache_steps s1 after s2"
  shows "length after \<le> 4 + 2 * turns after \<and>
    ((\<nexists>l s'. cache_step s2 l s') \<longrightarrow>
       owner_at s2 = Destroyed \<and> thread_at s2 = ThreadEnded \<and> \<not> dir_open s2)"
proof -
  have "thread_at s \<noteq> NotBegun"
    using begun_ok_steps [OF assms(1)] assms(2) by (simp add: begun_ok_def new_Cache_def)
  then show ?thesis
    using begun_destruction_ends [OF run_ok_steps [OF assms(1) run_ok_new] _ assms(3,4)] by blast
qed

theorem cache_destruction_ends_witness:
  "\<exists>s s1 s2. cache_steps new_Cache [CreatesEvent True, OpensDirectory True] s \<and>
     cache_step s SetsExit s1 \<and> cache_steps s1 [RequestsChanges True, SeesExit, Joins] s2 \<and>
     length [RequestsChanges True, SeesExit, Joins] \<le> 4 + 2 * turns [RequestsChanges True, SeesExit, Joins]"
proof -
  define s where "s = new_Cache\<lparr>thread_at := AtRequest, exitEvent := Some False, dir_open := True\<rparr>"
  define s1 where "s1 = s\<lparr>exitEvent := Some True, owner_at := Joining\<rparr>"
  define s2 where "s2 = s1\<lparr>thread_at := ThreadEnded, dir_open := False, owner_at := Destroyed\<rparr>"
  have "cache_steps new_Cache [CreatesEvent True, OpensDirectory True] s"
    and "cache_step s SetsExit s1" and "cache_steps s1 [RequestsChanges True, SeesExit, Joins] s2"
    by (simp_all add: cache_step_simps s_def s1_def s2_def new_Cache_def SetEvent_exit_def)
  moreover have "exitEvent s \<noteq> None" by (simp add: s_def)
  ultimately show ?thesis using cache_destruction_ends [of _ s s1 _ s2] by blast
qed

text \<open>
  The other order hangs: the destructor sets the event before the thread has made it, the thread then
  makes one that nobody sets, and as long as the system grants what the thread asks for, no run ends
  the destructor.
\<close>

fun granted :: "thread_step \<Rightarrow> bool" where
  "granted (CreatesEvent b) = b"
| "granted (OpensDirectory b) = b"
| "granted (RequestsChanges b) = b"
| "granted _ = True"

definition missed :: "cache_run \<Rightarrow> bool" where
  "missed s \<longleftrightarrow> owner_at s = Joining \<and> thread_at s \<noteq> ThreadEnded \<and>
     exitEvent s = (if thread_at s = NotBegun then None else Some False)"

lemma missed_step: "missed s \<Longrightarrow> cache_step s l s' \<Longrightarrow> granted l \<Longrightarrow> missed s'"
  by (erule cache_stepE) (auto simp: missed_def)

lemma missed_steps: "cache_steps s ls s' \<Longrightarrow> missed s \<Longrightarrow> list_all granted ls \<Longrightarrow> missed s'"
  by (induction rule: cache_steps.induct) (auto intro: missed_step)

theorem early_destruction_hangs:
  assumes "cache_steps new_Cache (SetsExit # ls) s" and "list_all granted ls"
  shows "owner_at s = Joining"
proof -
  have "missed ((SetEvent_exit new_Cache)\<lparr>owner_at := Joining\<rparr>)"
    by (simp add: missed_def new_Cache_def SetEvent_exit_def)
  then have "missed s"
    using assms by (auto simp: cache_step_simps intro: missed_steps)
  then show ?thesis by (simp add: missed_def)
qed

lemma early_destruction_possible:
  "\<exists>s. cache_steps new_Cache
     [SetsExit, CreatesEvent True, OpensDirectory True, RequestsChanges True] s \<and> thread_at s = AtWait"
  by (simp add: cache_step_simps new_Cache_def SetEvent_exit_def)

text \<open>
  The destructor as its caller sees it, with the state of the cache and its thread in which it is called.
  Before the thread has begun, whether the wait ends depends on the system refusing the thread a
  handle; the model takes the run in which it is refused nothing.
\<close>

definition destroy_Cache :: "cache_run \<Rightarrow> unit outcome" where
  "destroy_Cache s = (if thread_at s = NotBegun then Fault NeverReturns else Ret ())"

theorem destroy_Cache_exact:
  assumes "cache_steps new_Cache before s" and "cache_step s SetsExit s1" and "cache_steps s1 after s2"
  shows "case destroy_Cache s of
      Ret _ \<Rightarrow> length after \<le> 4 + 2 * turns after \<and>
        ((\<nexists>l s'. cache_step s2 l s') \<longrightarrow> owner_at s2 = Destroyed)
    | Fault _ \<Rightarrow> list_all granted after \<longrightarrow> owner_at s2 = Joining"
proof (cases "thread_at s = NotBegun")
  case True
  moreover have "exitEvent s = None"
    using begun_ok_steps [OF assms(1)] True by (simp add: begun_ok_def new_Cache_def)
  ultimately have "missed s1" using assms(2) by (auto simp: cache_step_simps missed_def SetEvent_exit_def)
  then show ?thesis
    using True missed_steps [OF assms(3)] by (simp add: destroy_Cache_def missed_def)
next
  case False
  then show ?thesis
    using begun_destruction_ends [OF run_ok_steps [OF assms(1) run_ok_new] False assms(2,3)]
    by (simp add: destroy_Cache_def)
qed

subsection \<open>The search that nobody calls\<close>

text \<open>
  \<open>recursiveFileFinder\<close> walks one search to its end and does nothing with the entries; it does not call
  itself. Whatever it finds, the search is closed again.
\<close>

definition recursiveFileFinder :: "('a) os_scheme \<Rightarrow> wstr \<Rightarrow> ('w world_scheme, unit) prog" where
  "recursiveFileFinder E root =
    bind (FindFirstFile E root) (\<lambda>(hFind, findData, rest).
    if hFind = INVALID_HANDLE_VALUE then return ()
    else
      bind (GetLastError E) (\<lambda>error.
      bind (FindClose hFind) (\<lambda>_. return ())))"

lemma recursiveFileFinder_closes:
  "wpf (recursiveFileFinder E root) (\<lambda>_ s'. \<forall>h. net_search (trace s') h = net_search (trace s) h) F s"
  by (auto simp: recursiveFileFinder_def wp_simps sys_defs split: prod.split)

subsection \<open>The loop of the thread\<close>

text \<open>What the steps of the thread's loop are to \<open>MonitorDirectoryChanges\<close>.\<close>

fun wakes :: "thread_step list \<Rightarrow> wake list" where
  "wakes [] = []"
| "wakes (RequestsChanges b # ls) = (if b then wakes ls else RequestFailed # wakes ls)"
| "wakes (TakesChanges evs # ls) = Changed evs # wakes ls"
| "wakes (SeesExit # ls) = OtherWake # wakes ls"
| "wakes (_ # ls) = wakes ls"

lemma ended_keeps: "cache_steps s ls s' \<Longrightarrow> thread_at s = ThreadEnded \<Longrightarrow>
    shared s' = shared s \<and> wakes ls = []"
  by (induction rule: cache_steps.induct) (auto elim!: cache_stepE simp: SetEvent_exit_def)

theorem thread_runs_loop:
  assumes "cache_steps s ls s'"
  shows "shared s' = MonitorDirectoryChanges (wakes ls) (shared s)"
  using assms
proof (induction rule: cache_steps.induct)
  case (a_step s l s' ls s'')
  from a_step.hyps(1) show ?case
    by cases (use a_step ended_keeps [OF a_step.hyps(2)] in
      \<open>auto simp: SetEvent_exit_def split: if_splits\<close>)
qed simp

end
