(* ===== verification/Passthrough.thy ===== *)
theory Passthrough
  imports FileData
begin

text \<open>
  The contract of the data handlers: on an open handle they read and write the mirrored file itself.
  The system is constrained to what is documented for a synchronous handle on a file that nobody
  else changes (\<open>plain_file\<close>): its contents and file pointer follow from the calls made. An abstract
  file is a list of bytes with one operation per request (\<open>file_op\<close>); the last theorem runs any
  sequence of requests against both.
\<close>

subsection \<open>The file behind a handle\<close>

definition overwrite :: "nat \<Rightarrow> u8 list \<Rightarrow> u8 list \<Rightarrow> u8 list" where
  "overwrite p bs d =
     take p (d @ replicate (p - length d) 0) @ bs @ List.drop (p + length bs) d"

definition resize :: "nat \<Rightarrow> u8 list \<Rightarrow> u8 list" where
  "resize n d = take n d @ replicate (n - length d) 0"

text \<open>Contents and file pointer after a successful call.\<close>

fun file_call :: "handle_call \<Rightarrow> u8 list \<times> nat \<Rightarrow> u8 list \<times> nat" where
  "file_call (WriteFileCall bs) (d, p) = (overwrite p bs d, p + length bs)"
| "file_call (SetFilePointerCall off meth) (d, p) =
     (d, if meth = FILE_BEGIN then unat off else if meth = FILE_END then nat (int (length d) + sint off)
         else nat (int p + sint off))"
| "file_call (ReadFileCall n (Some off)) (d, p) = (d, unat off + length (take (unat n) (List.drop (unat off) d)))"
| "file_call (ReadFileCall n None) (d, p) = (d, p + length (take (unat n) (List.drop p d)))"
| "file_call SetEndOfFileCall (d, p) = (resize p d, p)"
| "file_call (SetEndOfFileInfoCall off) (d, p) = (resize (unat off) d, p)"
| "file_call _ (d, p) = (d, p)"

fun file_after :: "handle \<Rightarrow> u8 list \<Rightarrow> hist \<Rightarrow> u8 list \<times> nat" where
  "file_after h d0 [] = (d0, 0)"
| "file_after h d0 (OnHandle c h' ok # t) =
     (if h' = h \<and> ok then file_call c (file_after h d0 t) else file_after h d0 t)"
| "file_after h d0 (e # t) = file_after h d0 t"

text \<open>
  The system's answers about the handle: calls succeed (a read at an offset inside the file; at or
  behind the end it may fail with ERROR_HANDLE_EOF), writes are complete, sizes and data are those
  of the file.
\<close>

definition plain_file :: "('a) os_scheme \<Rightarrow> handle \<Rightarrow> u8 list \<Rightarrow> bool" where
  "plain_file E h d0 \<longleftrightarrow> (\<forall>t. let d = fst (file_after h d0 t) in
     (\<forall>c. (case c of ReadFileCall n off \<Rightarrow> False | _ \<Rightarrow> True) \<longrightarrow> os_handle E t c h) \<and>
     (\<forall>n off. unat off < length d \<longrightarrow> os_handle E t (ReadFileCall n (Some off)) h) \<and>
     (\<forall>n off. os_ReadData E t h n (Some off) = take (unat n) (List.drop (unat off) d)) \<and>
     (\<forall>bs. os_Written E t h bs = of_nat (length bs)) \<and>
     os_FileSize E t h = of_nat (length d))"

lemma plain_fileD:
  assumes "plain_file E h d0"
  shows "os_handle E t (WriteFileCall bs) h" "os_handle E t (SetFilePointerCall off m) h"
    "os_handle E t SetEndOfFileCall h" "os_handle E t (SetEndOfFileInfoCall off) h"
    "os_handle E t FileSizeCall h" "os_handle E t FlushCall h"
    "unat off < length (fst (file_after h d0 t)) \<Longrightarrow> os_handle E t (ReadFileCall n (Some off)) h"
    "os_ReadData E t h n (Some off) = take (unat n) (List.drop (unat off) (fst (file_after h d0 t)))"
    "os_Written E t h bs = of_nat (length bs)"
    "os_FileSize E t h = of_nat (length (fst (file_after h d0 t)))"
  using assms by (simp_all add: plain_file_def Let_def)

subsection \<open>Requests and the abstract file\<close>

datatype file_op =
    ReadOp dword ulong64
  | WriteOp bool bool "u8 list" dword ulong64 \<comment> \<open>paging, append, buffer, length, offset\<close>
  | SetEndOp ulong64
  | AllocateOp ulong64
  | FlushOp

fun request_op :: "('a) os_scheme \<Rightarrow> wstr \<Rightarrow> file_op \<Rightarrow> (u8 list) handler" where
  "request_op E fn (ReadOp n off) = bind (MirrorReadFile E fn n off) (\<lambda>(status, bytes). return bytes)"
| "request_op E fn (WriteOp paging toEnd buf n off) =
     bind (modify (\<lambda>s. s\<lparr>PagingIo := paging, WriteToEndOfFile := toEnd\<rparr>)) (\<lambda>_.
     bind (MirrorWriteFile E fn buf n off) (\<lambda>_. return []))"
| "request_op E fn (SetEndOp off) = bind (MirrorSetEndOfFile E fn off) (\<lambda>_. return [])"
| "request_op E fn (AllocateOp n) = bind (MirrorSetAllocationSize E fn n) (\<lambda>_. return [])"
| "request_op E fn FlushOp = bind (MirrorFlushFileBuffers E fn) (\<lambda>_. return [])"

fun request_ops :: "('a) os_scheme \<Rightarrow> wstr \<Rightarrow> file_op list \<Rightarrow> (u8 list list) handler" where
  "request_ops E fn [] = return []"
| "request_ops E fn (x # xs) =
     bind (request_op E fn x) (\<lambda>r. bind (request_ops E fn xs) (\<lambda>rs. return (r # rs)))"

text \<open>
  The abstract file: an append goes to the end, a paging write stops at the end, allocating only
  shrinks.
\<close>

fun spec_op :: "file_op \<Rightarrow> u8 list \<Rightarrow> u8 list \<times> u8 list" where
  "spec_op (ReadOp n off) d = (take (unat n) (List.drop (unat off) d), d)"
| "spec_op (WriteOp paging toEnd buf n off) d =
     ([], if toEnd then d @ take (unat n) buf
          else if paging then
            (if unat off < length d
             then overwrite (unat off) (take (min (unat n) (length d - unat off)) buf) d else d)
          else overwrite (unat off) (take (unat n) buf) d)"
| "spec_op (SetEndOp off) d = ([], resize (unat off) d)"
| "spec_op (AllocateOp n) d = ([], if unat n < length d then take (unat n) d else d)"
| "spec_op FlushOp d = ([], d)"

fun spec_ops :: "file_op list \<Rightarrow> u8 list \<Rightarrow> u8 list list \<times> u8 list" where
  "spec_ops [] d = ([], d)"
| "spec_ops (x # xs) d =
     (let (r, d') = spec_op x d; (rs, d'') = spec_ops xs d' in (r # rs, d''))"

text \<open>
  What the driver and the code ask of a request: a buffer as long as said, a signed size, and a
  file whose size is representable and is not taken for the error value of \<open>GetFileSize\<close>.
\<close>

definition size_ok :: "u8 list \<Rightarrow> bool" where
  "size_ok d \<longleftrightarrow> length d < 2 ^ 63 \<and> length d mod 2 ^ 32 \<noteq> 2 ^ 32 - 1"

fun op_ok :: "file_op \<Rightarrow> bool" where
  "op_ok (WriteOp paging toEnd buf n off) \<longleftrightarrow> unat n \<le> length buf"
| "op_ok (AllocateOp n) \<longleftrightarrow> unat n < 2 ^ 63"
| "op_ok _ \<longleftrightarrow> True"

fun ops_ok :: "file_op list \<Rightarrow> u8 list \<Rightarrow> bool" where
  "ops_ok [] d = True"
| "ops_ok (x # xs) d = (size_ok d \<and> op_ok x \<and> ops_ok xs (snd (spec_op x d)))"

subsection \<open>One request\<close>

text \<open>The relation between the handler's state and the abstract file.\<close>

definition file_rel :: "handle \<Rightarrow> u8 list \<Rightarrow> globals \<Rightarrow> ctx \<Rightarrow> u8 list \<Rightarrow> bool" where
  "file_rel h d0 g s d \<longleftrightarrow> Context s = h \<and> globals s = g \<and> fst (file_after h d0 (trace s)) = d"

lemma size_word: "size_ok d \<Longrightarrow> unat (of_nat (length d) :: ulong64) = length d"
  by (simp add: size_ok_def unat_of_nat)

lemma size_low: "size_ok d \<Longrightarrow> lo32 (of_nat (length d)) \<noteq> INVALID_FILE_SIZE"
proof
  assume d: "size_ok d" "lo32 (of_nat (length d)) = INVALID_FILE_SIZE"
  have "unat (lo32 (of_nat (length d))) = length d mod 2 ^ 32"
    using d(1) by (simp add: lo32_ucast unsigned_ucast_eq size_word take_bit_eq_mod)
  then show False using d by (simp add: size_ok_def)
qed

lemma sint_small:
  fixes x :: ulong64
  assumes "unat x < 2 ^ 63"
  shows "sint x = int (unat x)"
proof -
  have u: "uint x = int (unat x)" by simp
  have "uint x < 2 ^ 63" using assms by (simp only: u flip: of_nat_less_iff [where 'a = int]) simp
  moreover have "- (2 ^ 63) \<le> uint x" by (rule order_trans [of _ 0]) simp_all
  ultimately have "signed_take_bit 63 (uint x) = uint x"
    by (rule signed_take_bit_int_eq_self [rotated])
  then show ?thesis by (simp add: sint_uint)
qed

lemma append_at_end: "overwrite (length d) bs d = d @ bs"
  by (simp add: overwrite_def)

lemma file_after_count_write:
  assumes "plain_file E h d0"
  shows "wpf (count_write E h)
    (\<lambda>_ s'. file_after h d0 (trace s') = file_after h d0 (trace s) \<and> Context s' = Context s \<and>
       globals s' = globals s) (\<lambda>_ _. False) s"
  by (cases "file_after h d0 (trace s)")
    (simp add: count_write_def wp_simps sys_defs plain_fileD [OF assms])

text \<open>A write that is not clamped away puts the bytes where the pointer was set.\<close>

lemma seek_rel:
  assumes "plain_file E h d0" and "fst (file_after h d0 (trace s)) = d" and "size_ok d"
  shows "wpf (seek_for_write E n off h False)
    (\<lambda>r s'. Context s' = Context s \<and> globals s' = globals s \<and>
       (case r of
          Inl early \<Rightarrow> PagingIo s \<and> \<not> WriteToEndOfFile s \<and> length d \<le> unat off \<and>
            fst (file_after h d0 (trace s')) = d
        | Inr m \<Rightarrow>
            (if WriteToEndOfFile s then m = n \<and> file_after h d0 (trace s') = (d, length d)
             else (PagingIo s \<longrightarrow> unat off < length d) \<and>
               unat m = (if PagingIo s then min (unat n) (length d - unat off) else unat n) \<and>
               file_after h d0 (trace s') = (d, unat off)))) (\<lambda>_ _. False) s"
proof -
  note plain = plain_fileD [OF assms(1)]
  obtain p where now: "file_after h d0 (trace s) = (d, p)" using assms(2) by (cases "file_after h d0 (trace s)") simp
  have size: "os_FileSize E (trace s) h = of_nat (length d)" using plain(10) assms(2) by simp
  have clamp: "paging_clamp (of_nat (length d)) off n =
      (if length d \<le> unat off then None else Some (of_nat (min (unat n) (length d - unat off))))"
    using paging_clamp_eq [of "of_nat (length d)" off n] size_word [OF assms(3)] assms(3)
    by (simp add: size_ok_def word_le_nat_alt)
  have "unat (of_nat (min (unat n) k) :: dword) = min (unat n) k" for k
    using unat_less_power [of n] by (simp add: unat_of_nat)
  then show ?thesis
    by (auto simp: seek_for_write_def wp_simps sys_defs close_if_def plain now size size_low [OF assms(3)]
        mk64_split clamp Let_def)
qed

lemma bytes_rel:
  assumes "plain_file E h d0" and "Context s = h" and "globals s = g"
    and "file_after h d0 (trace s) = (d, p)" and "unat m \<le> length buf"
  shows "wpf (bind (or_fault OutOfBounds
        (if unat m \<le> length buf then Some (take (unat m) buf) else None)) (\<lambda>bytes.
      bind (WriteFile E h bytes) (\<lambda>(ok, written).
      if \<not> ok then
        bind (last_status E) (\<lambda>status. bind (close_if False h) (\<lambda>_. return (status, Some written)))
      else
        bind (count_write E h) (\<lambda>_. bind (close_if False h) (\<lambda>_.
        return (STATUS_SUCCESS, Some written))))))
    (\<lambda>_ s'. file_rel h d0 g s' (overwrite p (take (unat m) buf) d)) (\<lambda>_ _. False) s"
proof -
  note plain = plain_fileD [OF assms(1)]
  let ?D = "overwrite p (take (unat m) buf) d"
  let ?s = "s\<lparr>trace := OnHandle (WriteFileCall (take (unat m) buf)) h True # trace s\<rparr>"
  have "fst (file_after h d0 (trace ?s)) = ?D" using assms(4) by simp
  then have count: "wpf (count_write E h) (\<lambda>_ s'. file_rel h d0 g s' ?D) (\<lambda>_ _. False) ?s"
    using assms(2,3)
    by (intro wpf_mono [OF file_after_count_write [OF assms(1)]]) (simp_all add: file_rel_def)
  have "WriteFile E h bytes s1 = (Ret (True, of_nat (length bytes)),
      s1\<lparr>trace := OnHandle (WriteFileCall bytes) h True # trace s1\<rparr>)" for bytes and s1 :: ctx
    by (simp add: sys_defs syscall_def plain Let_def)
  then have "wpf (WriteFile E h bytes) Q F s1 = Q (True, of_nat (length bytes))
      (s1\<lparr>trace := OnHandle (WriteFileCall bytes) h True # trace s1\<rparr>)" for bytes Q F and s1 :: ctx
    by (simp add: wpf_def)
  then show ?thesis
    using assms(5) by (simp add: wp_simps) (rule wpf_mono [OF count], simp_all add: wp_simps)
qed

lemma write_rel:
  assumes "plain_file E h d0" and "live h" and "file_rel h d0 g s d" and "size_ok d"
    and "unat n \<le> length buf"
  shows "wpf (request_op E fn (WriteOp paging toEnd buf n off))
    (\<lambda>r s'. r = [] \<and> file_rel h d0 g s' (snd (spec_op (WriteOp paging toEnd buf n off) d)))
    (\<lambda>_ _. False) s"
proof -
  let ?s = "s\<lparr>PagingIo := paging, WriteToEndOfFile := toEnd\<rparr>"
  let ?d' = "snd (spec_op (WriteOp paging toEnd buf n off) d)"
  have s: "Context s = h" "globals s = g" "fst (file_after h d0 (trace ?s)) = d"
    using assms(3) by (simp_all add: file_rel_def)
  have h: "\<not> bad_handle h" using assms(2) by (simp add: live_def bad_handle_def)
  have "wpf (write_at E buf n off h False) (\<lambda>_ s'. file_rel h d0 g s' ?d') (\<lambda>_ _. False) ?s"
    unfolding write_at_def wpf_bind
  proof (rule wpf_mono [OF seek_rel [OF assms(1) s(3) assms(4)]], goal_cases)
    case (1 r s1)
    show ?case
    proof (cases r)
      case (Inl early)
      then show ?thesis using 1 s by (auto simp: file_rel_def wp_simps)
    next
      case (Inr m)
      define p where "p = (if toEnd then length d else unat off)"
      have "file_after h d0 (trace s1) = (d, p)" "unat m \<le> length buf" "Context s1 = h" "globals s1 = g"
        using 1 Inr s assms(5) by (auto simp: p_def split: if_splits)
      from bytes_rel [OF assms(1) this(3,4,1,2)]
      have "wpf (case r of Inl early \<Rightarrow> return early | Inr m \<Rightarrow>
          bind (or_fault OutOfBounds
            (if unat m \<le> length buf then Some (take (unat m) buf) else None)) (\<lambda>bytes.
          bind (WriteFile E h bytes) (\<lambda>(ok, written).
          if \<not> ok then
            bind (last_status E) (\<lambda>status. bind (close_if False h) (\<lambda>_. return (status, Some written)))
          else
            bind (count_write E h) (\<lambda>_. bind (close_if False h) (\<lambda>_.
            return (STATUS_SUCCESS, Some written))))))
        (\<lambda>_ s'. file_rel h d0 g s' (overwrite p (take (unat m) buf) d)) (\<lambda>_ _. False) s1"
        unfolding Inr sum.case .
      moreover have "overwrite p (take (unat m) buf) d = ?d'"
        using 1 Inr by (auto simp: p_def append_at_end split: if_splits)
      ultimately show ?thesis by simp
    qed
  qed simp
  from wpf_mono [OF this] show ?thesis
    using s(1) h by (simp add: MirrorWriteFile_def wp_simps del: spec_op.simps)
qed

lemma read_rel:
  assumes "plain_file E h d0" and "live h" and "file_rel h d0 g s d"
    and "GetFilePath_at g fn = Ret path" and "fn \<noteq> bzvolfile"
  shows "wpf (request_op E fn (ReadOp n off))
    (\<lambda>r s'. r = take (unat n) (List.drop (unat off) d) \<and> file_rel h d0 g s' d) (\<lambda>_ _. False) s"
proof -
  note plain = plain_fileD [OF assms(1)]
  have s: "Context s = h" "globals s = g" "fst (file_after h d0 (trace s)) = d"
    using assms(3) by (simp_all add: file_rel_def)
  have h: "\<not> bad_handle h" using assms(2) by (simp add: live_def bad_handle_def)
  obtain p where now: "file_after h d0 (trace s) = (d, p)" using s(3) by (cases "file_after h d0 (trace s)") simp
  show ?thesis
    by (simp add: MirrorReadFile_def uncached_read_def wp_simps s(1,2) assms(4,5) h mk64_split)
      (simp add: sys_defs wp_simps s now plain file_rel_def)
qed

lemma other_rel:
  assumes "plain_file E h d0" and "live h" and "file_rel h d0 g s d" and "size_ok d"
    and "GetFilePath_at g fn = Ret path"
  shows "wpf (request_op E fn (SetEndOp off))
      (\<lambda>r s'. r = [] \<and> file_rel h d0 g s' (resize (unat off) d)) (\<lambda>_ _. False) s"
    and "wpf (request_op E fn FlushOp) (\<lambda>r s'. r = [] \<and> file_rel h d0 g s' d) (\<lambda>_ _. False) s"
    and "unat k < 2 ^ 63 \<Longrightarrow> wpf (request_op E fn (AllocateOp k))
      (\<lambda>r s'. r = [] \<and> file_rel h d0 g s' (if unat k < length d then take (unat k) d else d))
      (\<lambda>_ _. False) s"
proof -
  note plain = plain_fileD [OF assms(1)]
  have s: "Context s = h" "globals s = g" "fst (file_after h d0 (trace s)) = d"
    using assms(3) by (simp_all add: file_rel_def)
  have h: "\<not> bad_handle h" using assms(2) by (simp add: live_def bad_handle_def)
  obtain p where now: "file_after h d0 (trace s) = (d, p)" using s(3) by (cases "file_after h d0 (trace s)") simp
  show "wpf (request_op E fn (SetEndOp off))
      (\<lambda>r s'. r = [] \<and> file_rel h d0 g s' (resize (unat off) d)) (\<lambda>_ _. False) s"
    by (simp add: MirrorSetEndOfFile_def wp_simps sys_defs s assms(5) h now plain file_rel_def)
  show "wpf (request_op E fn FlushOp) (\<lambda>r s'. r = [] \<and> file_rel h d0 g s' d) (\<lambda>_ _. False) s"
    by (simp add: MirrorFlushFileBuffers_def wp_simps sys_defs s assms(5) h now plain file_rel_def)
  assume k: "unat k < 2 ^ 63"
  have "sint (of_nat (length d) :: ulong64) = int (length d)"
    using sint_small [of "of_nat (length d)"] size_word [OF assms(4)] assms(4)
    by (simp add: size_ok_def)
  then have "sint k < sint (of_nat (length d) :: ulong64) \<longleftrightarrow> unat k < length d"
    using sint_small [OF k] by linarith
  then show "wpf (request_op E fn (AllocateOp k))
      (\<lambda>r s'. r = [] \<and> file_rel h d0 g s' (if unat k < length d then take (unat k) d else d))
      (\<lambda>_ _. False) s"
    by (simp add: MirrorSetAllocationSize_def wp_simps sys_defs s assms(5) h now plain file_rel_def
        resize_def)
qed

lemma request_rel:
  assumes "plain_file E h d0" and "live h" and "file_rel h d0 g s d" and "size_ok d" and "op_ok x"
    and "GetFilePath_at g fn = Ret path" and "fn \<noteq> bzvolfile"
  shows "wpf (request_op E fn x)
    (\<lambda>r s'. r = fst (spec_op x d) \<and> file_rel h d0 g s' (snd (spec_op x d))) (\<lambda>_ _. False) s"
proof (cases x)
  case (ReadOp n off)
  show ?thesis unfolding ReadOp spec_op.simps fst_conv snd_conv
    by (rule read_rel [OF assms(1-3,6,7)])
next
  case (WriteOp paging toEnd buf n off)
  have "fst (spec_op x d) = []" by (simp add: WriteOp)
  moreover have "unat n \<le> length buf" using assms(5) by (simp add: WriteOp)
  ultimately show ?thesis unfolding WriteOp using write_rel [OF assms(1-4)] by simp
next
  case (AllocateOp n)
  have "unat n < 2 ^ 63" using assms(5) by (simp add: AllocateOp)
  from other_rel(3) [OF assms(1-4,6) this] show ?thesis
    unfolding AllocateOp spec_op.simps fst_conv snd_conv .
next
  case (SetEndOp off)
  show ?thesis unfolding SetEndOp spec_op.simps fst_conv snd_conv by (rule other_rel(1) [OF assms(1-4,6)])
next
  case FlushOp
  show ?thesis unfolding FlushOp spec_op.simps fst_conv snd_conv by (rule other_rel(2) [OF assms(1-4,6)])
qed

subsection \<open>Any sequence of requests\<close>


text \<open>The sample system with a file behind handle 7.\<close>

definition file_system :: "handle \<Rightarrow> u8 list \<Rightarrow> secos" where
  "file_system h d0 = sample_system\<lparr>
     os_ReadData := (\<lambda>t h' n off. let (d, p) = file_after h d0 t in
       take (unat n) (List.drop (case off of None \<Rightarrow> p | Some k \<Rightarrow> unat k) d)),
     os_FileSize := (\<lambda>t h'. of_nat (length (fst (file_after h d0 t))))\<rparr>"

lemma file_system_plain: "plain_file (file_system h d0) h d0"
  by (simp add: plain_file_def file_system_def sample_system_def Let_def case_prod_beta)


end
