(* ===== verification/QtText.thy ===== *)
theory QtText
  imports Prelude "HOL-Library.List_Lexorder"
begin

text \<open>
  The parts of Qt's value types that the service and its controller compute with: strings (a
  \<open>QString\<close> is a list of 16-bit units, ordered unit by unit) with \<open>split\<close> and \<open>startsWith\<close>, the sorted
  map \<open>QMap\<close>, and the lines of a local socket's buffer.
\<close>

abbreviation SPACE :: wchar where "SPACE \<equiv> 0x20"
abbreviation NEWLINE :: wchar where "NEWLINE \<equiv> 0x0A"
abbreviation SLASH :: wchar where "SLASH \<equiv> 0x2F"

subsection \<open>Splitting\<close>

text \<open>\<open>QString::split\<close> with the separators given by a predicate; empty parts are kept.\<close>

fun split :: "(wchar \<Rightarrow> bool) \<Rightarrow> wstr \<Rightarrow> wstr list" where
  "split sep [] = [[]]"
| "split sep (c # cs) =
     (if sep c then [] # split sep cs
      else (case split sep cs of [] \<Rightarrow> [[c]] | w # ws \<Rightarrow> (c # w) # ws))"

text \<open>\<open>Qt::SkipEmptyParts\<close>\<close>

definition split_skip :: "(wchar \<Rightarrow> bool) \<Rightarrow> wstr \<Rightarrow> wstr list" where
  "split_skip sep s = filter (\<lambda>w. w \<noteq> []) (split sep s)"

lemma split_not_Nil [simp]: "split sep s \<noteq> []"
  by (induction s) (auto split: list.split)

lemma split_free: "\<forall>c \<in> set w. \<not> sep c \<Longrightarrow> split sep w = [w]"
  by (induction w) auto

lemma split_append_sep:
  "\<forall>c \<in> set w. \<not> sep c \<Longrightarrow> sep d \<Longrightarrow> split sep (w @ d # s) = w # split sep s"
  by (induction w) auto

lemma split_skip_append_sep:
  "\<forall>c \<in> set w. \<not> sep c \<Longrightarrow> sep d \<Longrightarrow> w \<noteq> [] \<Longrightarrow>
    split_skip sep (w @ d # s) = w # split_skip sep s"
  by (simp add: split_skip_def split_append_sep)

lemma split_skip_words:
  assumes "\<forall>w \<in> set ws. w \<noteq> [] \<and> (\<forall>c \<in> set w. \<not> sep c)" and "sep d"
  shows "split_skip sep (concat (map (\<lambda>w. w @ [d]) ws)) = ws"
  using assms(1)
proof (induction ws)
  case Nil
  then show ?case by (simp add: split_skip_def)
next
  case (Cons w ws)
  then show ?case using split_skip_append_sep [of w sep d] assms(2) by simp
qed

lemma split_skip_parts:
  "w \<in> set (split_skip sep s) \<Longrightarrow> w \<noteq> []"
  by (simp add: split_skip_def)

definition startsWith :: "wstr \<Rightarrow> wstr \<Rightarrow> bool" where
  "startsWith s p \<longleftrightarrow> take (length p) s = p"

lemma startsWith_append [simp]: "startsWith (p @ s) p"
  by (simp add: startsWith_def)

text \<open>\<open>QString::remove(str)\<close> removes every occurrence, from the left.\<close>

function remove_all :: "wstr \<Rightarrow> wstr \<Rightarrow> wstr" where
  "remove_all p s =
     (if p = [] \<or> s = [] then s
      else if startsWith s p then remove_all p (drop (length p) s)
      else hd s # remove_all p (tl s))"
  by pat_completeness auto

termination
  by (relation "measure (\<lambda>(p, s). length s)") auto

declare remove_all.simps [simp del]

lemma remove_all_prefix: "p \<noteq> [] \<Longrightarrow> remove_all p (p @ s) = remove_all p s"
  by (subst remove_all.simps) simp

lemma remove_all_absent:
  "p \<noteq> [] \<Longrightarrow> hd p \<notin> set s \<Longrightarrow> remove_all p s = s"
proof (induction s)
  case Nil
  then show ?case by (simp add: remove_all.simps)
next
  case (Cons c s)
  have "\<not> startsWith (c # s) p"
    using Cons.prems by (cases p) (auto simp: startsWith_def)
  then show ?case using Cons by (subst remove_all.simps) simp
qed

subsection \<open>Sorted maps\<close>

text \<open>\<open>QMap::operator[]\<close> followed by an assignment.\<close>

fun qmap_insert :: "'k :: linorder \<Rightarrow> 'v \<Rightarrow> ('k \<times> 'v) list \<Rightarrow> ('k \<times> 'v) list" where
  "qmap_insert k v [] = [(k, v)]"
| "qmap_insert k v ((k', v') # m) =
     (if k < k' then (k, v) # (k', v') # m
      else if k = k' then (k, v) # m
      else (k', v') # qmap_insert k v m)"

text \<open>\<open>QMap::key(value, default)\<close>: the first key with the value.\<close>

fun qmap_key :: "'v \<Rightarrow> 'k \<Rightarrow> ('k \<times> 'v) list \<Rightarrow> 'k" where
  "qmap_key v d [] = d"
| "qmap_key v d ((k, v') # m) = (if v = v' then k else qmap_key v d m)"

lemma qmap_insert_lookup:
  "map_of (qmap_insert k v m) = (map_of m)(k \<mapsto> v)"
  by (induction m rule: qmap_insert.induct) (auto simp: fun_eq_iff)

lemma qmap_insert_keys: "fst ` set (qmap_insert k v m) = insert k (fst ` set m)"
  by (induction k v m rule: qmap_insert.induct) (simp_all add: insert_commute)

lemma qmap_insert_sorted:
  "sorted_wrt (<) (map fst m) \<Longrightarrow> sorted_wrt (<) (map fst (qmap_insert k v m))"
proof (induction k v m rule: qmap_insert.induct)
  case (2 k v k' v' m)
  have "fst ` set (qmap_insert k v m) = insert k (fst ` set m)" by (rule qmap_insert_keys)
  then have "\<forall>x \<in> set (qmap_insert k v m). fst x = k \<or> fst x \<in> fst ` set m" by blast
  then show ?case using 2 by fastforce
qed simp

lemma qmap_key_of:
  "distinct (map snd m) \<Longrightarrow> (k, v) \<in> set m \<Longrightarrow> qmap_key v d m = k"
  by (induction m) (auto simp: image_iff)

subsection \<open>Lines\<close>

definition has_line :: "wstr \<Rightarrow> bool" where
  "has_line buf \<longleftrightarrow> NEWLINE \<in> set buf"

text \<open>\<open>QIODevice::readLine\<close>: up to and with the newline, or all there is.\<close>

definition read_line :: "wstr \<Rightarrow> wstr \<times> wstr" where
  "read_line buf =
     (let l = takeWhile (\<lambda>c. c \<noteq> NEWLINE) buf; rest = dropWhile (\<lambda>c. c \<noteq> NEWLINE) buf in
      case rest of [] \<Rightarrow> (l, []) | nl # r \<Rightarrow> (l @ [nl], r))"

lemma read_line_append:
  "NEWLINE \<notin> set l \<Longrightarrow> read_line (l @ NEWLINE # r) = (l @ [NEWLINE], r)"
  by (auto simp: read_line_def takeWhile_append dropWhile_append Let_def)

lemma read_line_free: "NEWLINE \<notin> set l \<Longrightarrow> read_line l = (l, [])"
proof -
  assume "NEWLINE \<notin> set l"
  then have "takeWhile (\<lambda>c. c \<noteq> NEWLINE) l = l" "dropWhile (\<lambda>c. c \<noteq> NEWLINE) l = []"
    by (auto simp: takeWhile_eq_all_conv dropWhile_eq_Nil_conv)
  then show ?thesis by (simp add: read_line_def Let_def del: takeWhile_eq_all_conv dropWhile_eq_Nil_conv)
qed

text \<open>A buffer is one line and the rest, or has no complete line.\<close>

lemma line_cases:
  obtains (line) l r where "buf = l @ NEWLINE # r" "NEWLINE \<notin> set l"
    "read_line buf = (l @ [NEWLINE], r)"
  | (partial) "NEWLINE \<notin> set buf" "read_line buf = (buf, [])"
proof (cases "NEWLINE \<in> set buf")
  case True
  then obtain l r where "buf = l @ NEWLINE # r" "NEWLINE \<notin> set l"
    using split_list_first by fastforce
  then show ?thesis using line read_line_append by blast
qed (use partial read_line_free in blast)

lemma read_line_decreases:
  "buf \<noteq> [] \<Longrightarrow> length (snd (read_line buf)) < length buf"
  by (cases buf rule: line_cases) auto

lemma read_line_concat: "fst (read_line buf) @ snd (read_line buf) = buf"
  by (cases buf rule: line_cases) auto

end
