(* ===== verification/FileMount.thy ===== *)
theory FileMount
  imports Dispatch
begin

text \<open>
  The life of a mount (seamless_smb_lib/filemount.cpp, include/filemount.h): construction, which
  reads the nodes saved by an earlier run, \<open>mount\<close>, \<open>unmount\<close>, \<open>isRunning\<close> and \<open>saveSecurity\<close>. The Dokan
  library that runs the file system and the disk that holds the saved nodes are parameters: the
  library by its answers (record \<open>dokan\<close>), the disk as a map from file names to archives. The
  calls to the library are logged, newest first.
\<close>

abbreviation DOKAN_VERSION :: "16 word" where "DOKAN_VERSION \<equiv> 206"
abbreviation DOKAN_SUCCESS :: int where "DOKAN_SUCCESS \<equiv> 0"
abbreviation DOKAN_OPTION_ALLOW_IPC_BATCHING :: dword
  where "DOKAN_OPTION_ALLOW_IPC_BATCHING \<equiv> 0x1000"

record dokan_options =
  Version :: "16 word"
  SingleThread :: bool
  Options :: dword
  GlobalContext :: ulong64
  opt_MountPoint :: wstr
  opt_UNCName :: wstr
  Timeout :: dword
  AllocationUnitSize :: dword
  SectorSize :: dword

datatype dokan_call =
    FileSystemCreated int handle
  | FileSystemClosed handle
  | AskedRunning handle bool

record dokan =
  dk_create :: "dokan_call list \<Rightarrow> int \<times> handle"
  dk_running :: "dokan_call list \<Rightarrow> handle \<Rightarrow> bool"
  dk_can_write :: "dokan_call list \<Rightarrow> wstr \<Rightarrow> bool"
  dk_location :: wstr
  dk_context :: ulong64

record fmount =
  calls :: "dokan_call list"
  disk :: "wstr \<Rightarrow> item list option"
  dokan_opts :: dokan_options
  mount_globals :: globals
  mount_nodes :: nodes
  fs_handle :: handle
  mounted :: bool

type_synonym 'a fm = "(fmount, 'a) prog"

subsection \<open>Construction\<close>

text \<open>
  The name of the file that keeps the nodes: the root directory with backslashes replaced. The cache
  prints its start through \<open>otherPrint\<close> without a check (\<open>Cache::Cache\<close>), which for a null pointer is
  a call through it.
\<close>

definition datfile :: "dokan \<Rightarrow> wstr \<Rightarrow> wstr" where
  "datfile D root =
     dk_location D @ [BACKSLASH] @ map (\<lambda>c. if c = BACKSLASH then UNDERSCORE else c) root @ W ''.dat''"

definition mount_options :: "dokan \<Rightarrow> globals \<Rightarrow> dokan_options \<Rightarrow> dokan_options" where
  "mount_options D g opts =
     opts\<lparr>Version := DOKAN_VERSION, opt_MountPoint := m_MountPoint g, opt_UNCName := c_str (m_UNCName g),
       GlobalContext := dk_context D, Options := DOKAN_OPTION_ALLOW_IPC_BATCHING\<rparr>"

definition FileMount ::
  "dokan \<Rightarrow> globals \<Rightarrow> dokan_options \<Rightarrow> bool \<Rightarrow> (wstr \<Rightarrow> item list option) \<Rightarrow> fmount outcome" where
  "FileMount D g opts otherPrint d =
    (let m = \<lparr>calls = [], disk = d, dokan_opts = mount_options D g opts, mount_globals = g,
              mount_nodes = empty_nodes, fs_handle = 0, mounted = False\<rparr> in
     if \<not> otherPrint then Fault NullPointer
     else case d (datfile D (m_RootDirectory g)) of
       None \<Rightarrow> Ret m
     | Some ts \<Rightarrow>
         (case load_nodes ts empty_nodes of
            None \<Rightarrow> Fault LibraryException
          | Some (n, rest) \<Rightarrow> Ret (m\<lparr>mount_nodes := n\<rparr>)))"

subsection \<open>Operations\<close>

definition log_call :: "dokan_call \<Rightarrow> unit fm" where
  "log_call c = modify (\<lambda>s. s\<lparr>calls := c # calls s\<rparr>)"

text \<open>The library stores the instance through the pointer it is given.\<close>

definition mount :: "dokan \<Rightarrow> int fm" where
  "mount D =
    bind (gets mounted) (\<lambda>already.
    if already then return DOKAN_SUCCESS
    else
      bind (gets (\<lambda>s. dk_create D (calls s))) (\<lambda>(status, h).
      bind (log_call (FileSystemCreated status h)) (\<lambda>_.
      bind (modify (\<lambda>s. s\<lparr>fs_handle := h\<rparr>)) (\<lambda>_.
      bind (whenM (status = DOKAN_SUCCESS) (modify (\<lambda>s. s\<lparr>mounted := True\<rparr>))) (\<lambda>_.
      return status)))))"

definition DokanIsFileSystemRunning :: "dokan \<Rightarrow> handle \<Rightarrow> bool fm" where
  "DokanIsFileSystemRunning D h =
    bind (gets (\<lambda>s. dk_running D (calls s) h)) (\<lambda>r.
    bind (log_call (AskedRunning h r)) (\<lambda>_. return r))"

definition saveSecurity :: "dokan \<Rightarrow> unit fm" where
  "saveSecurity D =
    bind (gets (\<lambda>s. datfile D (m_RootDirectory (mount_globals s)))) (\<lambda>file.
    bind (gets (\<lambda>s. dk_can_write D (calls s) file)) (\<lambda>ok.
    whenM ok
      (bind (gets (\<lambda>s. save_nodes (mount_nodes s))) (\<lambda>r.
       bind (lift_outcome r) (\<lambda>ts.
       modify (\<lambda>s. s\<lparr>disk := (disk s)(file \<mapsto> ts)\<rparr>))))))"

definition unmount :: "dokan \<Rightarrow> unit fm" where
  "unmount D =
    bind (gets mounted) (\<lambda>m.
    bind (gets fs_handle) (\<lambda>h.
    bind (if m \<and> h \<noteq> 0 then DokanIsFileSystemRunning D h else return False) (\<lambda>running.
    whenM running
      (bind (log_call (FileSystemClosed h)) (\<lambda>_.
       bind (modify (\<lambda>s. s\<lparr>mounted := False, fs_handle := 0\<rparr>)) (\<lambda>_.
       saveSecurity D))))))"

definition isRunning :: "dokan \<Rightarrow> bool fm" where
  "isRunning D =
    bind (gets mounted) (\<lambda>m.
    bind (gets fs_handle) (\<lambda>h.
    if m \<and> h \<noteq> 0 then
      bind (DokanIsFileSystemRunning D h) (\<lambda>running.
      bind (whenM (\<not> running)
             (bind (modify (\<lambda>s. s\<lparr>mounted := False\<rparr>)) (\<lambda>_.
              bind (log_call (FileSystemClosed h)) (\<lambda>_.
              modify (\<lambda>s. s\<lparr>fs_handle := 0\<rparr>))))) (\<lambda>_.
      return running))
    else return False))"

definition getRootDir :: "wstr fm" where "getRootDir = gets (\<lambda>s. m_RootDirectory (mount_globals s))"
definition getMountPoint :: "wstr fm" where "getMountPoint = gets (\<lambda>s. m_MountPoint (mount_globals s))"
definition getVolumeName :: "wstr fm" where "getVolumeName = gets (\<lambda>s. m_volname (mount_globals s))"

subsection \<open>Options\<close>

text \<open>
  The options a mount was configured with do not reach the driver: whatever option bits the
  settings ask for, the mount is created with DOKAN_OPTION_ALLOW_IPC_BATCHING alone. The mount point
  and the thread mode do reach it.
\<close>

theorem mount_options_overridden:
  "Options (mount_options D g opts) = DOKAN_OPTION_ALLOW_IPC_BATCHING \<and>
   opt_MountPoint (mount_options D g opts) = m_MountPoint g \<and>
   SingleThread (mount_options D g opts) = SingleThread opts"
  by (simp add: mount_options_def)

subsection \<open>The file of the nodes\<close>

text \<open>
  Two mounts can share one file of nodes: roots that differ only in backslash against underscore
  have the same file name, and the later one to save overwrites the other's security descriptors.
\<close>

theorem datfile_collision:
  "datfile D root = datfile D root' \<longleftrightarrow>
     map (\<lambda>c. if c = BACKSLASH then UNDERSCORE else c) root =
     map (\<lambda>c. if c = BACKSLASH then UNDERSCORE else c) root'"
  by (simp add: datfile_def)

subsection \<open>Life cycle\<close>

text \<open>File systems created, less those closed.\<close>

fun running_count :: "dokan_call \<Rightarrow> int" where
  "running_count (FileSystemCreated status h) = of_bool (status = DOKAN_SUCCESS)"
| "running_count (FileSystemClosed h) = -1"
| "running_count (AskedRunning h b) = 0"

definition instances :: "dokan_call list \<Rightarrow> int" where
  "instances cs = sum_list (map running_count cs)"

datatype operation = DoMount | DoUnmount | AskRunning

fun operate :: "dokan \<Rightarrow> operation \<Rightarrow> unit fm" where
  "operate D DoMount = bind (mount D) (\<lambda>_. return ())"
| "operate D DoUnmount = unmount D"
| "operate D AskRunning = bind (isRunning D) (\<lambda>_. return ())"

fun operate_all :: "dokan \<Rightarrow> operation list \<Rightarrow> unit fm" where
  "operate_all D [] = return ()"
| "operate_all D (x # xs) = bind (operate D x) (\<lambda>_. operate_all D xs)"

definition life_ok :: "fmount \<Rightarrow> bool" where
  "life_ok s \<longleftrightarrow> instances (calls s) = of_bool (mounted s) \<and> (mounted s \<longrightarrow> fs_handle s \<noteq> 0)"

lemma operate_life:
  assumes "\<And>cs h. dk_create D cs = (DOKAN_SUCCESS, h) \<Longrightarrow> h \<noteq> 0"
  shows "preserves life_ok (operate D x)"
proof (rule preserves_by_wpf)
  fix s
  assume "life_ok s"
  then show "wpf (operate D x) (\<lambda>_. life_ok) (\<lambda>_. life_ok) s"
    using assms
    by (cases x; cases "dk_create D (calls s)")
      (auto simp: mount_def unmount_def isRunning_def DokanIsFileSystemRunning_def saveSecurity_def
        log_call_def life_ok_def instances_def wp_simps split: outcome.split)
qed

lemma operate_all_life:
  assumes "\<And>cs h. dk_create D cs = (DOKAN_SUCCESS, h) \<Longrightarrow> h \<noteq> 0"
  shows "preserves life_ok (operate_all D xs)"
  by (induction xs) (simp_all add: preserves_intros operate_life [OF assms])

text \<open>
  C27: A mount never leaks or doubles its file system. Whatever sequence of mount, unmount and status
  queries is made of a new mount, the file systems created and not yet closed number one while it
  is mounted and none otherwise. (The library is documented to give an instance when it succeeds.)
\<close>

theorem one_file_system:
  assumes "FileMount D g opts True d = Ret s"
    and "\<And>cs h. dk_create D cs = (DOKAN_SUCCESS, h) \<Longrightarrow> h \<noteq> 0"
  shows "instances (calls (snd (operate_all D xs s))) = of_bool (mounted (snd (operate_all D xs s)))"
proof -
  have "life_ok s"
    using assms(1)
    by (auto simp: FileMount_def life_ok_def instances_def Let_def split: option.splits prod.splits)
  moreover have "preserves life_ok (operate_all D xs)"
    using assms(2) by (rule operate_all_life)
  ultimately have "life_ok (snd (operate_all D xs s))" by (simp add: preservesD)
  then show ?thesis by (simp add: life_ok_def)
qed

definition sample_dokan :: dokan where
  "sample_dokan = \<lparr>dk_create = (\<lambda>cs. (DOKAN_SUCCESS, 5)), dk_running = (\<lambda>cs h. True),
     dk_can_write = (\<lambda>cs f. True), dk_location = W ''P'', dk_context = 1\<rparr>"

definition sample_options :: dokan_options where
  "sample_options = \<lparr>Version = 0, SingleThread = False, Options = 0x10, GlobalContext = 0,
     opt_MountPoint = [], opt_UNCName = [], Timeout = 0, AllocationUnitSize = 0, SectorSize = 0\<rparr>"

definition sample_fmount :: fmount where
  "sample_fmount = \<lparr>calls = [], disk = (\<lambda>_. None),
     dokan_opts = mount_options sample_dokan sample_globals sample_options,
     mount_globals = sample_globals, mount_nodes = empty_nodes, fs_handle = 0, mounted = False\<rparr>"

lemma sample_FileMount:
  "FileMount sample_dokan sample_globals sample_options True (\<lambda>_. None) = Ret sample_fmount"
  by (simp add: FileMount_def sample_fmount_def)

theorem one_file_system_witness:
  "instances (calls (snd (operate_all sample_dokan [DoMount, DoMount, AskRunning] sample_fmount))) =
    of_bool (mounted (snd (operate_all sample_dokan [DoMount, DoMount, AskRunning] sample_fmount)))"
  by (rule one_file_system [OF sample_FileMount]) (simp add: sample_dokan_def)

subsection \<open>Restart\<close>

text \<open>
  Security descriptors survive a restart. When a mounted, running mount with well-formed nodes is
  unmounted and its file can be written, a new mount of the same root directory starts with the
  same nodes: every name finds an equal node, or none where there was none.
\<close>

lemma restart_keeps_security:
  assumes "mounted s" and "fs_handle s \<noteq> 0" and "nodes_ok (mount_nodes s)"
    and "dk_running D (calls s) (fs_handle s)"
    and "dk_can_write D (FileSystemClosed (fs_handle s) # AskedRunning (fs_handle s) True # calls s)
      (datfile D (m_RootDirectory (mount_globals s)))"
  shows "\<exists>s' new. unmount D s = (Ret (), s') \<and> \<not> mounted s' \<and>
    FileMount D (mount_globals s) opts True (disk s') = Ret new \<and> nodes_ok (mount_nodes new) \<and>
    (\<forall>f. map_option (store (mount_nodes new)) (findFileNode (mount_nodes new) f) =
         map_option (store (mount_nodes s)) (findFileNode (mount_nodes s) f))"
proof -
  obtain ts n' where saved: "save_nodes (mount_nodes s) = Ret ts"
    "load_nodes ts empty_nodes = Some (n', [])" "nodes_ok n'"
    "\<forall>f. map_option (store n') (findFileNode n' f) =
         map_option (store (mount_nodes s)) (findFileNode (mount_nodes s) f)"
    using archive_roundtrip [OF assms(3) nodes_ok_empty] by blast
  let ?f = "datfile D (m_RootDirectory (mount_globals s))"
  have "wpf (unmount D) (\<lambda>_ s'. \<not> mounted s' \<and> disk s' ?f = Some ts) (\<lambda>_ _. False) s"
    using assms saved(1)
    by (simp add: unmount_def DokanIsFileSystemRunning_def saveSecurity_def log_call_def wp_simps)
  then obtain s' where "unmount D s = (Ret (), s')" "\<not> mounted s'" "disk s' ?f = Some ts"
    by (auto simp: wpf_def split: prod.splits outcome.splits)
  then show ?thesis
    using saved(2-4)
    by (intro exI [of _ s'] exI [of _ "\<lparr>calls = [], disk = disk s',
        dokan_opts = mount_options D (mount_globals s) opts, mount_globals = mount_globals s,
        mount_nodes = n', fs_handle = 0, mounted = False\<rparr>"])
      (simp add: FileMount_def Let_def)
qed

text \<open>
  A file system that stopped by itself takes its security descriptors with it: once \<open>isRunning\<close> has
  seen it stopped, nothing has been saved and a later \<open>unmount\<close> saves nothing either.
\<close>

theorem stopped_mount_saves_nothing:
  "wpf (bind (isRunning D) (\<lambda>r. bind (unmount D) (\<lambda>_. return r)))
    (\<lambda>r s'. r \<or> disk s' = disk s) (\<lambda>_ _. True) s"
  by (auto simp: isRunning_def unmount_def DokanIsFileSystemRunning_def log_call_def wp_simps
      saveSecurity_def split: outcome.split)

end
