(* ===== verification/Common.thy ===== *)
theory Common
  imports QtText Codec FileMount
begin

text \<open>
  What the service, its worker processes and the controller share (seamless_smb_common/common.cpp,
  common.h): the settings of one mount, their comparison, their form in the settings file, and the
  conversion of mount options from and to text. A \<open>QDataStream\<close> is the sequence of the values
  written to it; reading a value of another kind than the one written is \<open>None\<close>.
\<close>

type_synonym uuid = "128 word"

record mountinfo =
  RootDirectory :: wstr
  MountPoint :: wstr
  UNCName :: wstr
  volname :: wstr
  CaseSensitive :: bool
  ImpersonateCallerUser :: bool
  HasSeSecurityPrivilege :: bool
  uuid :: uuid
  enabled :: bool
  keepAlive :: bool
  debug :: bool
  cerr :: bool
  singlethreaded :: bool
  options :: dword

text \<open>The identifier a new mount gets is chosen by \<open>QUuid::createUuid\<close>.\<close>

definition new_MountInfo :: "uuid \<Rightarrow> mountinfo" where
  "new_MountInfo createUuid = \<lparr>RootDirectory = [], MountPoint = [], UNCName = [], volname = [],
     CaseSensitive = False, ImpersonateCallerUser = False, HasSeSecurityPrivilege = False,
     uuid = createUuid, enabled = False, keepAlive = False, debug = False, cerr = False,
     singlethreaded = False, options = 0\<rparr>"

definition same_info :: "mountinfo \<Rightarrow> mountinfo \<Rightarrow> bool" where
  "same_info a other \<longleftrightarrow>
     RootDirectory a = RootDirectory other \<and> MountPoint a = MountPoint other \<and>
     UNCName a = UNCName other \<and> volname a = volname other \<and>
     CaseSensitive a = CaseSensitive other \<and>
     ImpersonateCallerUser a = ImpersonateCallerUser other \<and>
     HasSeSecurityPrivilege a = HasSeSecurityPrivilege other \<and> enabled a = enabled other \<and>
     keepAlive a = keepAlive other \<and> options a = options other"

definition differ :: "mountinfo \<Rightarrow> mountinfo \<Rightarrow> bool" where
  "differ a other \<longleftrightarrow> \<not> same_info a other"

lemma same_info_refl [simp]: "same_info a a"
  by (simp add: same_info_def)

lemma same_info_sym: "same_info a b \<longleftrightarrow> same_info b a"
  by (auto simp: same_info_def)

lemma same_info_trans: "same_info a b \<Longrightarrow> same_info b c \<Longrightarrow> same_info a c"
  by (simp add: same_info_def)

text \<open>What the comparison does not see: the identifier and three of the settings.\<close>

lemma same_info_blind:
  "same_info a b \<longleftrightarrow>
    a = b\<lparr>uuid := uuid a, debug := debug a, cerr := cerr a, singlethreaded := singlethreaded a\<rparr>"
  by (cases a; cases b) (auto simp: same_info_def)

subsection \<open>The settings file\<close>

datatype qitem = QStr wstr | QBool bool | QGuid uuid | QU32 dword

definition write_MountInfo :: "mountinfo \<Rightarrow> qitem list" where
  "write_MountInfo v =
     [QStr (RootDirectory v), QStr (MountPoint v), QStr (UNCName v), QStr (volname v),
      QBool (CaseSensitive v), QBool (ImpersonateCallerUser v), QBool (HasSeSecurityPrivilege v),
      QGuid (uuid v), QBool (debug v), QBool (cerr v), QBool (singlethreaded v),
      QBool (enabled v), QBool (keepAlive v), QU32 (options v)]"

fun get_str :: "qitem list \<Rightarrow> (wstr \<times> qitem list) option" where
  "get_str (QStr x # ts) = Some (x, ts)"
| "get_str _ = None"

fun get_bool :: "qitem list \<Rightarrow> (bool \<times> qitem list) option" where
  "get_bool (QBool x # ts) = Some (x, ts)"
| "get_bool _ = None"

fun get_uuid :: "qitem list \<Rightarrow> (uuid \<times> qitem list) option" where
  "get_uuid (QGuid x # ts) = Some (x, ts)"
| "get_uuid _ = None"

fun get_u32 :: "qitem list \<Rightarrow> (dword \<times> qitem list) option" where
  "get_u32 (QU32 x # ts) = Some (x, ts)"
| "get_u32 _ = None"

text \<open>\<open>in >> x\<close>, and the rest of the statement.\<close>

definition into ::
  "(qitem list \<Rightarrow> ('a \<times> qitem list) option) \<Rightarrow> ('a \<Rightarrow> qitem list \<Rightarrow> 'b option) \<Rightarrow>
    qitem list \<Rightarrow> 'b option" where
  "into get f ts = (case get ts of None \<Rightarrow> None | Some (x, r) \<Rightarrow> f x r)"

definition read_MountInfo :: "qitem list \<Rightarrow> (mountinfo \<times> qitem list) option" where
  "read_MountInfo =
     into get_str (\<lambda>rd. into get_str (\<lambda>mp. into get_str (\<lambda>unc. into get_str (\<lambda>vn.
     into get_bool (\<lambda>cs. into get_bool (\<lambda>icu. into get_bool (\<lambda>hss. into get_uuid (\<lambda>u.
     into get_bool (\<lambda>d. into get_bool (\<lambda>ce. into get_bool (\<lambda>st.
     into get_bool (\<lambda>en. into get_bool (\<lambda>ka. into get_u32 (\<lambda>opt r.
       Some (\<lparr>RootDirectory = rd, MountPoint = mp, UNCName = unc, volname = vn,
         CaseSensitive = cs, ImpersonateCallerUser = icu, HasSeSecurityPrivilege = hss, uuid = u,
         enabled = en, keepAlive = ka, debug = d, cerr = ce, singlethreaded = st,
         options = opt\<rparr>, r)))))))))))))))"

interpretation ds_info: codec "\<lambda>_. True" write_MountInfo read_MountInfo
  by unfold_locales (simp add: write_MountInfo_def read_MountInfo_def into_def)

text \<open>
  The list of mounts under the key \<open>Mounts\<close>: its length and the mounts. A missing or unreadable
  value is the empty list.
\<close>

type_synonym mlist = "mountinfo list"

definition write_mlist :: "mlist \<Rightarrow> qitem list" where
  "write_mlist ms = QU32 (of_nat (length ms)) # concat (map write_MountInfo ms)"

fun read_mlist :: "qitem list \<Rightarrow> (mlist \<times> qitem list) option" where
  "read_mlist (QU32 n # ts) = dec_items read_MountInfo (unat n) ts"
| "read_mlist _ = None"

definition mlist_ok :: "mlist \<Rightarrow> bool" where
  "mlist_ok ms \<longleftrightarrow> length ms < 2 ^ 32"

interpretation ds_mlist: codec mlist_ok write_mlist read_mlist
proof
  fix ms r
  assume "mlist_ok ms"
  then have n: "unat (of_nat (length ms) :: dword) = length ms"
    by (simp add: mlist_ok_def unat_of_nat take_bit_nat_eq_self)
  have "dec_items read_MountInfo (length ms) (concat (map write_MountInfo ms) @ r) = Some (ms, r)"
    by (rule ds_info.dec_items_enc) (simp add: list_all_iff)
  then show "read_mlist (write_mlist ms @ r) = Some (ms, r)"
    by (simp add: write_mlist_def n)
qed

definition mounts_value :: "qitem list option \<Rightarrow> mlist" where
  "mounts_value v =
     (case v of None \<Rightarrow> []
      | Some ts \<Rightarrow> (case read_mlist ts of None \<Rightarrow> [] | Some (ms, _) \<Rightarrow> ms))"

lemma mounts_value_write: "mlist_ok ms \<Longrightarrow> mounts_value (Some (write_mlist ms)) = ms"
  by (simp add: mounts_value_def ds_mlist.dec_enc_empty)

subsection \<open>Mount options as text\<close>

abbreviation DOKAN_OPTION_DEBUG :: dword where "DOKAN_OPTION_DEBUG \<equiv> 0x1"
abbreviation DOKAN_OPTION_STDERR :: dword where "DOKAN_OPTION_STDERR \<equiv> 0x2"
abbreviation DOKAN_OPTION_ALT_STREAM :: dword where "DOKAN_OPTION_ALT_STREAM \<equiv> 0x4"
abbreviation DOKAN_OPTION_WRITE_PROTECT :: dword where "DOKAN_OPTION_WRITE_PROTECT \<equiv> 0x8"
abbreviation DOKAN_OPTION_NETWORK :: dword where "DOKAN_OPTION_NETWORK \<equiv> 0x10"
abbreviation DOKAN_OPTION_REMOVABLE :: dword where "DOKAN_OPTION_REMOVABLE \<equiv> 0x20"
abbreviation DOKAN_OPTION_MOUNT_MANAGER :: dword where "DOKAN_OPTION_MOUNT_MANAGER \<equiv> 0x40"
abbreviation DOKAN_OPTION_CURRENT_SESSION :: dword where "DOKAN_OPTION_CURRENT_SESSION \<equiv> 0x80"
abbreviation DOKAN_OPTION_FILELOCK_USER_MODE :: dword
  where "DOKAN_OPTION_FILELOCK_USER_MODE \<equiv> 0x100"
abbreviation DOKAN_OPTION_CASE_SENSITIVE :: dword where "DOKAN_OPTION_CASE_SENSITIVE \<equiv> 0x200"
abbreviation DOKAN_OPTION_ENABLE_UNMOUNT_NETWORK_DRIVE :: dword
  where "DOKAN_OPTION_ENABLE_UNMOUNT_NETWORK_DRIVE \<equiv> 0x400"
abbreviation DOKAN_OPTION_DISPATCH_DRIVER_LOGS :: dword
  where "DOKAN_OPTION_DISPATCH_DRIVER_LOGS \<equiv> 0x800"

definition stringmappings :: "(wstr \<times> dword) list" where
  "stringmappings =
     foldl (\<lambda>m (k, v). qmap_insert k v m) []
      [(W ''DOKAN_OPTION_DEBUG'', DOKAN_OPTION_DEBUG),
       (W ''DOKAN_OPTION_STDERR'', DOKAN_OPTION_STDERR),
       (W ''DOKAN_OPTION_ALT_STREAM'', DOKAN_OPTION_ALT_STREAM),
       (W ''DOKAN_OPTION_WRITE_PROTECT'', DOKAN_OPTION_WRITE_PROTECT),
       (W ''DOKAN_OPTION_NETWORK'', DOKAN_OPTION_NETWORK),
       (W ''DOKAN_OPTION_REMOVABLE'', DOKAN_OPTION_REMOVABLE),
       (W ''DOKAN_OPTION_MOUNT_MANAGER'', DOKAN_OPTION_MOUNT_MANAGER),
       (W ''DOKAN_OPTION_CURRENT_SESSION'', DOKAN_OPTION_CURRENT_SESSION),
       (W ''DOKAN_OPTION_FILELOCK_USER_MODE'', DOKAN_OPTION_FILELOCK_USER_MODE),
       (W ''DOKAN_OPTION_CASE_SENSITIVE'', DOKAN_OPTION_CASE_SENSITIVE),
       (W ''DOKAN_OPTION_ENABLE_UNMOUNT_NETWORK_DRIVE'', DOKAN_OPTION_ENABLE_UNMOUNT_NETWORK_DRIVE),
       (W ''DOKAN_OPTION_DISPATCH_DRIVER_LOGS'', DOKAN_OPTION_DISPATCH_DRIVER_LOGS)]"

text \<open>The separators: the pattern escapes the slash, the backslash itself is none.\<close>

definition separator :: "wchar \<Rightarrow> bool" where
  "separator c \<longleftrightarrow> c = SPACE \<or> c = 0x2C \<or> c = 0x3B \<or> c = COLON \<or> c = SLASH \<or> c = 0x7C"

definition add_option :: "dword \<Rightarrow> wstr \<Rightarrow> dword" where
  "add_option opt s =
     (case map_of stringmappings s of None \<Rightarrow> opt | Some f \<Rightarrow> opt OR f)"

definition convertStringToOptions :: "wstr \<Rightarrow> dword" where
  "convertStringToOptions str = foldl add_option 0 (split_skip separator str)"

definition checkFlag :: "dword \<Rightarrow> wstr \<Rightarrow> dword \<Rightarrow> wstr" where
  "checkFlag opts str opt =
     (if opts AND opt \<noteq> 0 then
        (let tmpstr = qmap_key opt [] stringmappings in
         if tmpstr \<noteq> [] then str @ tmpstr @ [SPACE] else str)
      else str)"

definition convertOptionsToString :: "dword \<Rightarrow> wstr" where
  "convertOptionsToString opts = foldl (checkFlag opts) [] (map snd stringmappings)"

subsection \<open>The conversion of options\<close>

lemma stringmappings_eq:
  "stringmappings =
     [(W ''DOKAN_OPTION_ALT_STREAM'', 0x4), (W ''DOKAN_OPTION_CASE_SENSITIVE'', 0x200),
      (W ''DOKAN_OPTION_CURRENT_SESSION'', 0x80), (W ''DOKAN_OPTION_DEBUG'', 0x1),
      (W ''DOKAN_OPTION_DISPATCH_DRIVER_LOGS'', 0x800),
      (W ''DOKAN_OPTION_ENABLE_UNMOUNT_NETWORK_DRIVE'', 0x400),
      (W ''DOKAN_OPTION_FILELOCK_USER_MODE'', 0x100), (W ''DOKAN_OPTION_MOUNT_MANAGER'', 0x40),
      (W ''DOKAN_OPTION_NETWORK'', 0x10), (W ''DOKAN_OPTION_REMOVABLE'', 0x20),
      (W ''DOKAN_OPTION_STDERR'', 0x2), (W ''DOKAN_OPTION_WRITE_PROTECT'', 0x8)]"
  by code_simp

text \<open>What the round trip needs of the table: names that are words, and one bit for each name.\<close>

lemma stringmappings_names:
  "\<forall>n \<in> set (map fst stringmappings). n \<noteq> [] \<and> (\<forall>c \<in> set n. \<not> separator c)"
  unfolding stringmappings_eq by code_simp

lemma stringmappings_distinct:
  "distinct (map fst stringmappings)" "distinct (map snd stringmappings)"
  unfolding stringmappings_eq by code_simp+

lemma stringmappings_bits: "set (map snd stringmappings) \<subseteq> (\<lambda>k. push_bit k 1) ` {..<32}"
proof -
  have "map snd stringmappings = map (\<lambda>k. push_bit k 1) [2, 9, 7, 0, 11, 10, 8, 6, 4, 5, 1, 3]"
    unfolding stringmappings_eq by code_simp
  then have "set (map snd stringmappings) = (\<lambda>k. push_bit k 1) ` {2, 9, 7, 0, 11, 10, 8, 6, 4, 5, 1, 3}"
    by (simp only: set_map list.set)
  moreover have "{2, 9, 7, 0, 11, 10, 8, 6, 4, 5, 1, 3} \<subseteq> {..<32 :: nat}" by simp
  ultimately show ?thesis by (simp only: image_mono)
qed

lemma and_single_bit:
  fixes x f :: dword
  assumes "f \<in> (\<lambda>k. push_bit k 1) ` {..<32}" and "x AND f \<noteq> 0"
  shows "x AND f = f"
proof -
  obtain k where f: "f = push_bit k 1" using assms(1) by blast
  have "bit x k"
  proof (rule ccontr)
    assume "\<not> bit x k"
    then have "x AND f = 0" unfolding f by (intro bit_word_eqI) (auto simp: bit_simps)
    with assms(2) show False by simp
  qed
  then show ?thesis unfolding f by (intro bit_word_eqI) (auto simp: bit_simps)
qed

definition set_names :: "dword \<Rightarrow> wstr list" where
  "set_names opts = map fst (filter (\<lambda>(n, f). has_flag opts f) stringmappings)"

lemma checkFlag_fold:
  assumes "set xs \<subseteq> set stringmappings"
  shows "foldl (checkFlag opts) str (map snd xs) =
    str @ concat (map (\<lambda>w. w @ [SPACE]) (map fst (filter (\<lambda>(n, f). has_flag opts f) xs)))"
  using assms
proof (induction xs arbitrary: str)
  case (Cons x xs)
  obtain n f where x: "x = (n, f)" by (cases x)
  have "qmap_key f [] stringmappings = n" "n \<noteq> []"
    using Cons.prems qmap_key_of [OF stringmappings_distinct(2), of n f] stringmappings_names
    by (auto simp: x)
  then show ?case using Cons by (simp add: x checkFlag_def Let_def)
qed simp

lemma convertOptionsToString_eq:
  "convertOptionsToString opts = concat (map (\<lambda>w. w @ [SPACE]) (set_names opts))"
  using checkFlag_fold [of stringmappings opts "[]"]
  by (simp add: convertOptionsToString_def set_names_def)

lemma words_of_options: "split_skip separator (convertOptionsToString opts) = set_names opts"
proof -
  have "set (set_names opts) \<subseteq> set (map fst stringmappings)" by (auto simp: set_names_def)
  then show ?thesis
    unfolding convertOptionsToString_eq
    using stringmappings_names by (intro split_skip_words) (blast, simp add: separator_def)
qed

lemma add_option_fold:
  assumes "set xs \<subseteq> set stringmappings"
  shows "foldl add_option acc (map fst (filter (\<lambda>(n, f). has_flag opts f) xs)) =
    acc OR (opts AND foldr (\<lambda>(n, f) a. f OR a) xs 0)"
  using assms
proof (induction xs arbitrary: acc)
  case (Cons x xs)
  obtain n f where x: "x = (n, f)" by (cases x)
  have mem: "(n, f) \<in> set stringmappings" using Cons.prems by (simp add: x)
  then have look: "map_of stringmappings n = Some f"
    using stringmappings_distinct(1) by simp
  have "f \<in> set (map snd stringmappings)" using mem by force
  then have flag: "opts AND f = f" if "has_flag opts f"
    using and_single_bit [of f opts] stringmappings_bits that by auto
  show ?case
    using Cons look flag
    by (cases "has_flag opts f") (simp_all add: x add_option_def bit.conj_disj_distrib or.assoc)
qed simp

text \<open>
  C39: Options survive the way to text and back, as far as the converter knows them: converting any
  option word to text and the text back keeps exactly its twelve low bits.
  DOKAN_OPTION_ALLOW_IPC_BATCHING (bit 12) has no name and is lost.
\<close>

theorem options_text_roundtrip:
  "convertStringToOptions (convertOptionsToString opts) = opts AND 0xFFF"
proof -
  have "convertStringToOptions (convertOptionsToString opts) =
      opts AND foldr (\<lambda>(n, f) a. f OR a) stringmappings 0"
    using add_option_fold [of stringmappings 0 opts]
    by (simp add: convertStringToOptions_def words_of_options set_names_def)
  also have "foldr (\<lambda>(n, f) a. f OR a) stringmappings 0 = 0xFFF"
    unfolding stringmappings_eq by simp
  finally show ?thesis .
qed

end
