(* ===== verification/MountTable.thy ===== *)
theory MountTable
  imports Common
begin

text \<open>
  The contract that keeps a table of mounts in step with the settings (locale \<open>mount_table\<close>): the
  three operations a reload applies, what each does to the table seen as a map from identifiers,
  and, proved once from these laws, what the difference computed by a reload leads to. The daemon's
  list of worker processes provides it (theory Daemon).
\<close>

locale mount_table =
  fixes inv :: "'s \<Rightarrow> bool"
    and look :: "'s \<Rightarrow> uuid \<Rightarrow> 'e option"
    and val :: "'e \<Rightarrow> mountinfo"
    and fresh :: "'s \<Rightarrow> 'e \<Rightarrow> bool"
    and rem add_to modi :: "mountinfo \<Rightarrow> 's \<Rightarrow> 's"
  assumes look_rem: "inv s \<Longrightarrow> look (rem i s) = (look s)(uuid i := None)"
    and look_add: "inv s \<Longrightarrow> look s (uuid i) = None \<Longrightarrow>
      \<exists>e. val e = i \<and> fresh s e \<and> look (add_to i s) = (look s)(uuid i \<mapsto> e)"
    and look_modi: "inv s \<Longrightarrow> look s (uuid i) \<noteq> None \<Longrightarrow>
      \<exists>e. val e = i \<and> fresh s e \<and> look (modi i s) = (look s)(uuid i \<mapsto> e)"
    and inv_rem: "inv s \<Longrightarrow> inv (rem i s)"
    and inv_add: "inv s \<Longrightarrow> look s (uuid i) = None \<Longrightarrow> inv (add_to i s)"
    and inv_modi: "inv s \<Longrightarrow> look s (uuid i) \<noteq> None \<Longrightarrow> inv (modi i s)"
    and fresh_rem: "fresh (rem i s) e \<Longrightarrow> fresh s e"
    and fresh_add: "fresh (add_to i s) e \<Longrightarrow> fresh s e"
    and fresh_modi: "fresh (modi i s) e \<Longrightarrow> fresh s e"
begin

lemma fold_rem:
  "inv s \<Longrightarrow> inv (fold rem rm s) \<and>
    look (fold rem rm s) = (\<lambda>u. if u \<in> uuid ` set rm then None else look s u) \<and>
    (\<forall>e. fresh (fold rem rm s) e \<longrightarrow> fresh s e)"
proof (induction rm arbitrary: s)
  case (Cons i rm)
  then show ?case
    using look_rem [of s i] inv_rem [of s i] by (auto simp: fun_eq_iff dest: fresh_rem)
qed simp

text \<open>Putting mounts with different identifiers, by either operation.\<close>

lemma fold_put:
  assumes step: "\<And>s i. inv s \<Longrightarrow> C (look s (uuid i)) \<Longrightarrow>
      inv (put i s) \<and> (\<exists>e. val e = i \<and> fresh s e \<and> look (put i s) = (look s)(uuid i \<mapsto> e))"
    and mono: "\<And>i s e. fresh (put i s) e \<Longrightarrow> fresh s e"
  shows "inv s \<Longrightarrow> distinct (map uuid xs) \<Longrightarrow> \<forall>i \<in> set xs. C (look s (uuid i)) \<Longrightarrow>
    inv (fold put xs s) \<and>
    (\<forall>u. u \<notin> uuid ` set xs \<longrightarrow> look (fold put xs s) u = look s u) \<and>
    (\<forall>i \<in> set xs. \<exists>e. look (fold put xs s) (uuid i) = Some e \<and> val e = i \<and> fresh s e) \<and>
    (\<forall>e. fresh (fold put xs s) e \<longrightarrow> fresh s e)"
proof (induction xs arbitrary: s)
  case (Cons i xs)
  obtain e where e: "inv (put i s)" "val e = i" "fresh s e" "look (put i s) = (look s)(uuid i \<mapsto> e)"
    using step [of s i] Cons.prems by auto
  have new: "uuid i \<notin> uuid ` set xs" using Cons.prems by simp
  then have "uuid j \<noteq> uuid i" if "j \<in> set xs" for j using that by (metis imageI)
  then have "\<forall>j \<in> set xs. C (look (put i s) (uuid j))"
    using Cons.prems e(4) by simp
  then have IH: "inv (fold put xs (put i s))"
    "\<forall>u. u \<notin> uuid ` set xs \<longrightarrow> look (fold put xs (put i s)) u = look (put i s) u"
    "\<forall>j \<in> set xs. \<exists>d. look (fold put xs (put i s)) (uuid j) = Some d \<and> val d = j \<and>
       fresh (put i s) d"
    "\<forall>d. fresh (fold put xs (put i s)) d \<longrightarrow> fresh (put i s) d"
    using Cons.IH [OF e(1)] Cons.prems(2) by simp_all
  have "look (fold put xs (put i s)) (uuid i) = Some e"
    using IH(2) new e(4) by simp
  then have "\<exists>d. look (fold put xs (put i s)) (uuid j) = Some d \<and> val d = j \<and> fresh s d"
    if "j \<in> set (i # xs)" for j
    using that IH(3) e mono by auto
  moreover have "look (fold put xs (put i s)) u = look s u" if "u \<notin> uuid ` set (i # xs)" for u
    using that IH(2) e(4) by simp
  moreover have "\<forall>d. fresh (put i s) d \<longrightarrow> fresh s d" using mono by blast
  ultimately show ?case using IH(1,4) by simp
qed simp

lemma fold_add:
  assumes "inv s" "distinct (map uuid xs)" "\<forall>i \<in> set xs. look s (uuid i) = None"
  shows "inv (fold add_to xs s) \<and>
    (\<forall>u. u \<notin> uuid ` set xs \<longrightarrow> look (fold add_to xs s) u = look s u) \<and>
    (\<forall>i \<in> set xs. \<exists>e. look (fold add_to xs s) (uuid i) = Some e \<and> val e = i \<and> fresh s e) \<and>
    (\<forall>e. fresh (fold add_to xs s) e \<longrightarrow> fresh s e)"
  by (rule fold_put [where C = "\<lambda>v. v = None"])
    (use assms look_add inv_add fresh_add in blast)+

lemma fold_modi:
  assumes "inv s" "distinct (map uuid xs)" "\<forall>i \<in> set xs. look s (uuid i) \<noteq> None"
  shows "inv (fold modi xs s) \<and>
    (\<forall>u. u \<notin> uuid ` set xs \<longrightarrow> look (fold modi xs s) u = look s u) \<and>
    (\<forall>i \<in> set xs. \<exists>e. look (fold modi xs s) (uuid i) = Some e \<and> val e = i \<and> fresh s e) \<and>
    (\<forall>e. fresh (fold modi xs s) e \<longrightarrow> fresh s e)"
  by (rule fold_put [where C = "\<lambda>v. v \<noteq> None"])
    (use assms look_modi inv_modi fresh_modi in blast)+

text \<open>What an entry for a mount of the settings is after a reload, from the entry before.\<close>

definition synced :: "'s \<Rightarrow> mountinfo \<Rightarrow> 'e option \<Rightarrow> 'e \<Rightarrow> bool" where
  "synced s i old e \<longleftrightarrow>
     (case old of
        None \<Rightarrow> val e = i \<and> fresh s e
      | Some e0 \<Rightarrow> if differ i (val e0) then val e = i \<and> fresh s e else e = e0)"

text \<open>Applying the difference: identifiers gone are removed, new ones added, changed ones replaced.\<close>

lemma apply_difference:
  assumes "inv s" and L: "distinct (map uuid L)"
    and rm: "uuid ` set rm = {u. look s u \<noteq> None} - uuid ` set L"
    and A: "A = filter (\<lambda>i. look s (uuid i) = None) L"
    and M: "M = filter (\<lambda>i. case look s (uuid i) of None \<Rightarrow> False | Some e \<Rightarrow> differ i (val e)) L"
    and s': "s' = fold modi M (fold add_to A (fold rem rm s))"
  shows "inv s' \<and> (\<forall>u. u \<notin> uuid ` set L \<longrightarrow> look s' u = None) \<and>
    (\<forall>i \<in> set L. \<exists>e. look s' (uuid i) = Some e \<and> synced s i (look s (uuid i)) e)"
proof -
  let ?s1 = "fold rem rm s" and ?s2 = "fold add_to A (fold rem rm s)"
  have 1: "inv ?s1" "look ?s1 = (\<lambda>u. if u \<in> uuid ` set rm then None else look s u)"
    "\<forall>e. fresh ?s1 e \<longrightarrow> fresh s e"
    using fold_rem [OF assms(1), of rm] by blast+
  have keep1: "look ?s1 (uuid i) = look s (uuid i)" if "i \<in> set L" for i
    using that 1(2) rm by auto
  have dA: "distinct (map uuid A)" "distinct (map uuid M)"
    using L by (simp_all add: A M distinct_map_filter)
  have "\<forall>i \<in> set A. look ?s1 (uuid i) = None" using keep1 by (auto simp: A)
  then have 2: "inv ?s2" "\<forall>u. u \<notin> uuid ` set A \<longrightarrow> look ?s2 u = look ?s1 u"
    "\<forall>i \<in> set A. \<exists>e. look ?s2 (uuid i) = Some e \<and> val e = i \<and> fresh ?s1 e"
    "\<forall>e. fresh ?s2 e \<longrightarrow> fresh ?s1 e"
    using fold_add [OF 1(1) dA(1)] by blast+
  have not_A: "uuid i \<notin> uuid ` set A" if "i \<in> set L" "look s (uuid i) \<noteq> None" for i
    using that by (auto simp: A)
  have keep2: "look ?s2 (uuid i) = look s (uuid i)" if "i \<in> set L" "look s (uuid i) \<noteq> None" for i
    using that keep1 2(2) not_A by simp
  have "\<forall>i \<in> set M. look ?s2 (uuid i) \<noteq> None"
    using keep2 by (auto simp: M split: option.splits)
  then have 3: "inv s'" "\<forall>u. u \<notin> uuid ` set M \<longrightarrow> look s' u = look ?s2 u"
    "\<forall>i \<in> set M. \<exists>e. look s' (uuid i) = Some e \<and> val e = i \<and> fresh ?s2 e"
    using fold_modi [OF 2(1) dA(2)] unfolding s' by blast+
  have not_M: "uuid i \<notin> uuid ` set M" if "i \<in> set L" "i \<notin> set M" for i
    using that L by (auto simp: M distinct_map dest: inj_onD)
  have "look s' u = None" if "u \<notin> uuid ` set L" for u
  proof -
    have "u \<notin> uuid ` set M" "u \<notin> uuid ` set A" using that by (auto simp: A M)
    then show ?thesis using that 3(2) 2(2) 1(2) rm by auto
  qed
  moreover have "\<exists>e. look s' (uuid i) = Some e \<and> synced s i (look s (uuid i)) e" if i: "i \<in> set L" for i
  proof (cases "look s (uuid i)")
    case None
    then have "i \<in> set A" "i \<notin> set M" using i by (auto simp: A M)
    then show ?thesis using None 2(3) 3(2) 1(3) not_M [OF i] by (auto simp: synced_def)
  next
    case (Some e0)
    show ?thesis
    proof (cases "differ i (val e0)")
      case True
      then have "i \<in> set M" using i Some by (simp add: M)
      then show ?thesis using Some True 3(3) 2(4) 1(3) by (auto simp: synced_def)
    next
      case False
      then have "i \<notin> set M" using Some by (simp add: M)
      then show ?thesis using Some False 3(2) not_M [OF i] keep2 [OF i] by (auto simp: synced_def)
    qed
  qed
  ultimately show ?thesis using 3(1) by blast
qed

end

end
