(* ===== verification/MountList.thy ===== *)
theory MountList
  imports MountTable
begin

text \<open>
  The controller's list of mounts and its editor (seamless_smb_service_controller/mountlistmodel.cpp,
  mountlistmodel.h, mounteditor.cpp): rows are the settings of a mount and whether its worker runs.
  An operation returns whether it emitted \<open>edited\<close>; the change notifications of the item model to its
  views are not modelled.
\<close>

record mountrow = mountinfo +
  running :: bool

record mountlist =
  modelList :: "mountrow list"
  editor :: "mountinfo option"

abbreviation row_info :: "mountrow \<Rightarrow> mountinfo" where
  "row_info \<equiv> mountinfo.truncate"

definition row_of :: "mountinfo \<Rightarrow> mountrow" where
  "row_of i = mountinfo.extend i \<lparr>running = False\<rparr>"

definition MountListModel :: "mlist \<Rightarrow> mountlist" where
  "MountListModel infolist = \<lparr>modelList = map row_of infolist, editor = None\<rparr>"

subsection \<open>The editor\<close>

datatype edit =
    setRootDirectory wstr
  | setMountPoint wstr
  | setUNCName wstr
  | setVolname wstr
  | setCaseSensitive bool
  | setImpersonateCallerUser bool
  | setEnabled bool
  | setKeepAlive bool
  | setDebug bool
  | setSinglethreaded bool
  | setOptions wstr

fun apply_edit :: "edit \<Rightarrow> mountinfo \<Rightarrow> mountinfo" where
  "apply_edit (setRootDirectory v) i = i\<lparr>RootDirectory := v\<rparr>"
| "apply_edit (setMountPoint v) i = i\<lparr>MountPoint := v\<rparr>"
| "apply_edit (setUNCName v) i = i\<lparr>UNCName := v\<rparr>"
| "apply_edit (setVolname v) i = i\<lparr>volname := v\<rparr>"
| "apply_edit (setCaseSensitive v) i = i\<lparr>CaseSensitive := v\<rparr>"
| "apply_edit (setImpersonateCallerUser v) i = i\<lparr>ImpersonateCallerUser := v\<rparr>"
| "apply_edit (setEnabled v) i = i\<lparr>enabled := v\<rparr>"
| "apply_edit (setKeepAlive v) i = i\<lparr>keepAlive := v\<rparr>"
| "apply_edit (setDebug v) i = i\<lparr>debug := v\<rparr>"
| "apply_edit (setSinglethreaded v) i = i\<lparr>singlethreaded := v\<rparr>"
| "apply_edit (setOptions s) i = i\<lparr>options := convertStringToOptions s\<rparr>"

definition editor_Options :: "mountinfo \<Rightarrow> wstr" where
  "editor_Options i = convertOptionsToString (options i)"

subsection \<open>The item model\<close>

datatype role =
    role_rootdirectory | role_MountPoint | role_UNCName | role_volname | role_CaseSensitive
  | role_ImpersonateCallerUser | role_enabled | role_keepAlive | role_debug | role_singlethreaded
  | role_options | role_id | role_running | role_other

datatype qvariant = VInvalid | VString wstr | VBool bool | VUuid uuid

definition rowCount :: "mountlist \<Rightarrow> nat" where
  "rowCount m = length (modelList m)"

fun field_of :: "mountrow \<Rightarrow> role \<Rightarrow> qvariant" where
  "field_of r role_rootdirectory = VString (RootDirectory r)"
| "field_of r role_MountPoint = VString (MountPoint r)"
| "field_of r role_UNCName = VString (UNCName r)"
| "field_of r role_volname = VString (volname r)"
| "field_of r role_CaseSensitive = VBool (CaseSensitive r)"
| "field_of r role_ImpersonateCallerUser = VBool (ImpersonateCallerUser r)"
| "field_of r role_enabled = VBool (enabled r)"
| "field_of r role_keepAlive = VBool (keepAlive r)"
| "field_of r role_debug = VBool (debug r)"
| "field_of r role_singlethreaded = VBool (singlethreaded r)"
| "field_of r role_options = VString (convertOptionsToString (options r))"
| "field_of r role_id = VUuid (uuid r)"
| "field_of r role_running = VBool (running r)"
| "field_of r role_other = VInvalid"

text \<open>The bound lets the row behind the last one through; \<open>QList::operator[]\<close> has no check.\<close>

definition data :: "mountlist \<Rightarrow> int \<Rightarrow> role \<Rightarrow> qvariant outcome" where
  "data m row r =
     (if row > int (length (modelList m)) then Ret VInvalid
      else if row < 0 \<or> row = int (length (modelList m)) then Fault OutOfBounds
      else Ret (field_of (modelList m ! nat row) r))"

text \<open>One row is added at the end, whatever is asked for.\<close>

definition insertRows :: "uuid \<Rightarrow> mountlist \<Rightarrow> bool \<times> mountlist" where
  "insertRows createUuid m =
     (True, m\<lparr>modelList := modelList m @ [row_of (new_MountInfo createUuid)]\<rparr>)"

definition removeRows :: "int \<Rightarrow> mountlist \<Rightarrow> (bool \<times> mountlist) outcome" where
  "removeRows row m =
     (if row \<ge> int (length (modelList m)) then Ret (False, m)
      else if row < 0 then Fault OutOfBounds
      else Ret (True, m\<lparr>modelList := take (nat row) (modelList m) @ drop (Suc (nat row)) (modelList m)\<rparr>))"

definition roleNames :: "(role \<times> wstr) list" where
  "roleNames =
     [(role_rootdirectory, W ''Rootdirectory''), (role_MountPoint, W ''MountPoint''),
      (role_UNCName, W ''UNCName''), (role_volname, W ''volname''),
      (role_CaseSensitive, W ''CaseSensitive''),
      (role_ImpersonateCallerUser, W ''ImpersonateCallerUser''), (role_enabled, W ''enabled''),
      (role_keepAlive, W ''keepAlive''), (role_debug, W ''debug''),
      (role_singlethreaded, W ''singlethreaded''), (role_options, W ''options''),
      (role_id, W ''id''), (role_running, W ''running'')]"

subsection \<open>Operations on the list\<close>

text \<open>The first row with an identifier is updated, or taken out.\<close>

fun update_row :: "uuid \<Rightarrow> (mountrow \<Rightarrow> mountrow) \<Rightarrow> mountrow list \<Rightarrow> mountrow list" where
  "update_row u f [] = []"
| "update_row u f (r # rs) = (if uuid r = u then f r # rs else r # update_row u f rs)"

fun remove_row :: "uuid \<Rightarrow> mountrow list \<Rightarrow> mountrow list" where
  "remove_row u [] = []"
| "remove_row u (r # rs) = (if uuid r = u then rs else r # remove_row u rs)"

definition has_row :: "uuid \<Rightarrow> mountrow list \<Rightarrow> bool" where
  "has_row u rs = list_ex (\<lambda>r. uuid r = u) rs"

definition find_row :: "uuid \<Rightarrow> mountrow list \<Rightarrow> mountrow option" where
  "find_row u rs = find (\<lambda>r. uuid r = u) rs"

text \<open>Opening an editor: the result says whether one was opened.\<close>

definition edit_mount :: "uuid \<Rightarrow> mountlist \<Rightarrow> bool \<times> mountlist" where
  "edit_mount u m =
     (if editor m \<noteq> None then (False, m)
      else case find_row u (modelList m) of
             None \<Rightarrow> (False, m)
           | Some r \<Rightarrow> (True, m\<lparr>editor := Some (row_info r)\<rparr>))"

definition newMount :: "uuid \<Rightarrow> mountlist \<Rightarrow> bool \<times> mountlist" where
  "newMount createUuid m =
     (if editor m \<noteq> None then (False, m)
      else (True, m\<lparr>editor := Some (new_MountInfo createUuid)\<rparr>))"

definition edit_field :: "edit \<Rightarrow> mountlist \<Rightarrow> mountlist" where
  "edit_field e m = m\<lparr>editor := map_option (apply_edit e) (editor m)\<rparr>"

definition getModelList :: "mountlist \<Rightarrow> mlist" where
  "getModelList m = map row_info (modelList m)"

definition setRunning :: "uuid \<Rightarrow> bool \<Rightarrow> mountlist \<Rightarrow> mountlist" where
  "setRunning u b m =
     m\<lparr>modelList := map (\<lambda>r. if uuid r = u then (if running r \<noteq> b then r\<lparr>running := b\<rparr> else r) else r)
       (modelList m)\<rparr>"

definition remove_mount :: "uuid \<Rightarrow> mountlist \<Rightarrow> bool \<times> mountlist" where
  "remove_mount u m =
     (if has_row u (modelList m) then (True, m\<lparr>modelList := remove_row u (modelList m)\<rparr>)
      else (False, m))"

definition stop_mount :: "uuid \<Rightarrow> mountlist \<Rightarrow> bool \<times> mountlist" where
  "stop_mount u m =
     (if has_row u (modelList m)
      then (True, m\<lparr>modelList := update_row u (\<lambda>r. r\<lparr>enabled := False\<rparr>) (modelList m)\<rparr>)
      else (False, m))"

definition start_mount :: "uuid \<Rightarrow> mountlist \<Rightarrow> bool \<times> mountlist" where
  "start_mount u m =
     (if has_row u (modelList m)
      then (True, m\<lparr>modelList := update_row u (\<lambda>r. r\<lparr>enabled := True\<rparr>) (modelList m)\<rparr>)
      else (False, m))"

definition editaccepted :: "mountlist \<Rightarrow> bool \<times> mountlist" where
  "editaccepted m =
     (case editor m of
        None \<Rightarrow> (False, m)
      | Some i \<Rightarrow>
          (if has_row (uuid i) (modelList m)
           then (True, m\<lparr>modelList := update_row (uuid i) (\<lambda>_. row_of i) (modelList m), editor := None\<rparr>)
           else (True, m\<lparr>modelList := modelList m @ [row_of i], editor := None\<rparr>)))"

definition editrejected :: "mountlist \<Rightarrow> mountlist" where
  "editrejected m = m\<lparr>editor := None\<rparr>"

subsection \<open>The list as a table\<close>

definition rows_ok :: "mountlist \<Rightarrow> bool" where
  "rows_ok m \<longleftrightarrow> distinct (map uuid (modelList m))"

lemma row_info_row_of [simp]: "row_info (row_of i) = i" "uuid (row_of i) = uuid i"
  by (simp_all add: row_of_def mountinfo.defs)

lemma uuid_row_info [simp]: "uuid (row_info r) = uuid r"
  by (simp add: mountinfo.defs)

lemma uuid_new_MountInfo [simp]: "uuid (new_MountInfo u) = u"
  by (simp add: new_MountInfo_def)

lemma find_row_simps [simp]:
  "find_row u [] = None" "find_row u (r # rs) = (if uuid r = u then Some r else find_row u rs)"
  by (simp_all add: find_row_def)

lemma find_row_None: "find_row u rs = None \<longleftrightarrow> u \<notin> uuid ` set rs"
  by (induction rs) auto

lemma find_row_Some: "find_row u rs = Some r \<Longrightarrow> r \<in> set rs \<and> uuid r = u"
  by (induction rs) (auto split: if_splits)

lemma has_row_iff: "has_row u rs \<longleftrightarrow> u \<in> uuid ` set rs"
  by (auto simp: has_row_def list_ex_iff)

lemma find_row_append:
  "find_row u (rs @ qs) = (case find_row u rs of None \<Rightarrow> find_row u qs | Some r \<Rightarrow> Some r)"
  by (induction rs) auto

lemma update_row_uuids:
  "(\<And>r. uuid r = u \<Longrightarrow> uuid (f r) = u) \<Longrightarrow> map uuid (update_row u f rs) = map uuid rs"
  by (induction rs) auto

lemma find_row_update:
  "(\<And>r. uuid r = u \<Longrightarrow> uuid (f r) = u) \<Longrightarrow>
    find_row v (update_row u f rs) = (if v = u then map_option f (find_row u rs) else find_row v rs)"
  by (induction rs) auto

lemma remove_row_subset: "set (remove_row u rs) \<subseteq> set rs"
  by (induction rs) auto

lemma remove_row_distinct: "distinct (map uuid rs) \<Longrightarrow> distinct (map uuid (remove_row u rs))"
  using remove_row_subset by (induction rs) fastforce+

lemma find_row_remove:
  "distinct (map uuid rs) \<Longrightarrow>
    find_row v (remove_row u rs) = (if v = u then None else find_row v rs)"
proof (induction rs)
  case (Cons r rs)
  then have "find_row (uuid r) rs = None" by (simp add: find_row_None)
  then show ?case using Cons by auto
qed simp

definition row_at :: "mountlist \<Rightarrow> uuid \<Rightarrow> mountrow option" where
  "row_at m u = find_row u (modelList m)"

definition accept_info :: "mountinfo \<Rightarrow> mountlist \<Rightarrow> mountlist" where
  "accept_info i m = snd (editaccepted (m\<lparr>editor := Some i\<rparr>))"

lemma accept_info_row:
  "row_at (accept_info i m) = (row_at m)(uuid i \<mapsto> row_of i)"
proof (cases "has_row (uuid i) (modelList m)")
  case True
  then obtain r where "find_row (uuid i) (modelList m) = Some r"
    using find_row_None [of "uuid i" "modelList m"] has_row_iff [of "uuid i" "modelList m"] by blast
  then show ?thesis
    using True
    by (simp add: fun_eq_iff row_at_def accept_info_def editaccepted_def find_row_update)
next
  case False
  then have "find_row (uuid i) (modelList m) = None" by (simp add: find_row_None has_row_iff)
  then show ?thesis
    using False
    by (simp add: fun_eq_iff row_at_def accept_info_def editaccepted_def find_row_append
        split: option.split)
qed

lemma accept_info_ok: "rows_ok m \<Longrightarrow> rows_ok (accept_info i m)"
  by (simp add: rows_ok_def accept_info_def editaccepted_def update_row_uuids has_row_iff)

interpretation ml: mount_table rows_ok row_at row_info "\<lambda>_ _. True"
  "\<lambda>i m. snd (remove_mount (uuid i) m)" accept_info accept_info
proof
  fix m and i :: mountinfo
  show "rows_ok m \<Longrightarrow> row_at (snd (remove_mount (uuid i) m)) = (row_at m)(uuid i := None)"
    by (auto simp: fun_eq_iff rows_ok_def row_at_def remove_mount_def find_row_remove has_row_iff
        find_row_None)
  show "rows_ok m \<Longrightarrow> rows_ok (snd (remove_mount (uuid i) m))"
    by (simp add: rows_ok_def remove_mount_def remove_row_distinct)
  show "row_at m (uuid i) = None \<Longrightarrow>
      \<exists>e. row_info e = i \<and> True \<and> row_at (accept_info i m) = (row_at m)(uuid i \<mapsto> e)"
    "row_at m (uuid i) \<noteq> None \<Longrightarrow>
      \<exists>e. row_info e = i \<and> True \<and> row_at (accept_info i m) = (row_at m)(uuid i \<mapsto> e)"
    by (intro exI [of _ "row_of i"]; simp add: accept_info_row)+
qed (simp_all add: accept_info_ok)

subsection \<open>Invariant\<close>

text \<open>
  What the user and the service's status can do to the list. A row inserted through the item model
  has a new identifier.
\<close>

inductive model_step :: "mountlist \<Rightarrow> mountlist \<Rightarrow> bool" where
  "model_step m (snd (edit_mount u m))"
| "model_step m (snd (newMount u m))"
| "model_step m (edit_field e m)"
| "model_step m (snd (editaccepted m))"
| "model_step m (editrejected m)"
| "model_step m (setRunning u b m)"
| "model_step m (snd (remove_mount u m))"
| "model_step m (snd (stop_mount u m))"
| "model_step m (snd (start_mount u m))"
| "u \<notin> uuid ` set (modelList m) \<Longrightarrow> model_step m (snd (insertRows u m))"
| "removeRows row m = Ret (b, m') \<Longrightarrow> model_step m m'"

inductive model_reachable :: "mountlist \<Rightarrow> bool" where
  opened: "distinct (map uuid L) \<Longrightarrow> model_reachable (MountListModel L)"
| changed: "model_reachable m \<Longrightarrow> model_step m m' \<Longrightarrow> model_reachable m'"

lemma rows_ok_accepted: "rows_ok m \<Longrightarrow> rows_ok (snd (editaccepted m))"
  by (simp add: rows_ok_def editaccepted_def update_row_uuids has_row_iff split: option.split)

lemma setRunning_uuids: "map uuid (modelList (setRunning u b m)) = map uuid (modelList m)"
  by (simp add: setRunning_def)

lemma rows_ok_step: "model_step m m' \<Longrightarrow> rows_ok m \<Longrightarrow> rows_ok m'"
proof (induction rule: model_step.induct)
  case (1 m u)
  then show ?case by (simp add: rows_ok_def edit_mount_def split: option.split)
next
  case (4 m)
  then show ?case by (rule rows_ok_accepted)
next
  case (11 row m b m')
  have "distinct (take n us @ drop (Suc n) us)" if "distinct us" "n < length us" for us :: "uuid list" and n
    using that id_take_nth_drop [of n us] distinct_append [of "take n us" "us ! n # drop (Suc n) us"]
    by auto
  from this [of "map uuid (modelList m)" "nat row"] 11 show ?case
    by (auto simp: removeRows_def rows_ok_def take_map drop_map split: if_splits)
qed (auto simp: rows_ok_def newMount_def edit_field_def editrejected_def setRunning_uuids
    remove_mount_def remove_row_distinct stop_mount_def start_mount_def update_row_uuids insertRows_def)

lemma model_reachable_rows: "model_reachable m \<Longrightarrow> rows_ok m"
proof (induction rule: model_reachable.induct)
  case (opened L)
  then show ?case by (simp add: rows_ok_def MountListModel_def o_def)
qed (rule rows_ok_step)

text \<open>
  C38: The controller never lists a mount twice: from a settings file whose mounts have different
  identifiers, whatever the user does, the list that is saved has different identifiers again.
\<close>

theorem model_ids_distinct:
  assumes "model_reachable m"
  shows "distinct (map uuid (getModelList m))"
  using model_reachable_rows [OF assms] by (simp add: getModelList_def rows_ok_def o_def)

theorem model_ids_distinct_witness:
  "distinct (map uuid (getModelList (snd (editaccepted (snd (newMount 5
     (MountListModel [new_MountInfo 1, new_MountInfo 2])))))))"
proof -
  have "model_reachable (MountListModel [new_MountInfo 1, new_MountInfo 2])"
    by (rule model_reachable.opened) (simp add: new_MountInfo_def)
  then show ?thesis
    by (intro model_ids_distinct model_reachable.changed [OF _ model_step.intros(4)]
        model_reachable.changed [OF _ model_step.intros(2)])
qed

subsection \<open>Editing\<close>

text \<open>
  Accepting an edit changes the edited mount and no other: afterwards the identifier has the
  editor's settings, every other identifier the row it had, and the editor is closed. A mount that
  was removed while it was edited is added again.
\<close>

theorem editaccepted_exact:
  assumes "editor m = Some i"
  shows "fst (editaccepted m) \<and> editor (snd (editaccepted m)) = None \<and>
    find_row (uuid i) (modelList (snd (editaccepted m))) = Some (row_of i) \<and>
    (\<forall>u. u \<noteq> uuid i \<longrightarrow>
      find_row u (modelList (snd (editaccepted m))) = find_row u (modelList m))"
proof -
  have m: "m\<lparr>editor := Some i\<rparr> = m" using assms by (cases m) simp
  have "fst (editaccepted m)" "editor (snd (editaccepted m)) = None"
    using assms by (simp_all add: editaccepted_def)
  then show ?thesis
    using accept_info_row [of i m] by (simp add: row_at_def accept_info_def m fun_eq_iff)
qed

theorem editaccepted_exact_witness:
  "find_row 1 (modelList (snd (editaccepted
      ((MountListModel [new_MountInfo 1, new_MountInfo 2])\<lparr>editor :=
         Some (apply_edit (setEnabled True) (new_MountInfo 1))\<rparr>)))) =
    Some (row_of (apply_edit (setEnabled True) (new_MountInfo 1)))"
proof -
  let ?i = "apply_edit (setEnabled True) (new_MountInfo 1)"
  have "uuid ?i = 1" by (simp add: new_MountInfo_def)
  then show ?thesis
    using editaccepted_exact [of "(MountListModel [new_MountInfo 1, new_MountInfo 2])\<lparr>editor := Some ?i\<rparr>" ?i]
    by simp
qed

text \<open>An edit never changes the identifier.\<close>

lemma apply_edit_uuid [simp]: "uuid (apply_edit e i) = uuid i"
  by (cases e) simp_all

lemma update_row_same:
  "find_row u rs = Some r \<Longrightarrow> row_info (f r) = row_info r \<Longrightarrow>
    map row_info (update_row u f rs) = map row_info rs"
  by (induction rs) (auto split: if_splits)

text \<open>
  Opening the editor on a mount and accepting without a change saves the same settings (what is
  lost is the display of the worker's state until its next status line).
\<close>

theorem edit_without_change:
  "getModelList (snd (editaccepted (snd (edit_mount u (m\<lparr>editor := None\<rparr>))))) = getModelList m"
proof (cases "find_row u (modelList m)")
  case None
  then show ?thesis by (simp add: edit_mount_def editaccepted_def getModelList_def)
next
  case (Some r)
  then have "uuid r = u" "has_row u (modelList m)"
    using find_row_Some [OF Some] by (auto simp: has_row_iff)
  then show ?thesis
    using Some by (simp add: edit_mount_def editaccepted_def getModelList_def update_row_same)
qed

end
