(* ===== verification/Server.thy ===== *)
theory Server
  imports Common
begin

text \<open>
  The service's end of the local socket (seamless_smb_service/server.cpp, server.h): connections,
  the command lines of the controller, and the status lines sent to it. Sockets are numbers; what
  has arrived on one and was not read yet is its buffer. The signals the server emits are logged,
  newest first, as are the lines it writes. Qt's text forms of an identifier and of a number are
  parameters. Commands are ASCII: a byte is one unit of the string made of it.
\<close>

record qt =
  uuid_str :: "uuid \<Rightarrow> wstr"
  uuid_parse :: "wstr \<Rightarrow> uuid"
  to_int :: "wstr \<Rightarrow> int"

text \<open>
  What is relied on: an identifier's text, which has hexadecimal digits, dashes and braces only, is
  read back as it, and a number's text may end with white space.
\<close>

definition qt_ok :: "qt \<Rightarrow> bool" where
  "qt_ok Q \<longleftrightarrow>
     (\<forall>u. uuid_parse Q (uuid_str Q u) = u \<and> SPACE \<notin> set (uuid_str Q u) \<and>
          NEWLINE \<notin> set (uuid_str Q u)) \<and>
     to_int Q (W ''1'' @ [NEWLINE]) = 1 \<and> to_int Q (W ''0'' @ [NEWLINE]) = 0"

datatype signal =
    reloadMounts_sig
  | mountAll_sig
  | unmountAll_sig
  | mount_sig uuid
  | unmount_sig uuid
  | mountok_sig uuid
  | mounterr_sig uuid

type_synonym sock = nat

record server =
  pending :: "sock list"
  sockets :: "sock list"
  controller :: "sock option"
  buffers :: "sock \<Rightarrow> wstr"
  sent :: "(sock \<times> wstr) list"
  signals :: "signal list"
  peers_gone :: "sock set" \<comment> \<open>connections whose peer has gone away\<close>

definition new_server :: server where
  "new_server = \<lparr>pending = [], sockets = [], controller = None, buffers = (\<lambda>_. []), sent = [],
     signals = [], peers_gone = {}\<rparr>"

subsection \<open>Operations\<close>

definition status_line :: "qt \<Rightarrow> uuid \<Rightarrow> bool \<Rightarrow> wstr" where
  "status_line Q u running =
     W ''STATUS '' @ uuid_str Q u @ [SPACE] @ (if running then W ''1'' else W ''0'') @ [NEWLINE]"

definition sendStatusSlot :: "qt \<Rightarrow> uuid \<Rightarrow> bool \<Rightarrow> server \<Rightarrow> server" where
  "sendStatusSlot Q u running s =
     (case controller s of
        None \<Rightarrow> s
      | Some c \<Rightarrow> s\<lparr>sent := (c, status_line Q u running) # sent s\<rparr>)"

definition emit_signal :: "signal \<Rightarrow> server \<Rightarrow> server" where
  "emit_signal g s = s\<lparr>signals := g # signals s\<rparr>"

definition run_command :: "qt \<Rightarrow> sock \<Rightarrow> wstr \<Rightarrow> server \<Rightarrow> server" where
  "run_command Q sk command s =
     (if command = W ''reload'' @ [NEWLINE] then emit_signal reloadMounts_sig s
      else if startsWith command (W ''stop/'') then
        emit_signal (unmount_sig (uuid_parse Q (remove_all (W ''stop/'') command))) s
      else if startsWith command (W ''start/'') then
        emit_signal (mount_sig (uuid_parse Q (remove_all (W ''start/'') command))) s
      else if command = W ''CONTROLLER'' then s\<lparr>controller := Some sk\<rparr>
      else if startsWith command (W ''mountok/'') then
        emit_signal (mountok_sig (uuid_parse Q (remove_all (W ''mountok/'') command))) s
      else if startsWith command (W ''mounterr/'') then
        emit_signal (mounterr_sig (uuid_parse Q (remove_all (W ''mounterr/'') command))) s
      else s)"

definition onReadyRead :: "qt \<Rightarrow> sock \<Rightarrow> server \<Rightarrow> server" where
  "onReadyRead Q sk s =
     (let (arr, rest) = read_line (buffers s sk) in
      run_command Q sk arr (s\<lparr>buffers := (buffers s)(sk := rest)\<rparr>))"

definition onnewConnection :: "qt \<Rightarrow> server \<Rightarrow> server" where
  "onnewConnection Q s =
     (case pending s of
        [] \<Rightarrow> s
      | sk # later \<Rightarrow>
          (let s = s\<lparr>pending := later\<rparr>;
               s = (if length (buffers s sk) > 0 then onReadyRead Q sk s else s) in
           s\<lparr>sockets := sockets s @ [sk]\<rparr>))"

definition onaboutToClose :: "sock \<Rightarrow> server \<Rightarrow> server" where
  "onaboutToClose sk s =
     (if sk \<in> set (sockets s) then
        s\<lparr>sockets := remove1 sk (sockets s),
          controller := (if controller s = Some sk then None else controller s)\<rparr>
      else s)"

text \<open>The destructor closes every socket; each announces that to \<open>onaboutToClose\<close>.\<close>

definition destroy_server :: "server \<Rightarrow> server" where
  "destroy_server s = fold onaboutToClose (sockets s) s"

lemma destroy_server_closes:
  assumes "\<forall>c. controller s = Some c \<longrightarrow> c \<in> set (sockets s)"
  shows "sockets (destroy_server s) = [] \<and> controller (destroy_server s) = None"
proof -
  have "sockets (fold onaboutToClose sks s) = [] \<and> controller (fold onaboutToClose sks s) = None"
    if "sockets s = sks" "\<forall>c. controller s = Some c \<longrightarrow> c \<in> set sks" for sks s
    using that
  proof (induction sks arbitrary: s)
    case Nil
    then show ?case by (cases "controller s") simp_all
  next
    case (Cons sk sks)
    have "sockets (onaboutToClose sk s) = sks" using Cons.prems(1) by (simp add: onaboutToClose_def)
    moreover have "\<forall>c. controller (onaboutToClose sk s) = Some c \<longrightarrow> c \<in> set sks"
      using Cons.prems by (auto simp: onaboutToClose_def)
    ultimately show ?case using Cons.IH by simp
  qed
  then show ?thesis using assms by (simp add: destroy_server_def)
qed

subsection \<open>What can happen to a server\<close>

text \<open>
  Events of the socket's thread. Data arrives on a connection at any time; a connection is announced
  once, under a number not in use; \<open>readyRead\<close> and \<open>aboutToClose\<close> come from listed sockets. The peer of
  a connection may go away at any time; nothing of the server is connected to that signal
  (\<open>disconnected\<close>), so that it changes nothing but the connection.
\<close>

inductive server_step :: "qt \<Rightarrow> server \<Rightarrow> server \<Rightarrow> bool" for Q where
  connect: "sk \<notin> set (pending s) \<Longrightarrow> sk \<notin> set (sockets s) \<Longrightarrow>
    server_step Q s (s\<lparr>pending := pending s @ [sk], buffers := (buffers s)(sk := []), peers_gone := peers_gone s - {sk}\<rparr>)"
| peer_gone: "server_step Q s (s\<lparr>peers_gone := insert sk (peers_gone s)\<rparr>)"
| arrive: "server_step Q s (s\<lparr>buffers := (buffers s)(sk := buffers s sk @ text)\<rparr>)"
| accepted: "server_step Q s (onnewConnection Q s)"
| ready: "sk \<in> set (sockets s) \<Longrightarrow> server_step Q s (onReadyRead Q sk s)"
| closing: "server_step Q s (onaboutToClose sk s)"
| status: "server_step Q s (sendStatusSlot Q u running s)"

inductive server_reachable :: "qt \<Rightarrow> server \<Rightarrow> bool" for Q where
  init: "server_reachable Q new_server"
| step: "server_reachable Q s \<Longrightarrow> server_step Q s s' \<Longrightarrow> server_reachable Q s'"

definition server_ok :: "server \<Rightarrow> bool" where
  "server_ok s \<longleftrightarrow> distinct (sockets s @ pending s) \<and>
     (\<forall>c. controller s = Some c \<longrightarrow> c \<in> set (sockets s))"

lemma onReadyRead_frame:
  "sockets (onReadyRead Q sk s) = sockets s" "pending (onReadyRead Q sk s) = pending s"
  "controller (onReadyRead Q sk s) \<in> {controller s, Some sk}"
  "sent (onReadyRead Q sk s) = sent s"
  by (auto simp: onReadyRead_def run_command_def emit_signal_def split: prod.split)

lemma server_step_ok:
  assumes "server_step Q s s'" and "server_ok s"
  shows "server_ok s'"
  using assms
proof cases
  case accepted
  show ?thesis
  proof (cases "pending s")
    case (Cons sk later)
    define t where "t = (if length (buffers s sk) > 0 then onReadyRead Q sk (s\<lparr>pending := later\<rparr>)
      else s\<lparr>pending := later\<rparr>)"
    have "sockets t = sockets s" "pending t = later" "controller t \<in> {controller s, Some sk}"
      using onReadyRead_frame [of Q sk "s\<lparr>pending := later\<rparr>"] by (auto simp: t_def)
    moreover have "s' = t\<lparr>sockets := sockets t @ [sk]\<rparr>"
      using accepted Cons by (simp add: onnewConnection_def t_def Let_def)
    ultimately show ?thesis using assms(2) Cons by (auto simp: server_ok_def)
  qed (use accepted assms in \<open>simp add: onnewConnection_def\<close>)
next
  case (ready sk)
  then show ?thesis
    using assms(2) onReadyRead_frame [of Q sk s] by (auto simp: server_ok_def)
qed (auto simp: server_ok_def onaboutToClose_def sendStatusSlot_def set_remove1_eq distinct_remove1
    dest: in_set_remove1 notin_set_remove1 split: option.split if_splits)

lemma server_reachable_ok: "server_reachable Q s \<Longrightarrow> server_ok s"
proof (induction rule: server_reachable.induct)
  case init
  show ?case by (simp add: server_ok_def new_server_def)
qed (rule server_step_ok)

text \<open>
  C37: The server never keeps a socket it has closed. In every reachable state no socket is listed twice,
  none both waits and is listed, and the controller, when there is one, is a socket that is listed:
  accepted, and not announced as closing since. A peer that goes away is another matter, see below.
\<close>

theorem controller_is_listed:
  assumes "server_reachable Q s"
  shows "distinct (sockets s @ pending s) \<and> (\<forall>c. controller s = Some c \<longrightarrow> c \<in> set (sockets s))"
  using server_reachable_ok [OF assms] by (simp add: server_ok_def)

definition silent_qt :: qt where
  "silent_qt = \<lparr>uuid_str = (\<lambda>_. []), uuid_parse = (\<lambda>_. 0), to_int = (\<lambda>_. 0)\<rparr>"

text \<open>A server that one controller has connected to.\<close>

definition greeted_server :: server where
  "greeted_server = onReadyRead silent_qt 7
     (new_server\<lparr>sockets := [7], buffers := (\<lambda>_. [])(7 := W ''CONTROLLER'')\<rparr>)"

lemma greeted_reachable: "server_reachable silent_qt greeted_server"
proof -
  let ?Q = silent_qt
  let ?s1 = "new_server\<lparr>pending := [7], buffers := (\<lambda>_. [])(7 := [])\<rparr>"
  let ?s2 = "new_server\<lparr>sockets := [7], buffers := (\<lambda>_. [])(7 := [])\<rparr>"
  let ?s3 = "new_server\<lparr>sockets := [7], buffers := (\<lambda>_. [])(7 := W ''CONTROLLER'')\<rparr>"
  have "server_reachable ?Q ?s1"
    using server_step.connect [of 7 new_server ?Q]
    by (intro server_reachable.step [OF server_reachable.init]) (simp add: new_server_def)
  moreover have "onnewConnection ?Q ?s1 = ?s2"
    by (simp add: onnewConnection_def new_server_def)
  ultimately have "server_reachable ?Q ?s2"
    using server_step.accepted server_reachable.step by metis
  moreover have "server_step ?Q ?s2 ?s3"
    using server_step.arrive [of ?Q ?s2 7 "W ''CONTROLLER''"] by (simp add: new_server_def)
  ultimately have "server_reachable ?Q ?s3" by (rule server_reachable.step)
  moreover have "server_step ?Q ?s3 (onReadyRead ?Q 7 ?s3)"
    by (rule server_step.ready) (simp add: new_server_def)
  ultimately show ?thesis unfolding greeted_server_def by (rule server_reachable.step)
qed

lemma greeted_server_eq: "controller greeted_server = Some 7" "sockets greeted_server = [7]"
proof -
  have "NEWLINE \<notin> set (W ''CONTROLLER'')" by (simp add: W_def)
  then have "read_line (W ''CONTROLLER'') = (W ''CONTROLLER'', [])" by (simp add: read_line_free)
  then show "controller greeted_server = Some 7" "sockets greeted_server = [7]"
    by (simp_all add: greeted_server_def onReadyRead_def run_command_def startsWith_def W_def)
qed

theorem controller_is_listed_witness:
  "distinct (sockets greeted_server @ pending greeted_server) \<and> 7 \<in> set (sockets greeted_server)"
  using controller_is_listed [OF greeted_reachable] by (simp add: greeted_server_eq)

text \<open>
  A controller that disconnects stays the controller: the server listens to its own \<open>aboutToClose\<close>, not
  to \<open>disconnected\<close>. Its socket stays listed, and status lines are still written to it.
\<close>

theorem disconnect_unnoticed:
  "\<exists>s. server_reachable silent_qt s \<and> controller s = Some 7 \<and> 7 \<in> peers_gone s \<and> 7 \<in> set (sockets s) \<and>
    sent (sendStatusSlot silent_qt u b s) = (7, status_line silent_qt u b) # sent s"
proof (intro exI conjI)
  let ?s = "greeted_server\<lparr>peers_gone := insert 7 (peers_gone greeted_server)\<rparr>"
  show "server_reachable silent_qt ?s"
    by (rule server_reachable.step [OF greeted_reachable server_step.peer_gone])
qed (simp_all add: greeted_server_eq sendStatusSlot_def)

subsection \<open>Reading commands\<close>

lemma onReadyRead_line:
  assumes "buffers s sk = l @ NEWLINE # r" and "NEWLINE \<notin> set l"
  shows "onReadyRead Q sk s = run_command Q sk (l @ [NEWLINE]) (s\<lparr>buffers := (buffers s)(sk := r)\<rparr>)"
  using assms by (simp add: onReadyRead_def read_line_append)

lemma onReadyRead_partial:
  assumes "NEWLINE \<notin> set (buffers s sk)"
  shows "onReadyRead Q sk s = run_command Q sk (buffers s sk) (s\<lparr>buffers := (buffers s)(sk := [])\<rparr>)"
  using assms by (simp add: onReadyRead_def read_line_free)

text \<open>
  The controller's greeting has no end of line, so the server must see it alone. When it is read
  alone the socket becomes the controller; when a reload request reached the buffer behind it, the
  two are read as one unknown line: nothing is reloaded and the controller stays what it was.
\<close>

theorem greeting_must_come_alone:
  "onReadyRead Q sk (s\<lparr>buffers := (buffers s)(sk := W ''CONTROLLER'')\<rparr>) =
     s\<lparr>buffers := (buffers s)(sk := []), controller := Some sk\<rparr> \<and>
   onReadyRead Q sk (s\<lparr>buffers := (buffers s)(sk := W ''CONTROLLER'' @ W ''reload'' @ [NEWLINE])\<rparr>) =
     s\<lparr>buffers := (buffers s)(sk := [])\<rparr>"
  (is "?alone \<and> ?together")
proof
  have "NEWLINE \<notin> set (W ''CONTROLLER'')" by (simp add: W_def)
  then show ?alone by (simp add: onReadyRead_partial run_command_def startsWith_def W_def)
  have "NEWLINE \<notin> set (W ''CONTROLLER'' @ W ''reload'')" by (simp add: W_def)
  then show ?together
    using onReadyRead_line [of "s\<lparr>buffers := (buffers s)(sk := W ''CONTROLLER'' @ W ''reload'' @ [NEWLINE])\<rparr>"
        sk "W ''CONTROLLER'' @ W ''reload''" "[]" Q]
    by (simp add: run_command_def startsWith_def W_def)
qed

end
