(* ===== verification/Client.thy ===== *)
theory Client
  imports Server
begin

text \<open>
  The controller's end of the local socket (seamless_smb_service_controller/client.cpp, client.h):
  connecting, the greeting, the reload request and the loop that reads status lines.
\<close>

record client =
  connected :: bool
  retrying :: bool \<comment> \<open>the single-shot timer is running\<close>
  inbuf :: wstr
  written :: "wstr list"
  statuses :: "(uuid \<times> bool) list"

definition new_client :: client where
  "new_client = \<lparr>connected = False, retrying = False, inbuf = [], written = [], statuses = []\<rparr>"

subsection \<open>Operations\<close>

definition write_socket :: "wstr \<Rightarrow> client \<Rightarrow> client" where
  "write_socket text c = c\<lparr>written := text # written c\<rparr>"

text \<open>
  Connecting, and the slot on the signal \<open>connected\<close>, which greets. Whether the service answers in time
  is the argument.
\<close>

definition connectToServer :: "bool \<Rightarrow> client \<Rightarrow> client" where
  "connectToServer answers c =
     (if answers then write_socket (W ''CONTROLLER'') (c\<lparr>connected := True\<rparr>)
      else c\<lparr>retrying := True\<rparr>)"

definition Client_start :: "bool \<Rightarrow> client" where
  "Client_start answers = connectToServer answers new_client"

definition onConnectTimer :: "bool \<Rightarrow> client \<Rightarrow> client" where
  "onConnectTimer answers c = connectToServer answers (c\<lparr>retrying := False\<rparr>)"

definition closeSlot :: "client \<Rightarrow> client" where
  "closeSlot c = c\<lparr>connected := False\<rparr>"

definition sendReload :: "client \<Rightarrow> client" where
  "sendReload c = (if connected c then write_socket (W ''reload'' @ [NEWLINE]) c else c)"

text \<open>One line: a status line is split at its blanks, and its second and third parts are taken.\<close>

definition read_status :: "qt \<Rightarrow> wstr \<Rightarrow> (uuid \<times> bool) option outcome" where
  "read_status Q command =
     (if startsWith command (W ''STATUS'') then
        (let st = split (\<lambda>c. c = SPACE) command in
         if length st < 3 then Fault OutOfBounds
         else Ret (Some (uuid_parse Q (st ! 1), to_int Q (st ! 2) \<noteq> 0)))
      else Ret None)"

text \<open>
  The loop of \<open>onReadyRead\<close>: the statuses it emits, in order, and the text it leaves in the buffer.
  What is left behind the line just read is thrown away when it is not a whole line yet.
\<close>

definition keep_lines :: "wstr \<Rightarrow> wstr" where
  "keep_lines rest = (if rest \<noteq> [] \<and> \<not> has_line rest then [] else rest)"

function read_loop :: "qt \<Rightarrow> wstr \<Rightarrow> ((uuid \<times> bool) list \<times> wstr) outcome" where
  "read_loop Q buf =
     (if has_line buf then
        (let (command, rest) = read_line buf in
         case read_status Q command of
           Fault e \<Rightarrow> Fault e
         | Ret st \<Rightarrow>
             (case read_loop Q (keep_lines rest) of
                Fault e \<Rightarrow> Fault e
              | Ret (out, left) \<Rightarrow> Ret ((case st of None \<Rightarrow> out | Some x \<Rightarrow> x # out), left)))
      else Ret ([], buf))"
  by pat_completeness auto

termination
proof (relation "measure (\<lambda>(Q, buf). length buf)")
  fix Q :: qt and buf xy command rest st
  assume "has_line buf" "xy = read_line buf" "(command, rest) = xy"
  then have "length rest < length buf"
    using read_line_decreases [of buf]
    by (cases "buf = []"; cases "read_line buf") (simp_all add: has_line_def)
  then show "((Q, keep_lines rest), Q, buf) \<in> measure (\<lambda>(Q, buf). length buf)"
    by (auto simp: keep_lines_def)
qed simp

declare read_loop.simps [simp del]

definition Client_onReadyRead :: "qt \<Rightarrow> client \<Rightarrow> client outcome" where
  "Client_onReadyRead Q c =
     (case read_loop Q (inbuf c) of
        Fault e \<Rightarrow> Fault e
      | Ret (out, left) \<Rightarrow> Ret (c\<lparr>inbuf := left, statuses := rev out @ statuses c\<rparr>))"

subsection \<open>Status lines\<close>

lemma read_loop_none: "\<not> has_line buf \<Longrightarrow> read_loop Q buf = Ret ([], buf)"
  by (simp add: read_loop.simps)

lemma read_loop_line:
  assumes "NEWLINE \<notin> set l" and "read_status Q (l @ [NEWLINE]) = Ret (Some x)"
  shows "read_loop Q (l @ NEWLINE # r) =
    (case read_loop Q (keep_lines r) of Fault e \<Rightarrow> Fault e | Ret (out, left) \<Rightarrow> Ret (x # out, left))"
  using assms by (subst read_loop.simps) (simp add: has_line_def read_line_append split: outcome.split)

lemma read_status_line:
  assumes "qt_ok Q"
  shows "read_status Q (status_line Q u b) = Ret (Some (u, b))"
proof -
  let ?n = "(if b then W ''1'' else W ''0'') @ [NEWLINE]"
  have u: "\<forall>c \<in> set (uuid_str Q u). c \<noteq> SPACE" and n: "\<forall>c \<in> set ?n. c \<noteq> SPACE"
    and w: "\<forall>c \<in> set (W ''STATUS''). c \<noteq> SPACE"
    using assms by (auto simp: qt_ok_def W_def)
  have blank: "W ''STATUS '' = W ''STATUS'' @ [SPACE]" by (simp add: W_def)
  have "split (\<lambda>c. c = SPACE) (status_line Q u b) = [W ''STATUS'', uuid_str Q u, ?n]"
    using split_append_sep [OF w, of SPACE "uuid_str Q u @ SPACE # ?n"]
      split_append_sep [OF u, of SPACE ?n] split_free [OF n]
    by (simp add: status_line_def blank)
  moreover have "startsWith (status_line Q u b) (W ''STATUS'')"
    by (simp add: status_line_def blank startsWith_def)
  ultimately show ?thesis
    using assms by (auto simp: read_status_def qt_ok_def)
qed

lemma status_line_shape:
  assumes "qt_ok Q"
  obtains l where "status_line Q u b = l @ [NEWLINE]" "NEWLINE \<notin> set l"
proof
  show "status_line Q u b = (W ''STATUS '' @ uuid_str Q u @ [SPACE] @ (if b then W ''1'' else W ''0'')) @ [NEWLINE]"
    by (simp add: status_line_def)
  show "NEWLINE \<notin> set (W ''STATUS '' @ uuid_str Q u @ [SPACE] @ (if b then W ''1'' else W ''0''))"
    using assms by (auto simp: qt_ok_def W_def)
qed

lemma read_loop_statuses:
  assumes "qt_ok Q" and "r = [] \<or> \<not> has_line r \<and> xs \<noteq> []"
  shows "read_loop Q (concat (map (\<lambda>(u, b). status_line Q u b) xs) @ r) =
    Ret (xs, [])"
  using assms(2)
proof (induction xs)
  case Nil
  then show ?case by (simp add: read_loop_none has_line_def)
next
  case (Cons x xs)
  obtain u b where x: "x = (u, b)" by (cases x)
  obtain l where l: "status_line Q u b = l @ [NEWLINE]" "NEWLINE \<notin> set l"
    using status_line_shape [OF assms(1)] by blast
  let ?rest = "concat (map (\<lambda>(u, b). status_line Q u b) xs) @ r"
  have head: "read_loop Q (l @ NEWLINE # ?rest) =
      (case read_loop Q (keep_lines ?rest) of Fault e \<Rightarrow> Fault e | Ret (out, left) \<Rightarrow> Ret (x # out, left))"
    using read_status_line [OF assms(1), of u b] l by (intro read_loop_line) (simp_all add: x)
  have "read_loop Q (keep_lines ?rest) = Ret (xs, [])"
  proof (cases xs)
    case Nil
    then show ?thesis
      using Cons.prems by (auto simp: keep_lines_def read_loop_none has_line_def)
  next
    case (Cons y ys)
    obtain v c where "y = (v, c)" by (cases y)
    then have "has_line ?rest" by (simp add: Cons has_line_def status_line_def)
    moreover have "read_loop Q ?rest = Ret (xs, [])"
      using Cons.prems Cons by (intro Cons.IH) auto
    ultimately show ?thesis by (simp add: keep_lines_def)
  qed
  then show ?case using head by (simp add: x l)
qed

text \<open>
  The status protocol works: whatever sequence of statuses the server has written, when the lines
  have arrived as a whole the controller takes in exactly these statuses, in order, and leaves
  nothing in the buffer.
\<close>

theorem statuses_arrive:
  assumes "qt_ok Q" and "inbuf c = concat (map (\<lambda>(u, b). status_line Q u b) xs)"
  shows "Client_onReadyRead Q c = Ret (c\<lparr>inbuf := [], statuses := rev xs @ statuses c\<rparr>)"
  using read_loop_statuses [OF assms(1), of "[]" xs] assms(2)
  by (simp add: Client_onReadyRead_def)

text \<open>A concrete text form of identifiers: 128 binary digits.\<close>

definition sample_qt :: qt where
  "sample_qt = \<lparr>uuid_str = (\<lambda>u. map (\<lambda>i. if bit u i then 0x31 else 0x30) [0..<128]),
     uuid_parse = (\<lambda>s. horner_sum of_bool 2 (map (\<lambda>c. c = 0x31) s)),
     to_int = (\<lambda>s. if startsWith s (W ''1'') then 1 else 0)\<rparr>"

lemma sample_qt_ok: "qt_ok sample_qt"
proof -
  have "horner_sum of_bool 2 (map (bit u) [0..<128]) = u" for u :: uuid
    by (simp add: horner_sum_bit_eq_take_bit take_bit_word_eq_self)
  moreover have "(if b then 0x31 else 0x30 :: wchar) = 0x31 \<longleftrightarrow> b" for b by simp
  ultimately show ?thesis
    by (auto simp: qt_ok_def sample_qt_def o_def startsWith_def W_def)
qed

theorem statuses_arrive_witness:
  "Client_onReadyRead sample_qt
      (new_client\<lparr>inbuf := status_line sample_qt 7 True @ status_line sample_qt 9 False\<rparr>) =
    Ret (new_client\<lparr>statuses := [(9, False), (7, True)]\<rparr>)"
  using statuses_arrive [OF sample_qt_ok,
      of "new_client\<lparr>inbuf := status_line sample_qt 7 True @ status_line sample_qt 9 False\<rparr>"
        "[(7, True), (9, False)]"]
  by (simp add: new_client_def)

text \<open>
  A status line that is cut by the arrival of the data is lost: when the buffer holds whole lines
  and the beginning of a next one, the beginning is thrown away with them.
\<close>

theorem cut_status_lost:
  assumes "qt_ok Q" and "xs \<noteq> []" and "NEWLINE \<notin> set part"
    and "inbuf c = concat (map (\<lambda>(u, b). status_line Q u b) xs) @ part"
  shows "Client_onReadyRead Q c = Ret (c\<lparr>inbuf := [], statuses := rev xs @ statuses c\<rparr>)"
  using read_loop_statuses [OF assms(1), of part xs] assms(2-4)
  by (simp add: Client_onReadyRead_def has_line_def)

theorem cut_status_lost_witness:
  "Client_onReadyRead sample_qt
      (new_client\<lparr>inbuf := status_line sample_qt 7 True @ W ''STATUS 00''\<rparr>) =
    Ret (new_client\<lparr>statuses := [(7, True)]\<rparr>)"
  using cut_status_lost [OF sample_qt_ok, of "[(7, True)]" "W ''STATUS 00''"
      "new_client\<lparr>inbuf := status_line sample_qt 7 True @ W ''STATUS 00''\<rparr>"]
  by (simp add: new_client_def W_def)

end
