(* ===== verification/Daemon.thy ===== *)
theory Daemon
  imports Server MountTable
begin

text \<open>
  The service's daemon (seamless_smb_service/daemon.cpp, daemon.h): one worker process for each mount
  of the settings file, kept in step with the file by \<open>reloadMounts\<close>, started by \<open>mount\<close> and kept alive
  by a timer. A \<open>QProcess\<close> is a number; what is asked of processes, and the status lines passed to the
  server, are logged, newest first. The system is a parameter that answers from the log: whether a
  process is running, whether a directory exists, whether a priority can be set. \<open>Released\<close> is the
  daemon dropping its reference to a process object: the last one kills the process.
\<close>

type_synonym pid = nat

datatype daemon_event =
    Created pid uuid
  | TerminateAsked pid
  | Released pid
  | StartAsked pid
  | PrioritySet pid
  | Waited pid bool
  | KillAsked pid
  | StatusSent uuid bool

record daemon_env =
  is_running :: "daemon_event list \<Rightarrow> pid \<Rightarrow> bool"
  dir_exists :: "daemon_event list \<Rightarrow> wstr \<Rightarrow> bool"
  can_open :: "daemon_event list \<Rightarrow> pid \<Rightarrow> bool"
  finishes :: "daemon_event list \<Rightarrow> pid \<Rightarrow> bool"

type_synonym entry = "pid \<times> mountinfo"

text \<open>Background work: the loops of \<open>mountAll\<close> and \<open>checkStatus\<close>, over a copy of the list.\<close>

datatype task =
    MountAllQueued
  | MountAllLoop "entry list"
  | CheckQueued
  | CheckLoop "entry list"

record daemon =
  mounts :: "entry list"
  next_pid :: pid
  events :: "daemon_event list"
  settings :: "qitem list option"
  mountAllrunning :: bool
  tasks :: "task list"

definition new_daemon :: "qitem list option \<Rightarrow> daemon" where
  "new_daemon f = \<lparr>mounts = [], next_pid = 0, events = [], settings = f, mountAllrunning = False,
     tasks = []\<rparr>"

definition log_event :: "daemon_event \<Rightarrow> daemon \<Rightarrow> daemon" where
  "log_event e s = s\<lparr>events := e # events s\<rparr>"

text \<open>The entry of an identifier, as the loops over \<open>mounts\<close> find it.\<close>

definition entry_of :: "uuid \<Rightarrow> entry list \<Rightarrow> entry option" where
  "entry_of u ms = find (\<lambda>e. uuid (snd e) = u) ms"

fun replace_entry :: "uuid \<Rightarrow> entry \<Rightarrow> entry list \<Rightarrow> entry list" where
  "replace_entry u e [] = []"
| "replace_entry u e (x # ms) = (if uuid (snd x) = u then e # ms else x # replace_entry u e ms)"

fun remove_entry :: "uuid \<Rightarrow> entry list \<Rightarrow> entry list" where
  "remove_entry u [] = []"
| "remove_entry u (x # ms) = (if uuid (snd x) = u then ms else x # remove_entry u ms)"

subsection \<open>The difference between the settings and the mounts\<close>

fun toaddModify :: "mlist \<Rightarrow> entry list \<Rightarrow> mlist \<times> mlist" where
  "toaddModify [] ms = ([], [])"
| "toaddModify (info # newlist) ms =
     (let (toadd, tomodify) = toaddModify newlist ms in
      case entry_of (uuid info) ms of
        None \<Rightarrow> (info # toadd, tomodify)
      | Some (p, m) \<Rightarrow> if differ info m then (toadd, info # tomodify) else (toadd, tomodify))"

fun toRemove :: "mlist \<Rightarrow> entry list \<Rightarrow> mlist" where
  "toRemove newlist [] = []"
| "toRemove newlist ((p, m) # ms) =
     (if list_ex (\<lambda>info. uuid info = uuid m) newlist then toRemove newlist ms
      else m # toRemove newlist ms)"

subsection \<open>Applying it\<close>

definition remove_info :: "mountinfo \<Rightarrow> daemon \<Rightarrow> daemon" where
  "remove_info info s =
     (case entry_of (uuid info) (mounts s) of
        None \<Rightarrow> s
      | Some (p, m) \<Rightarrow>
          (let s = log_event (TerminateAsked p) s;
               s = s\<lparr>mounts := remove_entry (uuid info) (mounts s)\<rparr> in
           log_event (Released p) s))"

text \<open>A new process object, with the settings file and the identifier as arguments.\<close>

definition new_process :: "mountinfo \<Rightarrow> daemon \<Rightarrow> pid \<times> daemon" where
  "new_process info s =
     (next_pid s, log_event (Created (next_pid s) (uuid info)) (s\<lparr>next_pid := Suc (next_pid s)\<rparr>))"

definition add_info :: "mountinfo \<Rightarrow> daemon \<Rightarrow> daemon" where
  "add_info info s =
     (let (p, s) = new_process info s in s\<lparr>mounts := mounts s @ [(p, info)]\<rparr>)"

definition modify_info :: "mountinfo \<Rightarrow> daemon \<Rightarrow> daemon" where
  "modify_info info s =
     (case entry_of (uuid info) (mounts s) of
        None \<Rightarrow> s
      | Some (q, m) \<Rightarrow>
          (let s = log_event (TerminateAsked q) s;
               (p, s) = new_process info s;
               s = s\<lparr>mounts := replace_entry (uuid info) (p, info) (mounts s)\<rparr> in
           log_event (Released q) s))"

definition mountAll :: "daemon \<Rightarrow> daemon" where
  "mountAll s = s\<lparr>tasks := tasks s @ [MountAllQueued]\<rparr>"

definition reloadMounts :: "daemon \<Rightarrow> daemon" where
  "reloadMounts s =
     (let mountlist = mounts_value (settings s);
          (addl, modifyl) = toaddModify mountlist (mounts s);
          rm = toRemove mountlist (mounts s);
          s = fold remove_info rm s;
          s = fold add_info addl s;
          s = fold modify_info modifyl s in
      mountAll s)"

subsection \<open>Starting and stopping processes\<close>

definition raise_priority :: "daemon_env \<Rightarrow> pid \<Rightarrow> daemon \<Rightarrow> daemon" where
  "raise_priority E p s = (if can_open E (events s) p then log_event (PrioritySet p) s else s)"

definition mount_worker :: "daemon_env \<Rightarrow> uuid \<Rightarrow> daemon \<Rightarrow> daemon" where
  "mount_worker E u s =
     (case entry_of u (mounts s) of
        None \<Rightarrow> s
      | Some (p, m) \<Rightarrow>
          (let s = log_event (StartAsked p) s;
               running = is_running E (events s) p;
               s = log_event (StatusSent (uuid m) running) s in
           if running then raise_priority E p s else s))"

definition unmount_worker :: "daemon_env \<Rightarrow> uuid \<Rightarrow> daemon \<Rightarrow> daemon" where
  "unmount_worker E u s =
     (case entry_of u (mounts s) of
        None \<Rightarrow> s
      | Some (p, m) \<Rightarrow>
          (let s = log_event (TerminateAsked p) s in
           log_event (StatusSent (uuid m) (is_running E (events s) p)) s))"

definition unmountAll :: "daemon \<Rightarrow> daemon" where
  "unmountAll s = fold (\<lambda>(p, m). log_event (TerminateAsked p)) (mounts s) s"

definition end_process :: "daemon_env \<Rightarrow> entry \<Rightarrow> daemon \<Rightarrow> daemon" where
  "end_process E e s =
     (case e of (p, m) \<Rightarrow>
        if is_running E (events s) p then
          (let done = finishes E (events s) p;
               s = log_event (Waited p done) s;
               s = (if \<not> done then log_event (KillAsked p) s else s) in
           log_event (StatusSent (uuid m) (is_running E (events s) p)) s)
        else s)"

definition checkStatus :: "daemon \<Rightarrow> daemon" where
  "checkStatus s = s\<lparr>tasks := tasks s @ [CheckQueued]\<rparr>"

subsection \<open>Background work\<close>

text \<open>
  One step of a background loop and what is left of it. The loop over the mounts runs over the copy
  it takes when it starts; a mount is made by the daemon's own thread while the loop waits.
\<close>

definition check_entry :: "daemon_env \<Rightarrow> entry \<Rightarrow> daemon \<Rightarrow> daemon" where
  "check_entry E e s =
     (case e of (p, m) \<Rightarrow>
        (let running = is_running E (events s) p;
             s = log_event (StatusSent (uuid m) running) s in
         if \<not> mountAllrunning s \<and> enabled m \<and> keepAlive m \<and> \<not> running then mount_worker E (uuid m) s
         else s))"

fun run_task :: "daemon_env \<Rightarrow> task \<Rightarrow> daemon \<Rightarrow> task option \<times> daemon" where
  "run_task E MountAllQueued s = (Some (MountAllLoop (mounts s)), s\<lparr>mountAllrunning := True\<rparr>)"
| "run_task E (MountAllLoop []) s = (None, s\<lparr>mountAllrunning := False\<rparr>)"
| "run_task E (MountAllLoop ((p, m) # ms)) s =
     (Some (MountAllLoop ms),
      if dir_exists E (events s) (RootDirectory m) \<and> enabled m then mount_worker E (uuid m) s else s)"
| "run_task E CheckQueued s = (Some (CheckLoop (mounts s)), s)"
| "run_task E (CheckLoop []) s = (None, s)"
| "run_task E (CheckLoop (e # ms)) s = (Some (CheckLoop ms), check_entry E e s)"

text \<open>The signals of the server the daemon is connected to (\<open>Daemon::start\<close>): not \<open>unmount\<close>.\<close>

fun deliver :: "daemon_env \<Rightarrow> signal \<Rightarrow> daemon \<Rightarrow> daemon" where
  "deliver E reloadMounts_sig s = reloadMounts s"
| "deliver E (mount_sig u) s = mount_worker E u s"
| "deliver E mountAll_sig s = mountAll s"
| "deliver E unmountAll_sig s = s"
| "deliver E (unmount_sig u) s = s"
| "deliver E (mountok_sig u) s = s"
| "deliver E (mounterr_sig u) s = s"

subsection \<open>The destructor\<close>

text \<open>
  What arrives while the destructor runs. Each of its three calls of \<open>processEvents\<close> delivers what is
  posted to the daemon then: signals of the server, and the calls of \<open>mount\<close> for which the background
  loops wait. The server is deleted in its own thread, at the second call or later; its thread is
  given a second to end.
\<close>

record shutdown =
  first_events :: "signal list"
  second_events :: "signal list"
  third_events :: "signal list"
  server_gone :: bool
  thread_ended :: bool

definition quiet_shutdown :: shutdown where
  "quiet_shutdown = \<lparr>first_events = [], second_events = [], third_events = [],
     server_gone = True, thread_ended = True\<rparr>"

definition delivered :: "shutdown \<Rightarrow> signal list" where
  "delivered sh = first_events sh @ second_events sh @ third_events sh"

text \<open>A delivered \<open>mount\<close> of a listed mount reports to the server, through a pointer that is not reset.\<close>

fun uses_server :: "signal \<Rightarrow> daemon \<Rightarrow> bool" where
  "uses_server (mount_sig u) s = (entry_of u (mounts s) \<noteq> None)"
| "uses_server g s = False"

fun processEvents :: "daemon_env \<Rightarrow> bool \<Rightarrow> signal list \<Rightarrow> daemon \<Rightarrow> daemon outcome" where
  "processEvents E gone [] s = Ret s"
| "processEvents E gone (g # gs) s =
     (if gone \<and> uses_server g s then Fault DeletedObject
      else processEvents E gone gs (deliver E g s))"

text \<open>The members: the list holds the last references to the process objects.\<close>

definition release_all :: "daemon \<Rightarrow> daemon" where
  "release_all s = (fold (\<lambda>(p, m). log_event (Released p)) (mounts s) s)\<lparr>mounts := []\<rparr>"

definition destroy_daemon :: "daemon_env \<Rightarrow> shutdown \<Rightarrow> daemon \<Rightarrow> daemon outcome" where
  "destroy_daemon E sh s =
     (let s = unmountAll s;
          s = fold (end_process E) (mounts s) s in
      case processEvents E False (first_events sh) s of
        Fault e \<Rightarrow> Fault e
      | Ret s \<Rightarrow>
          (case processEvents E (server_gone sh) (second_events sh) s of
             Fault e \<Rightarrow> Fault e
           | Ret s \<Rightarrow>
               (case processEvents E (server_gone sh \<or> thread_ended sh) (third_events sh) s of
                  Fault e \<Rightarrow> Fault e
                | Ret s \<Rightarrow> if \<not> thread_ended sh then Fault Aborted else Ret (release_all s))))"

definition Daemon_start :: "qitem list option \<Rightarrow> daemon" where
  "Daemon_start f = reloadMounts (new_daemon f)"

subsection \<open>The list of mounts as a table\<close>

definition daemon_ok :: "daemon \<Rightarrow> bool" where
  "daemon_ok s \<longleftrightarrow> distinct (map (\<lambda>e. uuid (snd e)) (mounts s)) \<and> distinct (map fst (mounts s)) \<and>
     (\<forall>p \<in> fst ` set (mounts s). p < next_pid s)"

lemma entry_of_simps [simp]:
  "entry_of u [] = None"
  "entry_of u (e # ms) = (if uuid (snd e) = u then Some e else entry_of u ms)"
  by (simp_all add: entry_of_def)

lemma entry_of_None: "entry_of u ms = None \<longleftrightarrow> u \<notin> (\<lambda>e. uuid (snd e)) ` set ms"
  by (induction ms) auto

lemma entry_of_Some: "entry_of u ms = Some e \<Longrightarrow> e \<in> set ms \<and> uuid (snd e) = u"
  by (induction ms) (auto split: if_splits)

lemma entry_of_mem:
  "distinct (map (\<lambda>e. uuid (snd e)) ms) \<Longrightarrow> e \<in> set ms \<Longrightarrow> entry_of (uuid (snd e)) ms = Some e"
  by (induction ms) (auto simp: image_iff)

lemma entry_of_append:
  "entry_of u (ms @ ns) = (case entry_of u ms of None \<Rightarrow> entry_of u ns | Some e \<Rightarrow> Some e)"
  by (induction ms) auto

lemma entry_of_remove:
  "distinct (map (\<lambda>e. uuid (snd e)) ms) \<Longrightarrow>
    entry_of u (remove_entry v ms) = (if u = v then None else entry_of u ms)"
proof (induction ms)
  case (Cons x ms)
  then have "entry_of (uuid (snd x)) ms = None" by (simp add: entry_of_None)
  then show ?case using Cons by auto
qed simp

lemma entry_of_replace:
  "uuid (snd e) = v \<Longrightarrow> entry_of v ms \<noteq> None \<Longrightarrow>
    entry_of u (replace_entry v e ms) = (if u = v then Some e else entry_of u ms)"
  by (induction ms) (simp_all split: if_splits)

lemma remove_entry_subset: "set (remove_entry u ms) \<subseteq> set ms"
  by (induction ms) auto

lemma remove_entry_distinct:
  "distinct (map f ms) \<Longrightarrow> distinct (map f (remove_entry u ms))"
  using remove_entry_subset by (induction ms) fastforce+

lemma remove_entry_pids:
  "distinct (map fst ms) \<Longrightarrow> entry_of u ms = Some e \<Longrightarrow>
    fst ` set (remove_entry u ms) = fst ` set ms - {fst e}"
proof (induction ms)
  case (Cons x ms)
  then show ?case using entry_of_Some [of u ms e] by (auto split: if_splits)
qed simp

lemma replace_entry_uuids:
  "uuid (snd e) = u \<Longrightarrow> map (\<lambda>e. uuid (snd e)) (replace_entry u e ms) = map (\<lambda>e. uuid (snd e)) ms"
  by (induction ms) auto

lemma replace_entry_pids:
  "distinct (map fst ms) \<Longrightarrow> entry_of u ms = Some d \<Longrightarrow>
    fst ` set (replace_entry u e ms) = insert (fst e) (fst ` set ms - {fst d})"
proof (induction ms)
  case (Cons x ms)
  then show ?case using entry_of_Some [of u ms d] by (auto split: if_splits)
qed simp

lemma replace_entry_distinct:
  "distinct (map fst ms) \<Longrightarrow> fst e \<notin> fst ` set ms \<Longrightarrow> distinct (map fst (replace_entry u e ms))"
proof (induction ms)
  case (Cons x ms)
  have "set (replace_entry u e ms) \<subseteq> insert e (set ms)"
    by (induction ms) auto
  then show ?case using Cons by auto
qed simp

definition look :: "daemon \<Rightarrow> uuid \<Rightarrow> entry option" where
  "look s u = entry_of u (mounts s)"

definition new_entry :: "daemon \<Rightarrow> entry \<Rightarrow> bool" where
  "new_entry s e \<longleftrightarrow> next_pid s \<le> fst e"

lemma mounts_log [simp]:
  "mounts (log_event e s) = mounts s" "next_pid (log_event e s) = next_pid s"
  "settings (log_event e s) = settings s" "events (log_event e s) = e # events s"
  "tasks (log_event e s) = tasks s" "mountAllrunning (log_event e s) = mountAllrunning s"
  by (simp_all add: log_event_def)

interpretation dm: mount_table daemon_ok look snd new_entry remove_info add_info modify_info
proof
  fix s i e
  show "daemon_ok s \<Longrightarrow> look (remove_info i s) = (look s)(uuid i := None)"
    by (auto simp: look_def remove_info_def fun_eq_iff daemon_ok_def entry_of_remove
        split: option.split)
  show "daemon_ok s \<Longrightarrow> look s (uuid i) = None \<Longrightarrow>
      \<exists>e. snd e = i \<and> new_entry s e \<and> look (add_info i s) = (look s)(uuid i \<mapsto> e)"
    by (intro exI [of _ "(next_pid s, i)"])
      (auto simp: look_def add_info_def new_process_def new_entry_def fun_eq_iff entry_of_append
        split: option.split)
  show "daemon_ok s \<Longrightarrow> look s (uuid i) \<noteq> None \<Longrightarrow>
      \<exists>e. snd e = i \<and> new_entry s e \<and> look (modify_info i s) = (look s)(uuid i \<mapsto> e)"
    by (intro exI [of _ "(next_pid s, i)"])
      (auto simp: look_def modify_info_def new_process_def new_entry_def fun_eq_iff Let_def
        entry_of_replace split: option.split)
  show "daemon_ok s \<Longrightarrow> daemon_ok (remove_info i s)"
    using remove_entry_subset [of "uuid i" "mounts s"]
    by (auto simp: daemon_ok_def remove_info_def remove_entry_distinct split: option.split)
  show "daemon_ok s \<Longrightarrow> look s (uuid i) = None \<Longrightarrow> daemon_ok (add_info i s)"
    by (fastforce simp: daemon_ok_def add_info_def new_process_def look_def entry_of_None)
  show "daemon_ok s \<Longrightarrow> look s (uuid i) \<noteq> None \<Longrightarrow> daemon_ok (modify_info i s)"
    using replace_entry_pids [of "mounts s" "uuid i"]
    by (fastforce simp: daemon_ok_def modify_info_def new_process_def look_def Let_def
        replace_entry_uuids intro!: replace_entry_distinct split: option.split)
  show "new_entry (remove_info i s) e \<Longrightarrow> new_entry s e"
    by (auto simp: new_entry_def remove_info_def split: option.splits)
  show "new_entry (add_info i s) e \<Longrightarrow> new_entry s e"
    by (simp add: new_entry_def add_info_def new_process_def)
  show "new_entry (modify_info i s) e \<Longrightarrow> new_entry s e"
    by (auto simp: new_entry_def modify_info_def new_process_def Let_def split: option.splits)
qed

subsection \<open>Reload\<close>

lemma toaddModify_eq:
  "toaddModify L ms =
    (filter (\<lambda>i. entry_of (uuid i) ms = None) L,
     filter (\<lambda>i. case entry_of (uuid i) ms of None \<Rightarrow> False | Some e \<Rightarrow> differ i (snd e)) L)"
  by (induction L) (auto split: option.split)

lemma toRemove_eq: "toRemove L ms = map snd (filter (\<lambda>e. uuid (snd e) \<notin> uuid ` set L) ms)"
proof -
  have "list_ex (\<lambda>info. uuid info = u) L \<longleftrightarrow> u \<in> uuid ` set L" for u
    by (auto simp: list_ex_iff)
  then show ?thesis by (induction ms) auto
qed

lemma entry_of_dom: "{u. entry_of u ms \<noteq> None} = (\<lambda>e. uuid (snd e)) ` set ms"
  by (simp add: entry_of_None)

lemma toRemove_uuids:
  "uuid ` set (toRemove L ms) = {u. entry_of u ms \<noteq> None} - uuid ` set L"
  unfolding entry_of_dom toRemove_eq by auto

lemma settings_ops:
  "settings (remove_info i s) = settings s" "settings (add_info i s) = settings s"
  "settings (modify_info i s) = settings s"
  by (simp_all add: remove_info_def add_info_def modify_info_def new_process_def Let_def
      split: option.split)

lemma reload_settings: "settings (reloadMounts s) = settings s"
proof -
  have "settings (fold f xs t) = settings t" if "\<And>i t. settings (f i t) = settings t"
    for f :: "mountinfo \<Rightarrow> daemon \<Rightarrow> daemon" and xs t
    using that by (induction xs arbitrary: t) simp_all
  then show ?thesis
    by (simp add: reloadMounts_def mountAll_def settings_ops Let_def split: prod.split)
qed

lemma reload_core:
  assumes "daemon_ok s" and "L = mounts_value (settings s)" and "distinct (map uuid L)"
  shows "daemon_ok (reloadMounts s) \<and>
    (\<forall>u. u \<notin> uuid ` set L \<longrightarrow> look (reloadMounts s) u = None) \<and>
    (\<forall>i \<in> set L. \<exists>e. look (reloadMounts s) (uuid i) = Some e \<and>
       dm.synced s i (look s (uuid i)) e)"
proof -
  obtain A M where AM: "toaddModify L (mounts s) = (A, M)" by (cases "toaddModify L (mounts s)")
  let ?t = "fold modify_info M (fold add_info A (fold remove_info (toRemove L (mounts s)) s))"
  have r: "reloadMounts s = mountAll ?t"
    by (simp add: reloadMounts_def AM assms(2) [symmetric] Let_def)
  have "daemon_ok ?t \<and> (\<forall>u. u \<notin> uuid ` set L \<longrightarrow> look ?t u = None) \<and>
    (\<forall>i \<in> set L. \<exists>e. look ?t (uuid i) = Some e \<and> dm.synced s i (look s (uuid i)) e)"
    by (rule dm.apply_difference [OF assms(1,3)])
      (use AM toaddModify_eq [of L "mounts s"] toRemove_uuids [of L "mounts s"] in
        \<open>simp_all add: look_def\<close>)
  then show ?thesis by (simp add: r mountAll_def daemon_ok_def look_def)
qed

text \<open>
  C30: A reload brings the daemon in step with the settings file, exactly. When the mounts of the
  file have different identifiers, afterwards the daemon has one worker for each of them and no
  other. A worker whose settings compare equal is kept as it is; a changed or new mount has a new
  process with the settings of the file.
\<close>

theorem reload_exact:
  assumes "daemon_ok s" and "distinct (map uuid (mounts_value (settings s)))"
  shows "daemon_ok (reloadMounts s) \<and>
    (\<forall>u. u \<notin> uuid ` set (mounts_value (settings s)) \<longrightarrow> entry_of u (mounts (reloadMounts s)) = None) \<and>
    (\<forall>i \<in> set (mounts_value (settings s)).
       \<exists>e. entry_of (uuid i) (mounts (reloadMounts s)) = Some e \<and>
         (case entry_of (uuid i) (mounts s) of
            None \<Rightarrow> snd e = i \<and> next_pid s \<le> fst e
          | Some old \<Rightarrow> if differ i (snd old) then snd e = i \<and> next_pid s \<le> fst e else e = old))"
  using reload_core [OF assms(1) refl assms(2)]
  unfolding look_def dm.synced_def new_entry_def .

definition sample_info1 :: mountinfo where
  "sample_info1 = (new_MountInfo 1)\<lparr>RootDirectory := W ''C'', enabled := True\<rparr>"

definition sample_info2 :: mountinfo where
  "sample_info2 = (new_MountInfo 2)\<lparr>RootDirectory := W ''D'', enabled := True, keepAlive := True\<rparr>"

definition sample_daemon :: daemon where
  "sample_daemon = (new_daemon (Some (write_mlist [sample_info1, sample_info2])))
     \<lparr>mounts := [(0, sample_info2\<lparr>enabled := False\<rparr>), (1, new_MountInfo 3)], next_pid := 2\<rparr>"

lemma sample_daemon_ok:
  "daemon_ok sample_daemon"
  "mounts_value (settings sample_daemon) = [sample_info1, sample_info2]"
  "distinct (map uuid (mounts_value (settings sample_daemon)))"
  by (simp_all add: sample_daemon_def new_daemon_def daemon_ok_def mounts_value_write mlist_ok_def
      sample_info1_def sample_info2_def new_MountInfo_def)

theorem reload_exact_witness:
  "daemon_ok (reloadMounts sample_daemon) \<and>
   entry_of 3 (mounts (reloadMounts sample_daemon)) = None \<and>
   (\<exists>p \<ge> 2. entry_of 2 (mounts (reloadMounts sample_daemon)) = Some (p, sample_info2))"
proof -
  have "uuid sample_info1 = 1" "uuid sample_info2 = 2" "\<not> enabled (sample_info2\<lparr>enabled := False\<rparr>)"
    "enabled sample_info2"
    by (simp_all add: sample_info1_def sample_info2_def new_MountInfo_def)
  moreover have "entry_of 2 (mounts sample_daemon) = Some (0, sample_info2\<lparr>enabled := False\<rparr>)"
    by (simp add: sample_daemon_def sample_info2_def new_MountInfo_def)
  ultimately show ?thesis
    using reload_exact [OF sample_daemon_ok(1,3)] sample_daemon_ok(2)
    by (auto simp: differ_def same_info_def sample_daemon_def)
qed

text \<open>
  A second reload of the same settings does nothing: no process is created, asked to stop or
  replaced, and the list of workers stays as it is.
\<close>

theorem reload_idempotent:
  assumes "daemon_ok s" and "distinct (map uuid (mounts_value (settings s)))"
  shows "mounts (reloadMounts (reloadMounts s)) = mounts (reloadMounts s) \<and>
    events (reloadMounts (reloadMounts s)) = events (reloadMounts s) \<and>
    next_pid (reloadMounts (reloadMounts s)) = next_pid (reloadMounts s)"
proof -
  let ?L = "mounts_value (settings s)" and ?s = "reloadMounts s"
  note core = reload_core [OF assms(1) refl assms(2)]
  have kept: "\<exists>e. look ?s (uuid i) = Some e \<and> \<not> differ i (snd e)" if "i \<in> set ?L" for i
  proof -
    obtain e where e: "look ?s (uuid i) = Some e" "dm.synced s i (look s (uuid i)) e"
      using core \<open>i \<in> set ?L\<close> by blast
    have "\<not> differ i (snd e)"
      using e(2) by (auto simp: dm.synced_def differ_def split: option.splits if_splits)
    then show ?thesis using e(1) by blast
  qed
  have "entry_of (uuid i) (mounts ?s) \<noteq> None \<and>
      \<not> (case entry_of (uuid i) (mounts ?s) of None \<Rightarrow> False | Some e \<Rightarrow> differ i (snd e))"
    if "i \<in> set ?L" for i
    using kept [OF that] unfolding look_def by fastforce
  then have none: "toaddModify ?L (mounts ?s) = ([], [])"
    unfolding toaddModify_eq by (simp add: filter_empty_conv)
  have gone: "entry_of u (mounts ?s) = None" if "u \<notin> uuid ` set ?L" for u
    using core [THEN conjunct2, THEN conjunct1, rule_format, OF that] by (simp only: look_def)
  have "{u. entry_of u (mounts ?s) \<noteq> None} \<subseteq> uuid ` set ?L"
  proof
    fix u
    assume "u \<in> {u. entry_of u (mounts ?s) \<noteq> None}"
    then show "u \<in> uuid ` set ?L" using gone [of u] by (cases "u \<in> uuid ` set ?L") simp_all
  qed
  then have "uuid ` set (toRemove ?L (mounts ?s)) = {}"
    by (simp only: toRemove_uuids Diff_eq_empty_iff)
  then have "toRemove ?L (mounts ?s) = []" by simp
  then have "reloadMounts ?s = mountAll ?s"
    using none by (simp add: reloadMounts_def [of ?s] reload_settings)
  then show ?thesis by (simp add: mountAll_def)
qed

subsection \<open>Whom a reload disturbs\<close>

definition pids :: "daemon \<Rightarrow> pid set" where
  "pids s = fst ` set (mounts s)"

definition asked :: "daemon \<Rightarrow> pid \<Rightarrow> bool" where
  "asked s p \<longleftrightarrow> TerminateAsked p \<in> set (events s)"

definition pids_ok :: "daemon \<Rightarrow> bool" where
  "pids_ok s \<longleftrightarrow> distinct (map fst (mounts s)) \<and> (\<forall>p \<in> pids s. p < next_pid s)"

text \<open>From \<open>s\<close> to \<open>t\<close>, of the processes there were, those and only those no longer listed were asked to stop.\<close>

definition disturbs :: "daemon \<Rightarrow> daemon \<Rightarrow> bool" where
  "disturbs s t \<longleftrightarrow> pids_ok t \<and> next_pid s \<le> next_pid t \<and>
     (\<forall>p < next_pid s. p \<in> pids t \<longrightarrow> p \<in> pids s) \<and>
     (\<forall>p < next_pid s. asked t p \<longleftrightarrow> asked s p \<or> p \<in> pids s \<and> p \<notin> pids t)"

lemma disturbs_refl: "pids_ok s \<Longrightarrow> disturbs s s"
  by (simp add: disturbs_def)

lemma disturbs_trans: "disturbs r s \<Longrightarrow> disturbs s t \<Longrightarrow> disturbs r t"
  unfolding disturbs_def by (meson less_le_trans order_trans)

lemma disturbs_fold:
  assumes "\<And>i s. pids_ok s \<Longrightarrow> disturbs s (f i s)"
  shows "pids_ok s \<Longrightarrow> disturbs s (fold f xs s)"
proof (induction xs arbitrary: s)
  case (Cons i xs)
  have "disturbs s (f i s)" using assms Cons.prems by blast
  moreover have "disturbs (f i s) (fold f xs (f i s))"
    using Cons.IH calculation by (simp add: disturbs_def)
  ultimately show ?case using disturbs_trans by simp
qed (simp add: disturbs_refl)

lemma disturbs_remove:
  assumes "pids_ok s"
  shows "disturbs s (remove_info i s)"
proof (cases "entry_of (uuid i) (mounts s)")
  case (Some e)
  then have "pids (remove_info i s) = pids s - {fst e}" "fst e \<in> pids s"
    using assms remove_entry_pids [of "mounts s" "uuid i" e] entry_of_Some [OF Some]
    by (auto simp: pids_def pids_ok_def remove_info_def Let_def split: prod.split)
  moreover have "distinct (map fst (remove_entry (uuid i) (mounts s)))"
    using assms by (simp add: pids_ok_def remove_entry_distinct)
  moreover have "mounts (remove_info i s) = remove_entry (uuid i) (mounts s)"
    "next_pid (remove_info i s) = next_pid s"
    "asked (remove_info i s) p \<longleftrightarrow> asked s p \<or> p = fst e" for p
    using Some by (auto simp: remove_info_def asked_def Let_def split: prod.split)
  ultimately show ?thesis using assms by (auto simp: disturbs_def pids_ok_def)
qed (simp add: remove_info_def disturbs_refl assms)

lemma disturbs_modify:
  assumes "pids_ok s"
  shows "disturbs s (modify_info i s)"
proof (cases "entry_of (uuid i) (mounts s)")
  case (Some e)
  let ?n = "(next_pid s, i)"
  have fresh: "next_pid s \<notin> pids s" using assms by (auto simp: pids_ok_def)
  have m: "mounts (modify_info i s) = replace_entry (uuid i) ?n (mounts s)"
    "next_pid (modify_info i s) = Suc (next_pid s)"
    "asked (modify_info i s) p \<longleftrightarrow> asked s p \<or> p = fst e" for p
    using Some by (auto simp: modify_info_def new_process_def asked_def Let_def split: prod.split)
  moreover have "pids (modify_info i s) = insert (next_pid s) (pids s - {fst e})" "fst e \<in> pids s"
    using assms replace_entry_pids [OF _ Some, of ?n] entry_of_Some [OF Some]
    by (simp_all add: pids_def pids_ok_def m)
  moreover have "distinct (map fst (replace_entry (uuid i) ?n (mounts s)))"
    using assms fresh by (intro replace_entry_distinct) (simp_all add: pids_ok_def pids_def)
  ultimately show ?thesis using assms fresh by (auto simp: disturbs_def pids_ok_def)
qed (simp add: modify_info_def disturbs_refl assms)

lemma disturbs_add:
  assumes "pids_ok s"
  shows "disturbs s (add_info i s)"
  using assms by (fastforce simp: add_info_def new_process_def disturbs_def pids_ok_def pids_def asked_def)

lemma reload_disturbs:
  assumes "daemon_ok s" shows "disturbs s (reloadMounts s)"
proof -
  obtain A M where AM: "toaddModify (mounts_value (settings s)) (mounts s) = (A, M)"
    by (cases "toaddModify (mounts_value (settings s)) (mounts s)")
  let ?r = "fold remove_info (toRemove (mounts_value (settings s)) (mounts s)) s"
  let ?a = "fold add_info A ?r"
  let ?t = "fold modify_info M ?a"
  have "pids_ok s" using assms(1) by (simp add: daemon_ok_def pids_ok_def pids_def)
  then have 1: "disturbs s ?r" by (intro disturbs_fold disturbs_remove)
  then have 2: "disturbs ?r ?a" by (intro disturbs_fold disturbs_add) (simp_all add: disturbs_def)
  then have 3: "disturbs ?a ?t" by (intro disturbs_fold disturbs_modify) (simp_all add: disturbs_def)
  have "disturbs s ?t" using 1 2 3 disturbs_trans by blast
  then show ?thesis
    by (simp add: reloadMounts_def AM Let_def mountAll_def disturbs_def asked_def pids_def pids_ok_def)
qed

text \<open>
  C31: A reload disturbs only what changed. Of the processes that existed before, exactly those whose
  mount is no longer listed with them (removed, or replaced for changed settings) are asked to
  stop; every other worker keeps running untouched.
\<close>

theorem reload_disturbs_only_changed:
  assumes "daemon_ok s" and "p < next_pid s"
  shows "TerminateAsked p \<in> set (events (reloadMounts s)) \<longleftrightarrow>
    TerminateAsked p \<in> set (events s) \<or>
    p \<in> fst ` set (mounts s) \<and> p \<notin> fst ` set (mounts (reloadMounts s))"
  using reload_disturbs [OF assms(1)] assms(2) by (simp add: disturbs_def asked_def pids_def)

theorem reload_disturbs_only_changed_witness:
  "TerminateAsked 1 \<in> set (events (reloadMounts sample_daemon)) \<longleftrightarrow>
    1 \<notin> fst ` set (mounts (reloadMounts sample_daemon))"
  using reload_disturbs_only_changed [OF sample_daemon_ok(1), of 1]
  by (simp add: sample_daemon_def new_daemon_def)

end
