(* ===== verification/DaemonTrace.thy ===== *)
theory DaemonTrace
  imports Daemon
begin

text \<open>
  The daemon over time: what its worker processes live through under any interleaving of the
  server's signals, the timer and the background loops (state machine \<open>daemon_reachable\<close>), and what
  one loop over the mounts achieves when it runs to its end.
\<close>

subsection \<open>What the processes live through\<close>

fun created_pid :: "daemon_event \<Rightarrow> pid list" where
  "created_pid (Created p u) = [p]"
| "created_pid _ = []"

definition created :: "daemon_event list \<Rightarrow> pid set" where
  "created es = set (concat (map created_pid es))"

lemma created_simps [simp]:
  "created [] = {}" "created (e # es) = set (created_pid e) \<union> created es"
  by (simp_all add: created_def)

text \<open>
  The order of events of each process: created once, started only after that and never after its
  release, released only after it was asked to stop.
\<close>

fun trace_ok :: "daemon_event list \<Rightarrow> bool" where
  "trace_ok [] = True"
| "trace_ok (Created p u # es) = (p \<notin> created es \<and> trace_ok es)"
| "trace_ok (StartAsked p # es) = (p \<in> created es \<and> Released p \<notin> set es \<and> trace_ok es)"
| "trace_ok (Released p # es) = (TerminateAsked p \<in> set es \<and> trace_ok es)"
| "trace_ok (_ # es) = trace_ok es"

definition traced :: "daemon \<Rightarrow> bool" where
  "traced s \<longleftrightarrow> pids_ok s \<and> trace_ok (events s) \<and> (\<forall>p \<in> created (events s). p < next_pid s) \<and>
     (\<forall>(p, m) \<in> set (mounts s). Created p (uuid m) \<in> set (events s) \<and> Released p \<notin> set (events s)) \<and>
     (\<forall>p. Released p \<in> set (events s) \<longrightarrow> p < next_pid s)"

lemma traced_quiet:
  assumes "traced s" and "\<And>p u. e \<noteq> Created p u" and "\<And>p. e \<noteq> Released p" and "\<And>p. e \<noteq> StartAsked p"
  shows "traced (log_event e s)"
  using assms by (cases e) (auto simp: traced_def pids_ok_def pids_def)

lemma traced_update [simp]:
  "traced (s\<lparr>tasks := ts\<rparr>) \<longleftrightarrow> traced s" "traced (s\<lparr>settings := f\<rparr>) \<longleftrightarrow> traced s"
  "traced (s\<lparr>mountAllrunning := b\<rparr>) \<longleftrightarrow> traced s"
  by (simp_all add: traced_def pids_ok_def pids_def)

text \<open>The parts of \<open>traced\<close>, for the operations that change the list.\<close>

lemma tracedI:
  assumes "pids_ok s" "trace_ok (events s)" "\<And>p. p \<in> created (events s) \<Longrightarrow> p < next_pid s"
    "\<And>e. e \<in> set (mounts s) \<Longrightarrow>
      Created (fst e) (uuid (snd e)) \<in> set (events s) \<and> Released (fst e) \<notin> set (events s)"
    "\<And>p. Released p \<in> set (events s) \<Longrightarrow> p < next_pid s"
  shows "traced s"
  using assms by (fastforce simp: traced_def)

lemma tracedD:
  assumes "traced s"
  shows "pids_ok s" "trace_ok (events s)" "p \<in> created (events s) \<Longrightarrow> p < next_pid s"
    "e \<in> set (mounts s) \<Longrightarrow> Created (fst e) (uuid (snd e)) \<in> set (events s)"
    "e \<in> set (mounts s) \<Longrightarrow> Released (fst e) \<notin> set (events s)"
    "Released p \<in> set (events s) \<Longrightarrow> p < next_pid s"
    "e \<in> set (mounts s) \<Longrightarrow> fst e < next_pid s"
  using assms by (auto simp: traced_def pids_ok_def pids_def)

lemma traced_remove:
  assumes "traced s"
  shows "traced (remove_info i s)"
proof (cases "entry_of (uuid i) (mounts s)")
  case (Some e)
  let ?t = "remove_info i s"
  note tr = tracedD [OF assms]
  have eq: "mounts ?t = remove_entry (uuid i) (mounts s)" "next_pid ?t = next_pid s"
    "events ?t = Released (fst e) # TerminateAsked (fst e) # events s"
    using Some by (auto simp: remove_info_def Let_def split: prod.split)
  have "fst e \<notin> fst ` set (mounts ?t)"
    using remove_entry_pids [OF _ Some] tr(1) by (simp add: eq pids_ok_def)
  then have other: "fst d \<noteq> fst e" "d \<in> set (mounts s)" if "d \<in> set (mounts ?t)" for d
    using that remove_entry_subset [of "uuid i" "mounts s"] eq(1) by (metis imageI, auto)
  show ?thesis
  proof (rule tracedI)
    show "pids_ok ?t" using disturbs_remove [OF tr(1)] by (simp add: disturbs_def)
    show "p < next_pid ?t" if "Released p \<in> set (events ?t)" for p
      using that tr(6) tr(7) [of e] entry_of_Some [OF Some] by (auto simp: eq)
  qed (use tr other in \<open>auto simp: eq(2,3)\<close>)
qed (simp add: remove_info_def assms)

lemma traced_add:
  assumes "traced s"
  shows "traced (add_info i s)"
proof -
  have "pids_ok (add_info i s)"
    using disturbs_add assms by (simp add: disturbs_def traced_def)
  then show ?thesis
    using assms by (fastforce simp: traced_def add_info_def new_process_def)
qed

lemma replace_entry_subset: "set (replace_entry u e ms) \<subseteq> insert e (set ms)"
  by (induction ms) auto

lemma traced_modify:
  assumes "traced s"
  shows "traced (modify_info i s)"
proof (cases "entry_of (uuid i) (mounts s)")
  case (Some e)
  let ?t = "modify_info i s" and ?n = "(next_pid s, i)"
  note tr = tracedD [OF assms]
  have lt: "fst e < next_pid s" using tr(7) entry_of_Some [OF Some] by simp
  have eq: "mounts ?t = replace_entry (uuid i) ?n (mounts s)" "next_pid ?t = Suc (next_pid s)"
    "events ?t = Released (fst e) # Created (next_pid s) (uuid i) # TerminateAsked (fst e) # events s"
    using Some by (auto simp: modify_info_def new_process_def Let_def split: prod.split)
  have "fst e \<notin> fst ` set (mounts ?t)"
    using replace_entry_pids [OF _ Some, of ?n] tr(1) lt by (simp add: eq pids_ok_def)
  then have other: "fst d \<noteq> fst e" "d = ?n \<or> d \<in> set (mounts s)" if "d \<in> set (mounts ?t)" for d
    using that replace_entry_subset [of "uuid i" ?n "mounts s"] eq(1) by (metis imageI, auto)
  have new: "next_pid s \<notin> created (events s)" "Released (next_pid s) \<notin> set (events s)"
    using tr(3,6) by blast+
  show ?thesis
  proof (rule tracedI)
    show "pids_ok ?t" using disturbs_modify [OF tr(1)] by (simp add: disturbs_def)
    show "p < next_pid ?t" if "Released p \<in> set (events ?t)" for p
      using that tr(6) lt by (auto simp: eq less_Suc_eq)
    show "p < next_pid ?t" if "p \<in> created (events ?t)" for p
      using that tr(3) by (auto simp: eq less_Suc_eq)
    show "Created (fst d) (uuid (snd d)) \<in> set (events ?t) \<and> Released (fst d) \<notin> set (events ?t)"
      if "d \<in> set (mounts ?t)" for d
      using other [OF that] tr(4,5) [of d] new by (auto simp: eq(3))
  qed (use tr new in \<open>simp add: eq(3)\<close>)
qed (simp add: modify_info_def assms)

lemma traced_fold:
  assumes "\<And>i s. traced s \<Longrightarrow> traced (f i s)"
  shows "traced s \<Longrightarrow> traced (fold f xs s)"
  using assms by (induction xs arbitrary: s) auto

lemma traced_mount:
  assumes "traced s"
  shows "traced (mount_worker E u s)"
proof (cases "entry_of u (mounts s)")
  case (Some e)
  have mem: "e \<in> set (mounts s)" using entry_of_Some [OF Some] by simp
  then have c: "Created (fst e) (uuid (snd e)) \<in> set (events s)" "Released (fst e) \<notin> set (events s)"
    using assms by (auto simp: traced_def)
  have "fst e \<in> created (events s)"
    using c(1) by (force simp: created_def)
  then have "traced (log_event (StartAsked (fst e)) s)"
    using assms c by (auto simp: traced_def pids_ok_def pids_def)
  then show ?thesis
    using Some by (auto simp: mount_worker_def raise_priority_def Let_def traced_quiet split: prod.split)
qed (simp add: mount_worker_def assms)

lemma traced_reload:
  assumes "traced s"
  shows "traced (reloadMounts s)"
  using assms
  by (simp add: reloadMounts_def mountAll_def Let_def traced_fold [where f = remove_info]
      traced_fold [where f = add_info] traced_fold [where f = modify_info] traced_remove traced_add
      traced_modify split: prod.split)

lemma traced_task:
  assumes "traced s"
  shows "traced (snd (run_task E t s))"
  using assms
  by (cases "(E, t, s)" rule: run_task.cases)
    (auto simp: traced_mount check_entry_def Let_def traced_quiet split: prod.split)

subsection \<open>The running daemon\<close>

text \<open>
  What can happen: a signal of the server, the timer, a change of the settings file by the controller,
  a step of one of the background loops, in any order. The mounts of the file always have different
  identifiers (the controller keeps it so, theory MountList).
\<close>

definition file_ok :: "qitem list option \<Rightarrow> bool" where
  "file_ok f \<longleftrightarrow> distinct (map uuid (mounts_value f))"

inductive daemon_step :: "daemon_env \<Rightarrow> daemon \<Rightarrow> daemon \<Rightarrow> bool" for E where
  signal: "daemon_step E s (deliver E g s)"
| timer: "daemon_step E s (checkStatus s)"
| saved: "file_ok f \<Longrightarrow> daemon_step E s (s\<lparr>settings := f\<rparr>)"
| background: "tasks s = ts @ t # us \<Longrightarrow> run_task E t s = (r, s') \<Longrightarrow>
    daemon_step E s (s'\<lparr>tasks := ts @ (case r of None \<Rightarrow> [] | Some t' \<Rightarrow> [t']) @ us\<rparr>)"

inductive daemon_reachable :: "daemon_env \<Rightarrow> daemon \<Rightarrow> bool" for E where
  started: "file_ok f \<Longrightarrow> daemon_reachable E (Daemon_start f)"
| stepped: "daemon_reachable E s \<Longrightarrow> daemon_step E s s' \<Longrightarrow> daemon_reachable E s'"

definition daemon_inv :: "daemon \<Rightarrow> bool" where
  "daemon_inv s \<longleftrightarrow> daemon_ok s \<and> traced s \<and> file_ok (settings s)"

lemma daemon_ok_update [simp]:
  "daemon_ok (s\<lparr>tasks := ts\<rparr>) \<longleftrightarrow> daemon_ok s" "daemon_ok (s\<lparr>settings := f\<rparr>) \<longleftrightarrow> daemon_ok s"
  "daemon_ok (s\<lparr>mountAllrunning := b\<rparr>) \<longleftrightarrow> daemon_ok s" "daemon_ok (log_event e s) \<longleftrightarrow> daemon_ok s"
  by (simp_all add: daemon_ok_def)

lemma mount_frame:
  "daemon_ok (mount_worker E u s) \<longleftrightarrow> daemon_ok s" "settings (mount_worker E u s) = settings s"
  "mounts (mount_worker E u s) = mounts s" "tasks (mount_worker E u s) = tasks s"
  by (auto simp: mount_worker_def raise_priority_def Let_def split: option.split prod.split)

lemma check_frame:
  "daemon_ok (check_entry E e s) \<longleftrightarrow> daemon_ok s" "settings (check_entry E e s) = settings s"
  by (auto simp: check_entry_def Let_def mount_frame split: prod.split)

lemma task_frame:
  "daemon_ok (snd (run_task E t s)) \<longleftrightarrow> daemon_ok s" "settings (snd (run_task E t s)) = settings s"
  by (cases "(E, t, s)" rule: run_task.cases; simp add: mount_frame check_frame)+

lemma daemon_inv_reload:
  "daemon_inv s \<Longrightarrow> daemon_inv (reloadMounts s)"
  using reload_core [of s "mounts_value (settings s)"]
  by (simp add: daemon_inv_def file_ok_def reload_settings traced_reload)

lemma daemon_inv_step:
  assumes "daemon_step E s s'" and "daemon_inv s"
  shows "daemon_inv s'"
  using assms
proof cases
  case (signal g)
  then show ?thesis
    using assms(2) daemon_inv_reload [OF assms(2)]
    by (cases g) (simp_all add: daemon_inv_def mount_frame traced_mount mountAll_def)
next
  case (background ts t us r t')
  then have t': "t' = snd (run_task E t s)" by simp
  have "daemon_inv t'" using assms(2) by (simp add: daemon_inv_def t' task_frame traced_task)
  then show ?thesis using background by (simp add: daemon_inv_def)
qed (simp_all add: daemon_inv_def checkStatus_def)

lemma daemon_inv_new: "file_ok f \<Longrightarrow> daemon_inv (new_daemon f)"
  by (simp add: daemon_inv_def new_daemon_def daemon_ok_def traced_def pids_ok_def pids_def)

lemma daemon_inv_reachable: "daemon_reachable E s \<Longrightarrow> daemon_inv s"
  by (induction rule: daemon_reachable.induct)
    (simp_all add: Daemon_start_def daemon_inv_new daemon_inv_reload daemon_inv_step)

text \<open>
  C32: The service never revives a worker it has let go, whatever the interleaving of reloads, starts,
  timers, background loops and changes of the settings: in every reachable state each process was
  created once, was started only after its creation and before its release, and was asked to stop
  before it was released; and the daemon lists each mount and each process once.
\<close>

theorem daemon_trace_ok:
  assumes "daemon_reachable E s"
  shows "daemon_ok s \<and> trace_ok (events s)"
  using daemon_inv_reachable [OF assms] by (simp add: daemon_inv_def traced_def)

definition sample_env :: daemon_env where
  "sample_env = \<lparr>is_running = (\<lambda>es p. StartAsked p \<in> set es \<and> TerminateAsked p \<notin> set es),
     dir_exists = (\<lambda>es d. d = W ''C''), can_open = (\<lambda>es p. True), finishes = (\<lambda>es p. False)\<rparr>"

theorem daemon_trace_ok_witness:
  "trace_ok (events (mount_worker sample_env 1
     (Daemon_start (Some (write_mlist [sample_info1, sample_info2])))))"
proof -
  have "file_ok (Some (write_mlist [sample_info1, sample_info2]))"
    using sample_daemon_ok(2,3) by (simp add: file_ok_def mounts_value_write mlist_ok_def)
  then have "daemon_reachable sample_env (Daemon_start (Some (write_mlist [sample_info1, sample_info2])))"
    by (rule daemon_reachable.started)
  moreover have "daemon_step sample_env s (mount_worker sample_env 1 s)" for s
    using daemon_step.signal [of sample_env s "mount_sig 1"] by simp
  ultimately have "daemon_reachable sample_env (mount_worker sample_env 1
     (Daemon_start (Some (write_mlist [sample_info1, sample_info2]))))"
    by (rule daemon_reachable.stepped)
  then show ?thesis using daemon_trace_ok by blast
qed

subsection \<open>A loop run to its end\<close>

function run_to_end :: "daemon_env \<Rightarrow> task \<Rightarrow> daemon \<Rightarrow> daemon" where
  "run_to_end E t s =
     (case run_task E t s of (None, s') \<Rightarrow> s' | (Some t', s') \<Rightarrow> run_to_end E t' s')"
  by pat_completeness auto

fun task_size :: "task \<Rightarrow> daemon \<Rightarrow> nat" where
  "task_size MountAllQueued s = length (mounts s) + 2"
| "task_size (MountAllLoop ms) s = length ms + 1"
| "task_size CheckQueued s = length (mounts s) + 2"
| "task_size (CheckLoop ms) s = length ms + 1"

lemma run_task_size: "run_task E t s = (Some t', s') \<Longrightarrow> task_size t' s' < task_size t s"
  by (cases "(E, t, s)" rule: run_task.cases) auto

termination run_to_end
  by (relation "measure (\<lambda>(E, t, s). task_size t s)") (auto simp: run_task_size)

declare run_to_end.simps [simp del]

lemma run_to_end_simps:
  "run_to_end E MountAllQueued s =
    run_to_end E (MountAllLoop (mounts s)) (s\<lparr>mountAllrunning := True\<rparr>)"
  "run_to_end E (MountAllLoop []) s = s\<lparr>mountAllrunning := False\<rparr>"
  "run_to_end E (MountAllLoop (e # ms)) s = run_to_end E (MountAllLoop ms)
    (if dir_exists E (events s) (RootDirectory (snd e)) \<and> enabled (snd e)
     then mount_worker E (uuid (snd e)) s else s)"
  "run_to_end E CheckQueued s = run_to_end E (CheckLoop (mounts s)) s"
  "run_to_end E (CheckLoop []) s = s"
  "run_to_end E (CheckLoop (e # ms)) s = run_to_end E (CheckLoop ms) (check_entry E e s)"
  by (subst run_to_end.simps; cases e; simp)+

text \<open>Which processes have been asked to start.\<close>

definition start_asked :: "daemon \<Rightarrow> pid \<Rightarrow> bool" where
  "start_asked s p \<longleftrightarrow> StartAsked p \<in> set (events s)"

lemma start_asked_mount:
  assumes "daemon_ok s" and "e \<in> set (mounts s)"
  shows "start_asked (mount_worker E (uuid (snd e)) s) p \<longleftrightarrow> start_asked s p \<or> p = fst e"
proof -
  have "entry_of (uuid (snd e)) (mounts s) = Some e"
    using assms by (intro entry_of_mem) (simp_all add: daemon_ok_def)
  then show ?thesis
    by (auto simp: mount_worker_def raise_priority_def start_asked_def Let_def split: prod.split)
qed

lemma mount_loop:
  assumes "\<And>es d. dir_exists E es d \<longleftrightarrow> ex d"
  shows "daemon_ok s \<Longrightarrow> set ms \<subseteq> set (mounts s) \<Longrightarrow>
    start_asked (run_to_end E (MountAllLoop ms) s) p \<longleftrightarrow>
      start_asked s p \<or> (\<exists>m. (p, m) \<in> set ms \<and> enabled m \<and> ex (RootDirectory m))"
proof (induction ms arbitrary: s)
  case Nil
  then show ?case by (simp add: run_to_end_simps start_asked_def)
next
  case (Cons e ms)
  let ?t = "if ex (RootDirectory (snd e)) \<and> enabled (snd e) then mount_worker E (uuid (snd e)) s else s"
  have "daemon_ok ?t" "set ms \<subseteq> set (mounts ?t)"
    using Cons.prems by (simp_all add: mount_frame)
  moreover have "start_asked ?t p \<longleftrightarrow>
      start_asked s p \<or> p = fst e \<and> ex (RootDirectory (snd e)) \<and> enabled (snd e)"
    using Cons.prems by (auto simp: start_asked_mount)
  ultimately show ?case
    using Cons.IH [of ?t] by (cases e) (auto simp: run_to_end_simps assms)
qed

lemma mount_loop_flag: "\<not> mountAllrunning (run_to_end E (MountAllLoop ms) s)"
  by (induction ms arbitrary: s) (simp_all add: run_to_end_simps)

lemma mountAll_starts:
  assumes "daemon_ok s" and "\<And>es d. dir_exists E es d \<longleftrightarrow> ex d"
  shows "start_asked (run_to_end E MountAllQueued s) p \<longleftrightarrow>
    start_asked s p \<or> (\<exists>m. (p, m) \<in> set (mounts s) \<and> enabled m \<and> ex (RootDirectory m))"
  using mount_loop [of E ex "s\<lparr>mountAllrunning := True\<rparr>" "mounts s" p] assms
  by (simp add: run_to_end_simps start_asked_def)

text \<open>
  C33: The loop over the mounts ends and does its work: run to its end, it has asked to start
  the worker of every enabled mount whose root directory exists, and no other, and the flag that
  holds the timer back is down again.
\<close>

theorem mountAll_starts_exactly:
  assumes "daemon_ok s" and "\<And>es d. dir_exists E es d \<longleftrightarrow> ex d"
  shows "\<not> mountAllrunning (run_to_end E MountAllQueued s) \<and>
    (StartAsked p \<in> set (events (run_to_end E MountAllQueued s)) \<longleftrightarrow>
      StartAsked p \<in> set (events s) \<or>
      (\<exists>m. (p, m) \<in> set (mounts s) \<and> enabled m \<and> ex (RootDirectory m)))"
  using mountAll_starts [of s E ex p] assms
  by (simp add: run_to_end_simps mount_loop_flag start_asked_def)

theorem mountAll_starts_exactly_witness:
  "StartAsked 1 \<in> set (events (run_to_end sample_env MountAllQueued
     (sample_daemon\<lparr>mounts := [(0, sample_info2), (1, sample_info1)]\<rparr>)))"
proof -
  let ?s = "sample_daemon\<lparr>mounts := [(0, sample_info2), (1, sample_info1)]\<rparr>"
  have "daemon_ok ?s"
    by (simp add: daemon_ok_def sample_daemon_def sample_info1_def sample_info2_def new_MountInfo_def)
  then show ?thesis
    using mountAll_starts_exactly [of ?s sample_env "\<lambda>d. d = W ''C''" 1]
    by (simp add: sample_env_def sample_info1_def new_MountInfo_def)
qed

text \<open>The process an event is about.\<close>

fun event_pid :: "daemon_event \<Rightarrow> pid option" where
  "event_pid (Created p u) = Some p"
| "event_pid (TerminateAsked p) = Some p"
| "event_pid (Released p) = Some p"
| "event_pid (StartAsked p) = Some p"
| "event_pid (PrioritySet p) = Some p"
| "event_pid (Waited p b) = Some p"
| "event_pid (KillAsked p) = Some p"
| "event_pid (StatusSent u b) = None"

text \<open>What one turn of the check adds to the log.\<close>

lemma check_entry_events:
  assumes "daemon_ok s" and "(p, m) \<in> set (mounts s)"
  obtains more where
    "events (check_entry E (p, m) s) = more @ StatusSent (uuid m) (is_running E (events s) p) # events s"
    "\<forall>e \<in> set more. event_pid e \<in> {None, Some p}"
    "StartAsked p \<in> set more \<longleftrightarrow>
       \<not> mountAllrunning s \<and> enabled m \<and> keepAlive m \<and> \<not> is_running E (events s) p"
proof -
  let ?s = "log_event (StatusSent (uuid m) (is_running E (events s) p)) s"
  have entry: "entry_of (uuid m) (mounts s) = Some (p, m)"
    using entry_of_mem [OF _ assms(2)] assms(1) by (simp add: daemon_ok_def)
  have "\<exists>more. events (mount_worker E (uuid m) ?s) = more @ events ?s \<and>
      (\<forall>e \<in> set more. event_pid e \<in> {None, Some p}) \<and> StartAsked p \<in> set more"
    by (simp add: mount_worker_def raise_priority_def entry Let_def)
  then obtain more where more: "events (mount_worker E (uuid m) ?s) = more @ events ?s"
      "\<forall>e \<in> set more. event_pid e \<in> {None, Some p}" "StartAsked p \<in> set more" by blast
  let ?start = "\<not> mountAllrunning s \<and> enabled m \<and> keepAlive m \<and> \<not> is_running E (events s) p"
  show thesis
    by (rule that [of "if ?start then more else []"])
      (use more in \<open>auto simp: check_entry_def Let_def\<close>)
qed

lemma check_loop:
  assumes "daemon_ok s" and "set ms \<subseteq> set (mounts s)" and "distinct (map fst ms)"
  shows "\<exists>new. events (run_to_end E (CheckLoop ms) s) = new @ events s \<and>
    (\<forall>p. p \<notin> fst ` set ms \<longrightarrow> (\<forall>e \<in> set new. event_pid e \<noteq> Some p)) \<and>
    (\<forall>(p, m) \<in> set ms. \<exists>later earlier.
       new = later @ StatusSent (uuid m) (is_running E (earlier @ events s) p) # earlier \<and>
       (\<forall>e \<in> set earlier. event_pid e \<noteq> Some p) \<and>
       (StartAsked p \<in> set new \<longleftrightarrow> \<not> mountAllrunning s \<and> enabled m \<and> keepAlive m \<and>
          \<not> is_running E (earlier @ events s) p))"
  using assms
proof (induction ms arbitrary: s)
  case Nil
  then show ?case by (simp add: run_to_end_simps)
next
  case (Cons x ms)
  obtain q k where x: "x = (q, k)" by (cases x)
  let ?t = "check_entry E (q, k) s"
  have q: "q \<notin> fst ` set ms" using Cons.prems(3) by (simp add: x)
  obtain more where more: "events ?t = more @ StatusSent (uuid k) (is_running E (events s) q) # events s"
      "\<forall>e \<in> set more. event_pid e \<in> {None, Some q}"
      "StartAsked q \<in> set more \<longleftrightarrow>
         \<not> mountAllrunning s \<and> enabled k \<and> keepAlive k \<and> \<not> is_running E (events s) q"
    by (rule check_entry_events [of s q k E]) (use Cons.prems x in auto)
  let ?one = "more @ [StatusSent (uuid k) (is_running E (events s) q)]"
  have frame: "mounts (mount_worker E u r) = mounts r"
      "mountAllrunning (mount_worker E u r) = mountAllrunning r" for u r
    by (auto simp: mount_worker_def raise_priority_def Let_def split: option.split prod.split)
  have t: "daemon_ok ?t" using Cons.prems(1) by (simp add: check_frame)
  have "mounts ?t = mounts s" "mountAllrunning ?t = mountAllrunning s"
    by (simp_all add: check_entry_def Let_def frame)
  note t = t this
  obtain new where new: "events (run_to_end E (CheckLoop ms) ?t) = new @ events ?t"
      "\<forall>p. p \<notin> fst ` set ms \<longrightarrow> (\<forall>e \<in> set new. event_pid e \<noteq> Some p)"
      "\<forall>(p, m) \<in> set ms. \<exists>later earlier.
         new = later @ StatusSent (uuid m) (is_running E (earlier @ events ?t) p) # earlier \<and>
         (\<forall>e \<in> set earlier. event_pid e \<noteq> Some p) \<and>
         (StartAsked p \<in> set new \<longleftrightarrow> \<not> mountAllrunning s \<and> enabled m \<and> keepAlive m \<and>
            \<not> is_running E (earlier @ events ?t) p)"
    using Cons.IH [of ?t] Cons.prems t by auto
  have one: "event_pid e \<noteq> Some p" if "e \<in> set ?one" "p \<noteq> q" for e p
    using that more(2) by auto
  have head: "\<exists>later earlier.
      new @ ?one = later @ StatusSent (uuid k) (is_running E (earlier @ events s) q) # earlier \<and>
      (\<forall>e \<in> set earlier. event_pid e \<noteq> Some q) \<and>
      (StartAsked q \<in> set (new @ ?one) \<longleftrightarrow> \<not> mountAllrunning s \<and> enabled k \<and> keepAlive k \<and>
         \<not> is_running E (earlier @ events s) q)"
  proof (rule exI [of _ "new @ more"], rule exI [of _ "[]"], intro conjI)
    have "StartAsked q \<notin> set new" using new(2) q event_pid.simps(4) by blast
    then show "StartAsked q \<in> set (new @ ?one) \<longleftrightarrow> \<not> mountAllrunning s \<and> enabled k \<and> keepAlive k \<and>
         \<not> is_running E ([] @ events s) q" using more(3) by simp
  qed simp_all
  have tail: "\<exists>later earlier.
      new @ ?one = later @ StatusSent (uuid m) (is_running E (earlier @ events s) p) # earlier \<and>
      (\<forall>e \<in> set earlier. event_pid e \<noteq> Some p) \<and>
      (StartAsked p \<in> set (new @ ?one) \<longleftrightarrow> \<not> mountAllrunning s \<and> enabled m \<and> keepAlive m \<and>
         \<not> is_running E (earlier @ events s) p)" if mem: "(p, m) \<in> set ms" for p m
  proof -
    have p: "p \<noteq> q" using q mem by force
    obtain l e where le: "new = l @ StatusSent (uuid m) (is_running E (e @ events ?t) p) # e"
        "\<forall>x \<in> set e. event_pid x \<noteq> Some p"
        "StartAsked p \<in> set new \<longleftrightarrow> \<not> mountAllrunning s \<and> enabled m \<and> keepAlive m \<and>
           \<not> is_running E (e @ events ?t) p"
      using bspec [OF new(3) mem] unfolding prod.case by (elim exE conjE) (rule that)
    have none: "StartAsked p \<notin> set ?one" using one [OF _ p] event_pid.simps(4) by blast
    have ev: "e @ events ?t = (e @ ?one) @ events s" by (simp add: more(1))
    show ?thesis
    proof (rule exI [of _ l], rule exI [of _ "e @ ?one"], intro conjI)
      show "new @ ?one = l @ StatusSent (uuid m) (is_running E ((e @ ?one) @ events s) p) # e @ ?one"
        using le(1) unfolding ev by simp
      show "\<forall>x \<in> set (e @ ?one). event_pid x \<noteq> Some p" using le(2) one [OF _ p] by auto
      show "StartAsked p \<in> set (new @ ?one) \<longleftrightarrow> \<not> mountAllrunning s \<and> enabled m \<and> keepAlive m \<and>
          \<not> is_running E ((e @ ?one) @ events s) p"
        using le(3) none unfolding ev by simp
    qed
  qed
  have "events (run_to_end E (CheckLoop (x # ms)) s) = (new @ ?one) @ events s"
    by (simp add: run_to_end_simps x new(1) more(1))
  moreover have "\<forall>p. p \<notin> fst ` set (x # ms) \<longrightarrow> (\<forall>e \<in> set (new @ ?one). event_pid e \<noteq> Some p)"
    using new(2) one by (auto simp: x)
  ultimately show ?case
    using head tail by (intro exI [of _ "new @ ?one"]) (simp only: x, auto)
qed

text \<open>
  C35: The timer keeps alive what is to be kept alive, and nothing else. One check of the daemon takes
  each listed worker in turn, reports whether it runs as its turn comes, and asks to start exactly
  those that do not run then, when their mounts are enabled and marked to be kept alive and the mounts
  are not just being started; no other process is touched.
\<close>

theorem checkStatus_keeps_alive:
  assumes "daemon_ok s"
  shows "\<exists>new. events (run_to_end E CheckQueued s) = new @ events s \<and>
    (\<forall>p. p \<notin> fst ` set (mounts s) \<longrightarrow> (\<forall>e \<in> set new. event_pid e \<noteq> Some p)) \<and>
    (\<forall>(p, m) \<in> set (mounts s). \<exists>later earlier.
       new = later @ StatusSent (uuid m) (is_running E (earlier @ events s) p) # earlier \<and>
       (\<forall>e \<in> set earlier. event_pid e \<noteq> Some p) \<and>
       (StartAsked p \<in> set new \<longleftrightarrow> \<not> mountAllrunning s \<and> enabled m \<and> keepAlive m \<and>
          \<not> is_running E (earlier @ events s) p))"
  using check_loop [of s "mounts s" E] assms by (simp add: run_to_end_simps daemon_ok_def)

theorem checkStatus_keeps_alive_witness:
  "StartAsked 0 \<in> set (events (run_to_end sample_env CheckQueued
     (sample_daemon\<lparr>mounts := [(0, sample_info2), (1, sample_info1)]\<rparr>)))"
proof -
  let ?s = "sample_daemon\<lparr>mounts := [(0, sample_info2), (1, sample_info1)]\<rparr>"
  have "daemon_ok ?s"
    by (simp add: daemon_ok_def sample_daemon_def sample_info1_def sample_info2_def new_MountInfo_def)
  from checkStatus_keeps_alive [OF this, of sample_env] obtain new where
    new: "events (run_to_end sample_env CheckQueued ?s) = new @ events ?s"
      "\<forall>(p, m) \<in> set (mounts ?s). \<exists>later earlier.
         new = later @ StatusSent (uuid m) (is_running sample_env (earlier @ events ?s) p) # earlier \<and>
         (\<forall>e \<in> set earlier. event_pid e \<noteq> Some p) \<and>
         (StartAsked p \<in> set new \<longleftrightarrow> \<not> mountAllrunning ?s \<and> enabled m \<and> keepAlive m \<and>
            \<not> is_running sample_env (earlier @ events ?s) p)"
    by blast
  have mem: "(0, sample_info2) \<in> set (mounts ?s)" by simp
  obtain earlier where e: "\<forall>e \<in> set earlier. event_pid e \<noteq> Some 0"
      "StartAsked 0 \<in> set new \<longleftrightarrow> \<not> mountAllrunning ?s \<and> enabled sample_info2 \<and> keepAlive sample_info2 \<and>
         \<not> is_running sample_env (earlier @ events ?s) 0"
    using bspec [OF new(2) mem] unfolding prod.case by blast
  have "events ?s = []" by (simp add: sample_daemon_def new_daemon_def)
  moreover have "StartAsked 0 \<notin> set earlier" using e(1) by force
  ultimately have "\<not> is_running sample_env (earlier @ events ?s) 0" by (simp add: sample_env_def)
  then have "StartAsked 0 \<in> set new"
    using e(2) by (simp add: sample_info2_def new_MountInfo_def sample_daemon_def new_daemon_def)
  then show ?thesis unfolding new(1) by simp
qed

end
