(* ===== verification/Controller.thy ===== *)
theory Controller
  imports MountList Client DaemonTrace
begin

text \<open>
  The controller application (seamless_smb_service_controller/applicationui.cpp, applicationui.h): it
  owns the list of mounts, saves it to the settings file the service reads and asks the service to
  reload. The second half composes controller, socket and daemon: what an edit does to the
  workers of the service.
\<close>

record app =
  ui_model :: mountlist
  ui_file :: "qitem list option"
  ui_sock :: "client option"
  ui_isRunning :: bool
  ui_isInstalled :: bool

subsection \<open>Operations\<close>

definition setIsRunning :: "bool \<Rightarrow> app \<Rightarrow> app" where
  "setIsRunning b a = (if ui_isRunning a = b then a else a\<lparr>ui_isRunning := b\<rparr>)"

definition setIsInstalled :: "bool \<Rightarrow> app \<Rightarrow> app" where
  "setIsInstalled b a = (if ui_isInstalled a = b then a else a\<lparr>ui_isInstalled := b\<rparr>)"

text \<open>The timer: whether the service runs, and whether its socket answers, are arguments.\<close>

definition isRunningTimerTimeout :: "bool \<Rightarrow> bool \<Rightarrow> app \<Rightarrow> app" where
  "isRunningTimerTimeout run answers a =
     (let a = (if run \<and> ui_sock a = None then a\<lparr>ui_sock := Some (Client_start answers)\<rparr> else a);
          a = (if \<not> run \<and> ui_sock a \<noteq> None then a\<lparr>ui_sock := None\<rparr> else a) in
      setIsRunning run a)"

definition ApplicationUI :: "qitem list option \<Rightarrow> bool \<Rightarrow> bool \<Rightarrow> bool \<Rightarrow> app" where
  "ApplicationUI f installed run answers =
     isRunningTimerTimeout run answers (setIsInstalled installed
       \<lparr>ui_model = MountListModel (mounts_value f), ui_file = f, ui_sock = None,
        ui_isRunning = False, ui_isInstalled = False\<rparr>)"

definition onModelModified :: "app \<Rightarrow> app" where
  "onModelModified a =
     a\<lparr>ui_file := Some (write_mlist (getModelList (ui_model a))),
       ui_sock := map_option sendReload (ui_sock a)\<rparr>"

text \<open>
  The calls of the user interface on the service itself: installing reports whether it worked,
  removing leaves the display as it is. The destructor drops the socket.
\<close>

definition installService :: "bool \<Rightarrow> app \<Rightarrow> app" where
  "installService ok a = setIsInstalled ok a"

definition uninstallService :: "app \<Rightarrow> bool \<times> app" where
  "uninstallService a = (ui_isInstalled a, a)"

definition destroy_ui :: "app \<Rightarrow> app" where
  "destroy_ui a = a\<lparr>ui_sock := None\<rparr>"

text \<open>A slot of the list called by the user interface; \<open>edited\<close> is connected to \<open>onModelModified\<close>.\<close>

definition user_action :: "(mountlist \<Rightarrow> bool \<times> mountlist) \<Rightarrow> app \<Rightarrow> app" where
  "user_action f a =
     (let (edited, m) = f (ui_model a); a = a\<lparr>ui_model := m\<rparr> in
      if edited then onModelModified a else a)"

text \<open>The signal \<open>status\<close> is connected to \<open>setRunning\<close>.\<close>

definition take_statuses :: "(uuid \<times> bool) list \<Rightarrow> app \<Rightarrow> app" where
  "take_statuses xs a = a\<lparr>ui_model := fold (\<lambda>(u, b). setRunning u b) xs (ui_model a)\<rparr>"

subsection \<open>The socket follows the service\<close>

text \<open>
  After each tick of the timer the controller has a socket exactly when the service runs, and
  shows that; a tick that finds nothing changed keeps the connection it has.
\<close>

theorem socket_follows_service:
  "(ui_sock (isRunningTimerTimeout run answers a) \<noteq> None \<longleftrightarrow> run) \<and>
   (ui_isRunning (isRunningTimerTimeout run answers a) \<longleftrightarrow> run) \<and>
   (run \<longrightarrow> ui_sock a \<noteq> None \<longrightarrow> ui_sock (isRunningTimerTimeout run answers a) = ui_sock a)"
  by (auto simp: isRunningTimerTimeout_def setIsRunning_def Let_def)

text \<open>A running service whose socket answers.\<close>

theorem socket_follows_service_witness:
  "ui_sock (isRunningTimerTimeout True False
      (ApplicationUI None True True True)) = ui_sock (ApplicationUI None True True True)"
  using socket_follows_service [of True False "ApplicationUI None True True True"]
  by (simp add: ApplicationUI_def isRunningTimerTimeout_def setIsRunning_def setIsInstalled_def Let_def)

subsection \<open>From the workers to the display\<close>

text \<open>The status a row shows after some status signals, the newest last.\<close>

definition shown_status :: "(uuid \<times> bool) list \<Rightarrow> uuid \<Rightarrow> bool \<Rightarrow> bool" where
  "shown_status xs u b = foldl (\<lambda>b (v, b'). if v = u then b' else b) b xs"

lemma setRunning_row:
  "find_row u (modelList (setRunning v b m)) =
    map_option (\<lambda>r. if v = u then r\<lparr>running := b\<rparr> else r) (find_row u (modelList m))"
proof -
  have "find_row u (map (\<lambda>r. if uuid r = v then (if running r \<noteq> b then r\<lparr>running := b\<rparr> else r) else r) rs) =
      map_option (\<lambda>r. if v = u then r\<lparr>running := b\<rparr> else r) (find_row u rs)" for rs
    by (induction rs) auto
  then show ?thesis by (simp add: setRunning_def)
qed

lemma setRunning_settings: "getModelList (setRunning u b m) = getModelList m"
  by (auto simp: getModelList_def setRunning_def mountinfo.defs)

lemma fold_setRunning:
  "find_row u (modelList m) = Some r \<Longrightarrow>
    find_row u (modelList (fold (\<lambda>(u, b). setRunning u b) xs m)) =
      Some (r\<lparr>running := shown_status xs u (running r)\<rparr>) \<and>
    getModelList (fold (\<lambda>(u, b). setRunning u b) xs m) = getModelList m"
proof (induction xs arbitrary: m r)
  case Nil
  then show ?case by (cases r) (simp add: shown_status_def)
next
  case (Cons x xs)
  obtain v b where x: "x = (v, b)" by (cases x)
  have "find_row u (modelList (setRunning v b m)) = Some (if v = u then r\<lparr>running := b\<rparr> else r)"
    using Cons.prems by (simp add: setRunning_row)
  from Cons.IH [OF this] show ?case
    by (auto simp: x shown_status_def setRunning_settings)
qed

text \<open>
  C36: The controller shows what the workers do. When its buffer holds the lines for a sequence of
  statuses the server wrote, and perhaps the beginning of a further one, the controller takes in exactly
  those that are there as a whole, in order (the beginning is thrown away with them, or waits when it
  is alone), and then each of its mounts shows the last status taken in for it, or what it showed before
  when there was none; the settings do not change.
\<close>

theorem statuses_shown:
  assumes "qt_ok Q" and "inbuf c = concat (map (\<lambda>(u, b). status_line Q u b) xs) @ part"
    and "NEWLINE \<notin> set part" and "find_row u (modelList (ui_model a)) = Some r"
  shows "\<exists>c' a'. Client_onReadyRead Q c = Ret c' \<and>
    statuses c' = List.rev xs @ statuses c \<and> inbuf c' = (if xs = [] then part else []) \<and>
    a' = take_statuses (List.rev (take (length (statuses c') - length (statuses c)) (statuses c'))) a \<and>
    find_row u (modelList (ui_model a')) = Some (r\<lparr>running := shown_status xs u (running r)\<rparr>) \<and>
    getModelList (ui_model a') = getModelList (ui_model a)"
proof -
  have "Client_onReadyRead Q c =
      Ret (c\<lparr>inbuf := (if xs = [] then part else []), statuses := List.rev xs @ statuses c\<rparr>)"
  proof (cases "xs = []")
    case True
    then show ?thesis using assms(2,3) by (simp add: Client_onReadyRead_def read_loop_none has_line_def)
  next
    case False
    then show ?thesis using cut_status_lost [OF assms(1) False assms(3,2)] by simp
  qed
  then show ?thesis using fold_setRunning [OF assms(4), of xs] by (simp add: take_statuses_def)
qed

theorem statuses_shown_witness:
  "\<exists>c' a'. Client_onReadyRead sample_qt
      (new_client\<lparr>inbuf := status_line sample_qt 3 True @ W ''STATUS 00''\<rparr>) = Ret c' \<and>
    a' = take_statuses (List.rev (statuses c'))
      (ApplicationUI (Some (write_mlist [new_MountInfo 3])) True False True) \<and>
    find_row 3 (modelList (ui_model a')) = Some ((row_of (new_MountInfo 3))\<lparr>running := True\<rparr>)"
proof -
  let ?a = "ApplicationUI (Some (write_mlist [new_MountInfo 3])) True False True"
  have row: "find_row 3 (modelList (ui_model ?a)) = Some (row_of (new_MountInfo 3))"
    by (simp add: ApplicationUI_def isRunningTimerTimeout_def setIsRunning_def setIsInstalled_def Let_def
        mounts_value_write mlist_ok_def MountListModel_def new_MountInfo_def row_of_def mountinfo.defs)
  have "NEWLINE \<notin> set (W ''STATUS 00'')" by (simp add: W_def)
  from statuses_shown [OF sample_qt_ok _ this row, of
      "new_client\<lparr>inbuf := status_line sample_qt 3 True @ W ''STATUS 00''\<rparr>" "[(3, True)]"]
  show ?thesis by (auto simp: shown_status_def new_client_def)
qed

subsection \<open>From an edit to the workers\<close>

definition receive :: "sock \<Rightarrow> wstr \<Rightarrow> server \<Rightarrow> server" where
  "receive sk text s = s\<lparr>buffers := (buffers s)(sk := buffers s sk @ text)\<rparr>"

lemma reload_understood:
  assumes "buffers s sk = []"
  shows "onReadyRead Q sk (receive sk (W ''reload'' @ [NEWLINE]) s) = emit_signal reloadMounts_sig s"
proof -
  have "NEWLINE \<notin> set (W ''reload'')" by (simp add: W_def)
  then have "onReadyRead Q sk (receive sk (W ''reload'' @ [NEWLINE]) s) =
      run_command Q sk (W ''reload'' @ [NEWLINE]) (s\<lparr>buffers := (buffers s)(sk := [])\<rparr>)"
    using onReadyRead_line [of "receive sk (W ''reload'' @ [NEWLINE]) s" sk "W ''reload''" "[]" Q] assms
    by (simp add: receive_def)
  also have "s\<lparr>buffers := (buffers s)(sk := [])\<rparr> = s" using assms by (simp add: fun_upd_idem)
  finally show ?thesis by (simp add: run_command_def)
qed

lemma saved_file_ok:
  assumes "model_reachable m" "mlist_ok (getModelList m)"
  shows "file_ok (Some (write_mlist (getModelList m)))"
    "mounts_value (Some (write_mlist (getModelList m))) = getModelList m"
  using model_reachable_rows [OF assms(1)] mounts_value_write [OF assms(2)]
  by (simp_all add: file_ok_def getModelList_def rows_ok_def o_def)

lemma reload_in_step:
  assumes "daemon_ok d" "settings d = Some (write_mlist L)" "mlist_ok L" "distinct (map uuid L)"
  shows "(\<forall>i \<in> set L. \<exists>e. entry_of (uuid i) (mounts (reloadMounts d)) = Some e \<and>
      same_info i (snd e) \<and> (snd e = i \<or> entry_of (uuid i) (mounts d) = Some e)) \<and>
    (\<forall>u. u \<notin> uuid ` set L \<longrightarrow> entry_of u (mounts (reloadMounts d)) = None)"
proof -
  have v: "mounts_value (settings d) = L" using assms(2,3) by (simp add: mounts_value_write)
  note core = reload_core [OF assms(1) v [symmetric] assms(4)]
  have "\<exists>e. entry_of (uuid i) (mounts (reloadMounts d)) = Some e \<and>
      same_info i (snd e) \<and> (snd e = i \<or> entry_of (uuid i) (mounts d) = Some e)"
    if "i \<in> set L" for i
  proof -
    obtain e where e: "look (reloadMounts d) (uuid i) = Some e" "dm.synced d i (look d (uuid i)) e"
      using core [THEN conjunct2, THEN conjunct2, rule_format, OF \<open>i \<in> set L\<close>] by blast
    have "same_info i (snd e)"
      using e(2) by (auto simp: dm.synced_def differ_def split: option.splits if_splits)
    moreover have "snd e = i \<or> look d (uuid i) = Some e"
      using e(2) by (auto simp: dm.synced_def split: option.splits if_splits)
    ultimately show ?thesis using e(1) unfolding look_def by blast
  qed
  moreover have "entry_of u (mounts (reloadMounts d)) = None" if "u \<notin> uuid ` set L" for u
    using core [THEN conjunct2, THEN conjunct1, rule_format, OF that] unfolding look_def .
  ultimately show ?thesis by blast
qed

text \<open>
  C28: An edit reaches the workers. When the controller is connected, nothing unread is in the server's
  buffer for it, and its list has changed, what it writes to the socket is understood by the server as
  the request to reload, and the daemon then has exactly one worker for each mount of the controller's
  list and no other: one created with the settings shown there, or the worker there was, kept because
  its settings compare equal. The comparison does not see \<open>debug\<close>, \<open>cerr\<close> and \<open>singlethreaded\<close>; a mount
  edited in these alone keeps its old worker.
\<close>

theorem edit_reaches_workers:
  assumes "model_reachable (ui_model a)" and "mlist_ok (getModelList (ui_model a))"
    and "ui_sock a = Some c" and "connected c" and "buffers sv sk = []" and "daemon_ok d"
    and "a' = onModelModified a"
    and "sv' = onReadyRead Q sk (receive sk (hd (written (the (ui_sock a')))) sv)"
    and "d' = deliver E (hd (signals sv')) (d\<lparr>settings := ui_file a'\<rparr>)"
  shows "signals sv' = reloadMounts_sig # signals sv \<and>
    (\<forall>i \<in> set (getModelList (ui_model a)).
       \<exists>e. entry_of (uuid i) (mounts d') = Some e \<and> same_info i (snd e) \<and>
         (snd e = i \<or> entry_of (uuid i) (mounts d) = Some e)) \<and>
    (\<forall>u. u \<notin> uuid ` set (getModelList (ui_model a)) \<longrightarrow> entry_of u (mounts d') = None)"
proof -
  have "hd (written (the (ui_sock a'))) = W ''reload'' @ [NEWLINE]"
    using assms(3,4) by (simp add: assms(7) onModelModified_def sendReload_def write_socket_def)
  then have sv': "sv' = emit_signal reloadMounts_sig sv"
    using reload_understood [OF assms(5)] by (simp add: assms(8))
  have d': "d' = reloadMounts (d\<lparr>settings := Some (write_mlist (getModelList (ui_model a)))\<rparr>)"
    by (simp add: assms(9) sv' emit_signal_def assms(7) onModelModified_def)
  have "distinct (map uuid (getModelList (ui_model a)))"
    using model_reachable_rows [OF assms(1)] by (simp add: getModelList_def rows_ok_def o_def)
  then show ?thesis
    using reload_in_step [of "d\<lparr>settings := Some (write_mlist (getModelList (ui_model a)))\<rparr>"
        "getModelList (ui_model a)"] assms(2,6)
    by (simp add: d' sv' emit_signal_def)
qed

text \<open>An edit that the comparison does not see: the worker, and the settings the daemon has for it, stay.\<close>

theorem unseen_edit_keeps_worker:
  assumes "daemon_ok d" and "distinct (map uuid (mounts_value (settings d)))"
    and "i\<lparr>debug := b1, cerr := b2, singlethreaded := b3\<rparr> \<in> set (mounts_value (settings d))"
    and "entry_of (uuid i) (mounts d) = Some (p, i)"
  shows "entry_of (uuid i) (mounts (reloadMounts d)) = Some (p, i)"
proof -
  let ?i = "i\<lparr>debug := b1, cerr := b2, singlethreaded := b3\<rparr>"
  have "\<not> differ ?i i" by (simp add: differ_def same_info_def)
  moreover obtain e where "look (reloadMounts d) (uuid ?i) = Some e" "dm.synced d ?i (look d (uuid ?i)) e"
    using reload_core [OF assms(1) refl assms(2)] assms(3) by blast
  ultimately show ?thesis using assms(4) by (simp add: look_def dm.synced_def)
qed

definition sample_app :: app where
  "sample_app = \<lparr>ui_model = MountListModel [sample_info1, sample_info2], ui_file = None,
     ui_sock = Some (Client_start True), ui_isRunning = True, ui_isInstalled = True\<rparr>"

theorem edit_reaches_workers_witness:
  "\<exists>e. entry_of 1 (mounts (deliver sample_env
      (hd (signals (onReadyRead sample_qt 4 (receive 4
         (hd (written (the (ui_sock (onModelModified sample_app))))) new_server))))
      (sample_daemon\<lparr>settings := ui_file (onModelModified sample_app)\<rparr>))) = Some e \<and>
    same_info sample_info1 (snd e)"
proof -
  have L: "getModelList (ui_model sample_app) = [sample_info1, sample_info2]"
    by (simp add: sample_app_def getModelList_def MountListModel_def)
  have u: "uuid sample_info1 = 1" "uuid sample_info2 = 2"
    by (simp_all add: sample_info1_def sample_info2_def)
  have "model_reachable (ui_model sample_app)"
    unfolding sample_app_def by (simp, rule model_reachable.opened) (simp add: u)
  moreover have "mlist_ok (getModelList (ui_model sample_app))" by (simp add: L mlist_ok_def)
  moreover have "ui_sock sample_app = Some (Client_start True)" "connected (Client_start True)"
    "buffers new_server 4 = []"
    by (simp_all add: sample_app_def Client_start_def connectToServer_def write_socket_def new_server_def)
  moreover have "sample_info1 \<in> set (getModelList (ui_model sample_app))" by (simp add: L)
  ultimately show ?thesis
    using edit_reaches_workers [OF _ _ _ _ _ sample_daemon_ok(1) refl refl refl, of sample_app
        "Client_start True" new_server 4 sample_qt sample_env] u(1) by metis
qed

subsection \<open>Stopping a mount\<close>

lemma started_created: "trace_ok es \<Longrightarrow> StartAsked p \<in> set es \<Longrightarrow> p \<in> created es"
  by (induction es rule: trace_ok.induct) auto

lemma reload_starts_nothing: "start_asked (reloadMounts s) p \<longleftrightarrow> start_asked s p"
proof -
  have "start_asked (fold f xs t) p \<longleftrightarrow> start_asked t p"
    if "\<And>i t. start_asked (f i t) p \<longleftrightarrow> start_asked t p"
    for f :: "mountinfo \<Rightarrow> daemon \<Rightarrow> daemon" and xs t
    using that by (induction xs arbitrary: t) simp_all
  moreover have "start_asked (remove_info i t) p \<longleftrightarrow> start_asked t p"
    "start_asked (add_info i t) p \<longleftrightarrow> start_asked t p"
    "start_asked (modify_info i t) p \<longleftrightarrow> start_asked t p" for i t
    by (auto simp: start_asked_def remove_info_def add_info_def modify_info_def new_process_def Let_def
        split: option.split)
  ultimately show ?thesis
    by (simp add: reloadMounts_def mountAll_def start_asked_def Let_def split: prod.split)
qed

lemma replaced_worker:
  assumes "daemon_ok d" "distinct (map uuid (mounts_value (settings d)))"
    and "i \<in> set (mounts_value (settings d))" "entry_of (uuid i) (mounts d) = Some (p, old)" "differ i old"
  obtains q where "entry_of (uuid i) (mounts (reloadMounts d)) = Some (q, i)" "next_pid d \<le> q"
    "TerminateAsked p \<in> set (events (reloadMounts d))"
proof -
  note core = reload_core [OF assms(1) refl assms(2), unfolded look_def dm.synced_def new_entry_def]
  have old: "(p, old) \<in> set (mounts d)" "p < next_pid d"
    using entry_of_Some [OF assms(4)] assms(1) by (force simp: daemon_ok_def)+
  obtain q where q: "entry_of (uuid i) (mounts (reloadMounts d)) = Some (q, i)" "next_pid d \<le> q"
    using core [THEN conjunct2, THEN conjunct2, rule_format, OF assms(3)] assms(4,5) by auto
  have "p \<notin> fst ` set (mounts (reloadMounts d))"
  proof
    assume "p \<in> fst ` set (mounts (reloadMounts d))"
    then obtain m where m: "(p, m) \<in> set (mounts (reloadMounts d))" by auto
    then have e: "entry_of (uuid m) (mounts (reloadMounts d)) = Some (p, m)"
      using core entry_of_mem [of "mounts (reloadMounts d)" "(p, m)"] by (simp add: daemon_ok_def)
    then have "uuid m \<in> uuid ` set (mounts_value (settings d))"
      using core by fastforce
    then obtain j where j: "j \<in> set (mounts_value (settings d))" "uuid j = uuid m" by auto
    have "entry_of (uuid m) (mounts d) = Some (p, m)"
      using core [THEN conjunct2, THEN conjunct2, rule_format, OF j(1)] e j(2) old(2)
      by (auto split: option.splits if_splits)
    then have "(p, m) \<in> set (mounts d)" by (rule entry_of_Some [THEN conjunct1])
    then have "m = old"
      using old(1) assms(1) by (auto simp: daemon_ok_def intro: eq_key_imp_eq_value)
    then have "uuid m = uuid i" using entry_of_Some [OF assms(4)] by simp
    then show False using e q old(2) by simp
  qed
  then have "TerminateAsked p \<in> set (events (reloadMounts d))"
    using reload_disturbs [OF assms(1)] old by (force simp: disturbs_def asked_def pids_def)
  then show ?thesis using that q by blast
qed

lemma mount_loop_only:
  "daemon_ok s \<Longrightarrow> set ms \<subseteq> set (mounts s) \<Longrightarrow>
    start_asked (run_to_end E (MountAllLoop ms) s) p \<Longrightarrow>
    start_asked s p \<or> (\<exists>m. (p, m) \<in> set ms \<and> enabled m)"
proof (induction ms arbitrary: s)
  case Nil
  then show ?case by (simp add: run_to_end_simps start_asked_def)
next
  case (Cons e ms)
  let ?b = "dir_exists E (events s) (RootDirectory (snd e)) \<and> enabled (snd e)"
  let ?t = "if ?b then mount_worker E (uuid (snd e)) s else s"
  have "daemon_ok ?t" "set ms \<subseteq> set (mounts ?t)"
    using Cons.prems(1,2) by (simp_all add: mount_frame)
  moreover have "start_asked (run_to_end E (MountAllLoop ms) ?t) p"
    using Cons.prems(3) by (simp only: run_to_end_simps)
  ultimately have "start_asked ?t p \<or> (\<exists>m. (p, m) \<in> set ms \<and> enabled m)" by (rule Cons.IH)
  moreover have "start_asked ?t p \<Longrightarrow> start_asked s p \<or> ?b \<and> p = fst e"
    using Cons.prems(1,2) start_asked_mount [of s e E p] by (cases ?b) auto
  ultimately show ?case by (cases e) auto
qed

lemma disabled_worker_stays:
  assumes "daemon_ok d" and "entry_of u (mounts d) = Some (q, i)" and "\<not> enabled i" and "\<not> start_asked d q"
  shows "StartAsked q \<notin> set (events (run_to_end E MountAllQueued d))"
proof -
  have "(q, j) \<in> set (mounts d) \<Longrightarrow> j = i" for j
    using entry_of_Some [OF assms(2)] assms(1) by (auto simp: daemon_ok_def intro: eq_key_imp_eq_value)
  then show ?thesis
    using mount_loop_only [of "d\<lparr>mountAllrunning := True\<rparr>" "mounts d" E q] assms
    by (auto simp: run_to_end_simps start_asked_def)
qed

lemma new_worker_unstarted:
  assumes "traced d" and "next_pid d \<le> q" shows "\<not> start_asked (reloadMounts (d\<lparr>settings := f\<rparr>)) q"
proof
  assume "start_asked (reloadMounts (d\<lparr>settings := f\<rparr>)) q"
  then have "start_asked (d\<lparr>settings := f\<rparr>) q" by (simp only: reload_starts_nothing)
  then have "q < next_pid d"
    using assms(1) started_created [of "events d" q] by (auto simp: traced_def start_asked_def)
  with assms(2) show False by simp
qed

lemma reload_tasks: "tasks (reloadMounts s) = tasks s @ [MountAllQueued]"
proof -
  have "tasks (fold f xs t) = tasks t" if "\<And>i t. tasks (f i t) = tasks t"
    for f :: "mountinfo \<Rightarrow> daemon \<Rightarrow> daemon" and xs t
    using that by (induction xs arbitrary: t) simp_all
  moreover have "tasks (remove_info i t) = tasks t" "tasks (add_info i t) = tasks t"
    "tasks (modify_info i t) = tasks t" for i t
    by (simp_all add: remove_info_def add_info_def modify_info_def new_process_def Let_def split: option.split)
  ultimately show ?thesis by (simp add: reloadMounts_def mountAll_def Let_def split: prod.split)
qed

text \<open>
  C29: Stopping a mount in the controller stops its worker, when no background loop of the daemon is in
  flight. When the daemon is in step with the list and an enabled mount is stopped, the list saved, and
  the daemon reloaded and the loop over the mounts that this queues, then the only one, run to its end,
  the old worker has been asked to stop, the mount has a new worker, and that one has not been started.
\<close>

theorem stop_stops_worker:
  assumes "model_reachable m" and "mlist_ok (getModelList (snd (stop_mount u m)))"
    and "find_row u (modelList m) = Some r" and "enabled r"
    and "daemon_ok d" and "traced d" and "tasks d = []"
    and "entry_of u (mounts d) = Some (p, old)" and "same_info (row_info r) old"
    and "d1 = reloadMounts (d\<lparr>settings := Some (write_mlist (getModelList (snd (stop_mount u m))))\<rparr>)"
    and "d2 = run_to_end E MountAllQueued d1"
  shows "TerminateAsked p \<in> set (events d1) \<and> tasks d1 = [MountAllQueued] \<and>
    (\<exists>q i. entry_of u (mounts d1) = Some (q, i) \<and> q \<noteq> p \<and> StartAsked q \<notin> set (events d2))"
proof -
  let ?m = "snd (stop_mount u m)" and ?i = "row_info (r\<lparr>enabled := False\<rparr>)"
  let ?d = "d\<lparr>settings := Some (write_mlist (getModelList ?m))\<rparr>"
  have r: "uuid r = u" "r \<in> set (modelList m)" using find_row_Some [OF assms(3)] by simp_all
  then have "has_row u (modelList m)" by (auto simp: has_row_iff)
  then have "find_row u (modelList ?m) = Some (r\<lparr>enabled := False\<rparr>)"
    using assms(3) by (simp add: stop_mount_def find_row_update)
  then have i: "?i \<in> set (getModelList ?m)"
    using find_row_Some by (fastforce simp: getModelList_def)
  have "model_reachable ?m" using assms(1) model_step.intros(8) by (rule model_reachable.changed)
  then have L: "mounts_value (settings ?d) = getModelList ?m" "distinct (map uuid (getModelList ?m))"
    using saved_file_ok [of ?m] assms(2) by (simp_all add: file_ok_def)
  have ui: "uuid ?i = u" using r(1) by (simp add: mountinfo.defs)
  have "enabled old" using assms(4,9) by (simp add: same_info_def mountinfo.defs)
  then have "differ ?i old" by (simp add: differ_def same_info_def mountinfo.defs)
  moreover have "daemon_ok ?d" "distinct (map uuid (mounts_value (settings ?d)))"
    "?i \<in> set (mounts_value (settings ?d))" "entry_of (uuid ?i) (mounts ?d) = Some (p, old)"
    using assms(5,8) i ui by (simp_all only: L daemon_ok_update) simp_all
  ultimately obtain q where "entry_of (uuid ?i) (mounts (reloadMounts ?d)) = Some (q, ?i)"
    "next_pid ?d \<le> q" "TerminateAsked p \<in> set (events (reloadMounts ?d))"
    by (metis replaced_worker)
  then have q: "entry_of u (mounts d1) = Some (q, ?i)" "next_pid d \<le> q"
    "TerminateAsked p \<in> set (events d1)"
    by (simp_all only: assms(10) ui) simp_all
  have d1: "daemon_ok d1"
    using reload_core [of ?d, OF _ refl] assms(5) L by (simp add: assms(10))
  have "p < next_pid d" using entry_of_Some [OF assms(8)] assms(5) by (force simp: daemon_ok_def)
  moreover have "\<not> enabled ?i" by (simp add: mountinfo.defs)
  from disabled_worker_stays [OF d1 q(1) this]
  have "StartAsked q \<notin> set (events d2)"
    using new_worker_unstarted [OF assms(6) q(2)] by (simp add: assms(10,11))
  moreover have "tasks d1 = [MountAllQueued]" using assms(7) by (simp add: assms(10) reload_tasks)
  ultimately show ?thesis using q by force
qed

text \<open>A service with its two workers.\<close>

definition running_daemon :: daemon where
  "running_daemon = (new_daemon None)\<lparr>mounts := [(0, sample_info1), (1, sample_info2)],
     next_pid := 2, events := [StartAsked 0, Created 1 2, Created 0 1]\<rparr>"

theorem stop_stops_worker_witness:
  "TerminateAsked 0 \<in> set (events (reloadMounts (running_daemon\<lparr>settings :=
      Some (write_mlist (getModelList (snd (stop_mount 1 (MountListModel [sample_info1, sample_info2])))))\<rparr>)))"
proof -
  let ?m = "MountListModel [sample_info1, sample_info2]"
  have u: "uuid sample_info1 = 1" "uuid sample_info2 = 2" "enabled sample_info1"
    by (simp_all add: sample_info1_def sample_info2_def new_MountInfo_def)
  have "model_reachable ?m" by (rule model_reachable.opened) (simp add: u)
  moreover have "mlist_ok (getModelList (snd (stop_mount 1 ?m)))"
    by (simp add: stop_mount_def getModelList_def MountListModel_def has_row_def mlist_ok_def u)
  moreover have "find_row 1 (modelList ?m) = Some (row_of sample_info1)"
    by (simp add: MountListModel_def u)
  moreover have "enabled (row_of sample_info1)"
    using u(3) by (simp add: row_of_def mountinfo.defs)
  moreover have "daemon_ok running_daemon" "traced running_daemon"
    "entry_of 1 (mounts running_daemon) = Some (0, sample_info1)"
    by (auto simp: running_daemon_def new_daemon_def daemon_ok_def traced_def pids_ok_def pids_def u)
  moreover have "tasks running_daemon = []" by (simp add: running_daemon_def new_daemon_def)
  moreover have "same_info (row_info (row_of sample_info1)) sample_info1" by simp
  ultimately show ?thesis
    using stop_stops_worker [where E = sample_env, OF _ _ _ _ _ _ _ _ _ refl refl] by simp
qed

text \<open>
  A loop in flight undoes it. The loops run over a copy of the list, taken before the reload, and start
  by identifier: what they start is the process now listed under it. There is a run in which the loop of
  the start of the service, with the mount enabled in its copy, starts the new worker of the mount that
  has been disabled and reloaded meanwhile.
\<close>

lemma stale_turn_starts:
  assumes "entry_of (uuid old) (mounts d) = Some (q, i)" and "enabled old"
    and "dir_exists E (events d) (RootDirectory old)"
  shows "StartAsked q \<in> set (events (snd (run_task E (MountAllLoop ((p, old) # ms)) d)))"
  using assms by (simp add: mount_worker_def raise_priority_def Let_def)

theorem stale_loop_starts_disabled:
  "\<exists>s q i. daemon_reachable sample_env s \<and> entry_of 1 (mounts s) = Some (q, i) \<and> \<not> enabled i \<and>
    StartAsked q \<in> set (events s)"
proof -
  let ?i = sample_info1 and ?off = "sample_info1\<lparr>enabled := False\<rparr>"
  let ?f = "Some (write_mlist [?i])" and ?g = "Some (write_mlist [?off])"
  have i: "uuid ?i = 1" "enabled ?i" "RootDirectory ?i = W ''C''"
    by (simp_all add: sample_info1_def new_MountInfo_def)
  have vals: "mounts_value ?f = [?i]" "mounts_value ?g = [?off]"
    by (simp_all add: mounts_value_write mlist_ok_def sample_info1_def new_MountInfo_def)
  define s0 where "s0 = Daemon_start ?f"
  define s1 where "s1 = s0\<lparr>mountAllrunning := True, tasks := [MountAllLoop [(0, ?i)]]\<rparr>"
  define s2 where "s2 = s1\<lparr>settings := ?g\<rparr>"
  define s3 where "s3 = reloadMounts s2"
  define s4 where "s4 = (mount_worker sample_env 1 s3)\<lparr>tasks := [MountAllLoop [], MountAllQueued]\<rparr>"
  have s0: "mounts s0 = [(0, ?i)]" "tasks s0 = [MountAllQueued]"
    by (simp_all add: s0_def Daemon_start_def reloadMounts_def new_daemon_def vals add_info_def
        new_process_def mountAll_def log_event_def Let_def)
  have "entry_of 1 (mounts s2) = Some (0, ?i)" by (simp add: s2_def s1_def s0 i)
  moreover have "differ ?off ?i" using i by (simp add: differ_def same_info_def)
  ultimately have "mounts s3 = [(next_pid s2, ?off)]"
    by (simp add: s3_def reloadMounts_def s2_def s1_def s0 vals i modify_info_def new_process_def
        mountAll_def Let_def)
  then have entry: "entry_of 1 (mounts s3) = Some (next_pid s2, ?off)" by (simp add: i)
  have tasks: "tasks s3 = [MountAllLoop [(0, ?i)], MountAllQueued]"
    by (simp add: s3_def reload_tasks s2_def s1_def)
  have "daemon_reachable sample_env s0"
    unfolding s0_def by (rule daemon_reachable.started) (simp add: file_ok_def vals)
  moreover have "daemon_step sample_env s0 s1"
    using daemon_step.background [of s0 "[]" MountAllQueued "[]" sample_env] s0 by (simp add: s1_def)
  moreover have "daemon_step sample_env s1 s2"
    unfolding s2_def by (rule daemon_step.saved) (simp add: file_ok_def vals)
  moreover have "daemon_step sample_env s2 s3"
    using daemon_step.signal [of sample_env s2 reloadMounts_sig] by (simp add: s3_def)
  moreover have "daemon_step sample_env s3 s4"
    using daemon_step.background [of s3 "[]" "MountAllLoop [(0, ?i)]" "[MountAllQueued]" sample_env] tasks i
    by (simp add: s4_def sample_env_def)
  ultimately have "daemon_reachable sample_env s4" by (metis daemon_reachable.stepped)
  moreover have "entry_of 1 (mounts s4) = Some (next_pid s2, ?off)"
    using entry by (simp add: s4_def mount_frame)
  moreover have "StartAsked (next_pid s2) \<in> set (events s4)"
    using entry by (simp add: s4_def mount_worker_def raise_priority_def Let_def)
  ultimately show ?thesis by (intro exI [of _ s4] exI [of _ "next_pid s2"] exI [of _ ?off]) simp
qed

end
