(* ===== verification/Service.thy ===== *)
theory Service
  imports DaemonTrace
begin

text \<open>
  The Windows service around the daemon (seamless_smb_service/seamless_smb_service.cpp): where the
  settings file is, starting and stopping, and what the destructor of the daemon does to the workers.
  Time is counted where the code bounds it: the destructor gives each worker two seconds, the
  service gives the daemon's thread three. \<open>Aborted\<close> is the abort of the process (\<open>qFatal\<close>), which Qt
  also makes when a running thread is deleted; a start without a settings location is \<open>None\<close>.
\<close>

subsection \<open>The settings file\<close>

text \<open>The first standard location below ProgramData; the daemon gives up without one, the controller not.\<close>

definition config_path :: "wstr list \<Rightarrow> wstr" where
  "config_path plist =
     (case find (\<lambda>p. sublist (W ''ProgramData'') p) plist of None \<Rightarrow> [] | Some p \<Rightarrow> p)"

definition Daemon_settings :: "wstr list \<Rightarrow> wstr option" where
  "Daemon_settings plist =
     (let path = config_path plist in if path = [] then None else Some (path @ W ''/mounts.ini''))"

definition ApplicationUI_settings :: "wstr list \<Rightarrow> wstr" where
  "ApplicationUI_settings plist = config_path plist @ W ''/mounts.ini''"

text \<open>Service and controller use one file, whenever the service comes up at all.\<close>

lemma same_settings_file:
  "Daemon_settings plist = Some f \<Longrightarrow> ApplicationUI_settings plist = f"
  by (auto simp: Daemon_settings_def ApplicationUI_settings_def Let_def split: if_splits)

lemma settings_below_ProgramData:
  "Daemon_settings plist = Some f \<Longrightarrow> sublist (W ''ProgramData'') f"
  by (auto simp: Daemon_settings_def config_path_def Let_def find_Some_iff sublist_appendI
      split: if_splits option.splits intro: sublist_order.order.trans [OF _ sublist_append_rightI])

subsection \<open>Starting and stopping\<close>

record service =
  sv_daemon :: "daemon option"
  sv_thread :: bool

definition new_service :: service where
  "new_service = \<lparr>sv_daemon = None, sv_thread = False\<rparr>"

definition service_start ::
  "wstr list \<Rightarrow> (wstr \<Rightarrow> qitem list option) \<Rightarrow> service \<Rightarrow> service option" where
  "service_start plist files s =
     (if sv_daemon s = None \<and> \<not> sv_thread s then
        (case Daemon_settings plist of
           None \<Rightarrow> None
         | Some f \<Rightarrow> Some (s\<lparr>sv_daemon := Some (Daemon_start (files f)), sv_thread := True\<rparr>))
      else Some s)"

text \<open>The milliseconds the destructor has waited in vain for workers to finish.\<close>

fun wait_time :: "daemon_event list \<Rightarrow> nat" where
  "wait_time [] = 0"
| "wait_time (e # es) = (case e of Waited p done \<Rightarrow> if done then 0 else 2000 | _ \<Rightarrow> 0) + wait_time es"

text \<open>
  The daemon is deleted in its own thread; \<open>elapsed\<close> is the time in milliseconds its destructor takes,
  at least that of the vain waits.
\<close>

definition service_stop ::
  "daemon_env \<Rightarrow> shutdown \<Rightarrow> nat \<Rightarrow> service \<Rightarrow> (service \<times> daemon option) outcome" where
  "service_stop E sh elapsed s =
     (case sv_daemon s of
        None \<Rightarrow> Ret (s, None)
      | Some d \<Rightarrow>
          (if \<not> sv_thread s then Ret (s, None)
           else
             (case destroy_daemon E sh d of
                Fault e \<Rightarrow> Fault e
              | Ret d' \<Rightarrow>
                  (if 3000 < elapsed then Fault Aborted
                   else Ret (s\<lparr>sv_daemon := None, sv_thread := False\<rparr>, Some d')))))"

lemma start_twice:
  "service_start plist files s = Some s' \<Longrightarrow> service_start plist' files' s' = Some s'"
  by (auto simp: service_start_def split: if_splits option.splits)

lemma start_reachable:
  "service_start plist files new_service = Some s \<Longrightarrow> (\<And>f. file_ok (files f)) \<Longrightarrow>
    \<exists>d. sv_daemon s = Some d \<and> daemon_reachable E d"
  using daemon_reachable.started [of _ E]
  by (auto simp: service_start_def new_service_def split: option.splits)

subsection \<open>The end of the workers\<close>

lemma fold_terminate:
  "events (fold (\<lambda>(p, m). log_event (TerminateAsked p)) ms s) =
     List.rev (map (\<lambda>e. TerminateAsked (fst e)) ms) @ events s"
  "mounts (fold (\<lambda>(p, m). log_event (TerminateAsked p)) ms s) = mounts s"
  by (induction ms arbitrary: s) (auto simp: log_event_def)

lemma unmountAll_events:
  "events (unmountAll s) = List.rev (map (\<lambda>e. TerminateAsked (fst e)) (mounts s)) @ events s"
  "mounts (unmountAll s) = mounts s"
  unfolding unmountAll_def by (rule fold_terminate)+

text \<open>What the end of one process adds to the log.\<close>

definition end_events :: "daemon_env \<Rightarrow> entry \<Rightarrow> daemon_event list \<Rightarrow> daemon_event list" where
  "end_events E e es =
     (if is_running E es (fst e) then
        (let done = finishes E es (fst e);
             es' = (if done then [] else [KillAsked (fst e)]) @ [Waited (fst e) done] in
         StatusSent (uuid (snd e)) (is_running E (es' @ es) (fst e)) # es')
      else [])"

lemma end_process_events:
  "events (end_process E e s) = end_events E e (events s) @ events s"
  "mounts (end_process E e s) = mounts s"
  by (auto simp: end_process_def end_events_def log_event_def Let_def split: prod.split)

lemma fold_end_process:
  "\<exists>rest. events (fold (end_process E) ms s) = rest @ events s \<and>
    (\<forall>e \<in> set ms. \<exists>later earlier. rest = later @ end_events E e (earlier @ events s) @ earlier) \<and>
    (\<forall>p. StartAsked p \<notin> set rest)"
proof (induction ms arbitrary: s)
  case (Cons x ms)
  obtain rest where rest: "events (fold (end_process E) ms (end_process E x s)) =
      rest @ events (end_process E x s)"
    "\<forall>e \<in> set ms. \<exists>later earlier.
       rest = later @ end_events E e (earlier @ events (end_process E x s)) @ earlier"
    "\<forall>p. StartAsked p \<notin> set rest"
    using Cons.IH by blast
  let ?x = "end_events E x (events s)"
  have "\<exists>later earlier. rest @ ?x = later @ end_events E e (earlier @ events s) @ earlier"
    if "e \<in> set (x # ms)" for e
  proof (cases "e = x")
    case True
    then show ?thesis by (intro exI [of _ rest] exI [of _ "[]"]) simp
  next
    case False
    then have "e \<in> set ms" using \<open>e \<in> set (x # ms)\<close> by simp
    then obtain later earlier where
      "rest = later @ end_events E e (earlier @ ?x @ events s) @ earlier"
      using rest(2) unfolding end_process_events by blast
    then show ?thesis by (intro exI [of _ later] exI [of _ "earlier @ ?x"]) simp
  qed
  moreover have "StartAsked p \<notin> set ?x" for p by (simp add: end_events_def Let_def)
  ultimately show ?case
    using rest(1,3) by (intro exI [of _ "rest @ ?x"]) (simp add: end_process_events)
qed simp

lemma unmountAll_fold_events:
  fixes s :: daemon
  defines "all_asked \<equiv> List.rev (map (\<lambda>e. TerminateAsked (fst e)) (mounts s))"
  obtains rest where
    "events (fold (end_process E) (mounts s) (unmountAll s)) = rest @ all_asked @ events s"
    "\<forall>e \<in> set (mounts s). \<exists>later earlier.
       rest = later @ end_events E e (earlier @ all_asked @ events s) @ earlier"
    "\<forall>p. StartAsked p \<notin> set (rest @ all_asked)"
  using fold_end_process [of E "mounts s" "unmountAll s"] by (auto simp: unmountAll_events all_asked_def)

text \<open>
  What the deliveries of \<open>processEvents\<close> may do: every process started is listed or was released after
  that, every process listed before is still listed or was released, and something is started only
  when that \<open>may\<close> be.
\<close>

definition accounted :: "bool \<Rightarrow> daemon \<Rightarrow> daemon \<Rightarrow> bool" where
  "accounted may s0 s \<longleftrightarrow> pids_ok s \<and> (\<exists>new. events s = new @ events s0 \<and>
     (\<forall>q l e. new = l @ StartAsked q # e \<longrightarrow> q \<in> pids s \<or> Released q \<in> set l) \<and>
     (\<forall>p \<in> pids s0. p \<in> pids s \<or> Released p \<in> set new) \<and>
     (\<forall>q. StartAsked q \<in> set new \<longrightarrow> may))"

lemma pids_log [simp]:
  "pids (log_event e s) = pids s" "pids_ok (log_event e s) \<longleftrightarrow> pids_ok s"
  "pids (s\<lparr>tasks := ts\<rparr>) = pids s" "pids_ok (s\<lparr>tasks := ts\<rparr>) \<longleftrightarrow> pids_ok s"
  by (simp_all add: pids_def pids_ok_def)

lemma accounted_refl: "pids_ok s \<Longrightarrow> accounted may s s"
  by (simp add: accounted_def)

lemma split_start:
  assumes "new @ old = l @ StartAsked q # e" and "StartAsked q \<notin> set new"
  obtains l' where "l = new @ l'" "old = l' @ StartAsked q # e"
  using assms by (auto simp: append_eq_append_conv2 append_eq_Cons_conv Cons_eq_append_conv)

lemma split_start_left:
  assumes "new @ old = l @ StartAsked q # e" and "StartAsked q \<notin> set old"
  obtains e' where "new = l @ StartAsked q # e'"
  using assms by (auto simp: append_eq_append_conv2 append_eq_Cons_conv Cons_eq_append_conv)

lemma accounted_change:
  assumes "accounted may s0 s" and "events t = new @ events s" and "\<forall>q. StartAsked q \<notin> set new"
    and "\<forall>p \<in> pids s. p \<in> pids t \<or> Released p \<in> set new" and "pids_ok t"
  shows "accounted may s0 t"
proof -
  obtain old where old: "events s = old @ events s0"
      "\<forall>q l e. old = l @ StartAsked q # e \<longrightarrow> q \<in> pids s \<or> Released q \<in> set l"
      "\<forall>p \<in> pids s0. p \<in> pids s \<or> Released p \<in> set old" "\<forall>q. StartAsked q \<in> set old \<longrightarrow> may"
    using assms(1) unfolding accounted_def by blast
  have "q \<in> pids t \<or> Released q \<in> set l" if eq: "new @ old = l @ StartAsked q # e" for q l e
  proof -
    obtain l' where l': "l = new @ l'" "old = l' @ StartAsked q # e"
      using split_start [OF eq] assms(3) by blast
    then have "q \<in> pids s \<or> Released q \<in> set l'" using old(2) by blast
    then show ?thesis using assms(4) l'(1) by auto
  qed
  moreover have "\<forall>p \<in> pids s0. p \<in> pids t \<or> Released p \<in> set (new @ old)"
    using old(3) assms(4) by auto
  moreover have "\<forall>q. StartAsked q \<in> set (new @ old) \<longrightarrow> may" using old(4) assms(3) by auto
  ultimately show ?thesis
    unfolding accounted_def using assms(2,5) old(1) by (intro conjI exI [of _ "new @ old"]) auto
qed

lemma accounted_start:
  assumes "accounted may s0 s" and "p \<in> pids s" and may
  shows "accounted may s0 (log_event (StartAsked p) s)"
proof -
  obtain old where old: "events s = old @ events s0"
      "\<forall>q l e. old = l @ StartAsked q # e \<longrightarrow> q \<in> pids s \<or> Released q \<in> set l"
      "\<forall>p \<in> pids s0. p \<in> pids s \<or> Released p \<in> set old"
    using assms(1) unfolding accounted_def by blast
  have "q \<in> pids s \<or> Released q \<in> set l" if "StartAsked p # old = l @ StartAsked q # e" for q l e
    using that old(2) assms(2) by (cases l) auto
  then show ?thesis
    unfolding accounted_def using assms old(1,3)
    by (intro conjI exI [of _ "StartAsked p # old"]) (auto simp: accounted_def)
qed

lemma accounted_quiet:
  "accounted may s0 s \<Longrightarrow> (\<And>q. e \<noteq> StartAsked q) \<Longrightarrow> accounted may s0 (log_event e s)"
  by (rule accounted_change [where new = "[e]"]) (auto simp: accounted_def)

lemma accounted_remove:
  assumes "accounted may s0 s" shows "accounted may s0 (remove_info i s)"
proof (cases "entry_of (uuid i) (mounts s)")
  case (Some e)
  have ok: "pids_ok s" using assms by (simp add: accounted_def)
  have eq: "mounts (remove_info i s) = remove_entry (uuid i) (mounts s)"
      "events (remove_info i s) = [Released (fst e), TerminateAsked (fst e)] @ events s"
    using Some by (auto simp: remove_info_def Let_def split: prod.split)
  have pids: "pids (remove_info i s) = pids s - {fst e}"
    unfolding pids_def eq(1) by (rule remove_entry_pids [OF _ Some]) (use ok in \<open>simp add: pids_ok_def\<close>)
  have "pids_ok (remove_info i s)" using disturbs_remove [OF ok] by (simp add: disturbs_def)
  then show ?thesis
    by (intro accounted_change [OF assms eq(2)]) (simp_all add: pids)
qed (simp add: remove_info_def assms)

lemma accounted_add:
  assumes "accounted may s0 s" shows "accounted may s0 (add_info i s)"
proof -
  have "pids_ok (add_info i s)"
    using disturbs_add assms by (simp add: disturbs_def accounted_def)
  then show ?thesis
    by (intro accounted_change [OF assms, where new = "[Created (next_pid s) (uuid i)]"])
      (auto simp: add_info_def new_process_def pids_def)
qed

lemma accounted_modify:
  assumes "accounted may s0 s" shows "accounted may s0 (modify_info i s)"
proof (cases "entry_of (uuid i) (mounts s)")
  case (Some e)
  have ok: "pids_ok s" using assms by (simp add: accounted_def)
  have eq: "mounts (modify_info i s) = replace_entry (uuid i) (next_pid s, i) (mounts s)"
      "events (modify_info i s) =
        [Released (fst e), Created (next_pid s) (uuid i), TerminateAsked (fst e)] @ events s"
    using Some by (auto simp: modify_info_def new_process_def Let_def split: prod.split)
  have pids: "pids (modify_info i s) = insert (next_pid s) (pids s - {fst e})"
    unfolding pids_def eq(1) using replace_entry_pids [OF _ Some, of "(next_pid s, i)"] ok
    by (simp add: pids_ok_def)
  have "pids_ok (modify_info i s)" using disturbs_modify [OF ok] by (simp add: disturbs_def)
  then show ?thesis
    by (intro accounted_change [OF assms eq(2)]) (simp_all add: pids)
qed (simp add: modify_info_def assms)

lemma accounted_fold:
  assumes "\<And>i s. accounted may s0 s \<Longrightarrow> accounted may s0 (f i s)"
  shows "accounted may s0 s \<Longrightarrow> accounted may s0 (fold f xs s)"
  by (induction xs arbitrary: s) (simp_all add: assms)

lemma accounted_tasks [simp]: "accounted may s0 (s\<lparr>tasks := ts\<rparr>) \<longleftrightarrow> accounted may s0 s"
  by (simp add: accounted_def)

lemma accounted_reload:
  assumes "accounted may s0 s" shows "accounted may s0 (reloadMounts s)"
proof -
  obtain A M where AM: "toaddModify (mounts_value (settings s)) (mounts s) = (A, M)" by fastforce
  show ?thesis
    unfolding reloadMounts_def Let_def AM prod.case mountAll_def accounted_tasks
    by (intro accounted_fold accounted_remove accounted_add accounted_modify assms)
qed

lemma accounted_deliver:
  assumes "accounted may s0 s" and "\<And>u. g = mount_sig u \<Longrightarrow> may"
  shows "accounted may s0 (deliver E g s)"
proof (cases g)
  case reloadMounts_sig
  then show ?thesis using accounted_reload [OF assms(1)] by simp
next
  case (mount_sig u)
  show ?thesis
  proof (cases "entry_of u (mounts s)")
    case (Some e)
    then have "fst e \<in> pids s" using entry_of_Some [OF Some] by (simp add: pids_def)
    then have "accounted may s0 (log_event (StartAsked (fst e)) s)"
      using assms mount_sig accounted_start by blast
    then show ?thesis
      using Some by (cases e) (simp add: mount_sig mount_worker_def raise_priority_def Let_def accounted_quiet)
  qed (simp add: mount_sig mount_worker_def assms(1))
qed (use assms(1) in \<open>simp_all add: mountAll_def\<close>)

lemma accounted_processEvents:
  assumes "\<And>u. mount_sig u \<in> set gs \<Longrightarrow> may"
  shows "processEvents E gone gs s = Ret s' \<Longrightarrow> accounted may s0 s \<Longrightarrow> accounted may s0 s'"
  using assms
proof (induction gs arbitrary: s)
  case (Cons g gs)
  have "accounted may s0 (deliver E g s)"
    by (rule accounted_deliver [OF Cons.prems(2)]) (use Cons.prems(3) in auto)
  then show ?case using Cons by (auto split: if_splits)
qed simp

lemma release_all_events:
  "events (release_all s) = List.rev (map (\<lambda>e. Released (fst e)) (mounts s)) @ events s"
  "mounts (release_all s) = []"
proof -
  have "events (fold (\<lambda>(p, m). log_event (Released p)) ms t) =
      List.rev (map (\<lambda>e. Released (fst e)) ms) @ events t" for ms t
    by (induction ms arbitrary: t) (auto simp: log_event_def)
  then show "events (release_all s) = List.rev (map (\<lambda>e. Released (fst e)) (mounts s)) @ events s"
    "mounts (release_all s) = []"
    by (simp_all add: release_all_def)
qed

lemma end_processes_pids_ok:
  "pids_ok s \<Longrightarrow> pids_ok (fold (end_process E) (mounts s) (unmountAll s))"
  "mounts (fold (end_process E) ms t) = mounts t"
proof -
  have frame: "mounts (fold (end_process E) ms t) = mounts t \<and>
      next_pid (fold (end_process E) ms t) = next_pid t" for ms t
    by (induction ms arbitrary: t) (auto simp: end_process_def Let_def log_event_def split: prod.split)
  have "next_pid (unmountAll s) = next_pid s"
  proof -
    have "next_pid (fold (\<lambda>(p, m). log_event (TerminateAsked p)) ms t) = next_pid t" for ms t
      by (induction ms arbitrary: t) auto
    then show ?thesis by (simp add: unmountAll_def)
  qed
  then show "pids_ok s \<Longrightarrow> pids_ok (fold (end_process E) (mounts s) (unmountAll s))"
    by (simp add: pids_ok_def pids_def frame unmountAll_events)
  show "mounts (fold (end_process E) ms t) = mounts t" using frame by simp
qed

text \<open>
  C34: Stopping the service ends every worker. When the destructor of the daemon returns, each worker
  listed when it began was asked to stop; at some point after that it was found in another state than
  running, or had finished within its two seconds, or was killed; and it was released (a process object
  is killed with its last reference). A process is started meanwhile only if one of the three calls of
  \<open>processEvents\<close> delivers a waiting \<open>mount\<close>, and such a process too is released after that; none is left
  in the list.
\<close>

theorem destroy_ends_workers:
  assumes "daemon_reachable E s" and "(p, m) \<in> set (mounts s)" and "destroy_daemon E sh s = Ret s'"
  shows "mounts s' = [] \<and> (\<exists>later earlier. events s' = later @ earlier @ events s \<and>
    TerminateAsked p \<in> set earlier \<and>
    (\<not> is_running E (earlier @ events s) p \<or> Waited p True \<in> set later \<or> KillAsked p \<in> set later) \<and>
    Released p \<in> set later \<and>
    (\<forall>q. StartAsked q \<in> set (later @ earlier) \<longrightarrow> (\<exists>u. mount_sig u \<in> set (delivered sh))) \<and>
    (\<forall>q after before. later @ earlier = after @ StartAsked q # before \<longrightarrow> Released q \<in> set after))"
proof -
  let ?t = "fold (end_process E) (mounts s) (unmountAll s)"
  let ?may = "\<exists>u. mount_sig u \<in> set (delivered sh)"
  obtain s1 s2 s3 where run: "processEvents E False (first_events sh) ?t = Ret s1"
      "processEvents E (server_gone sh) (second_events sh) s1 = Ret s2"
      "processEvents E (server_gone sh \<or> thread_ended sh) (third_events sh) s2 = Ret s3"
      "s' = release_all s3"
    using assms(3) by (auto simp: destroy_daemon_def Let_def unmountAll_events split: outcome.splits if_splits)
  have ok: "pids_ok s" using daemon_inv_reachable [OF assms(1)] by (simp add: daemon_inv_def traced_def)
  have "accounted ?may ?t ?t" by (rule accounted_refl, rule end_processes_pids_ok(1) [OF ok])
  then have "accounted ?may ?t s1" by (rule accounted_processEvents [OF _ run(1), rotated]) (auto simp: delivered_def)
  then have "accounted ?may ?t s2" by (rule accounted_processEvents [OF _ run(2), rotated]) (auto simp: delivered_def)
  then have "accounted ?may ?t s3" by (rule accounted_processEvents [OF _ run(3), rotated]) (auto simp: delivered_def)
  then obtain new where new: "events s3 = new @ events ?t"
      "\<forall>q l e. new = l @ StartAsked q # e \<longrightarrow> q \<in> pids s3 \<or> Released q \<in> set l"
      "\<forall>p \<in> pids ?t. p \<in> pids s3 \<or> Released p \<in> set new"
      "\<forall>q. StartAsked q \<in> set new \<longrightarrow> ?may"
    unfolding accounted_def by blast
  let ?asked = "List.rev (map (\<lambda>e. TerminateAsked (fst e)) (mounts s))"
  obtain rest where t: "events ?t = rest @ ?asked @ events s"
      "\<forall>e \<in> set (mounts s). \<exists>later earlier.
         rest = later @ end_events E e (earlier @ ?asked @ events s) @ earlier"
      "\<forall>p. StartAsked p \<notin> set (rest @ ?asked)"
    by (rule unmountAll_fold_events)
  obtain l e where le: "rest = l @ end_events E (p, m) (e @ ?asked @ events s) @ e"
    using t(2) assms(2) by blast
  let ?rel = "List.rev (map (\<lambda>e. Released (fst e)) (mounts s3))"
  let ?earlier = "e @ ?asked"
  let ?later = "?rel @ new @ l @ end_events E (p, m) (?earlier @ events s)"
  have all: "events s' = ?later @ ?earlier @ events s"
    by (simp add: run(4) release_all_events new(1) t(1) le)
  have rel: "Released q \<in> set ?rel" if "q \<in> pids s3" for q using that by (auto simp: pids_def)
  have "TerminateAsked p \<in> set ?earlier" using assms(2) by force
  moreover have "\<not> is_running E (?earlier @ events s) p \<or> Waited p True \<in> set ?later \<or> KillAsked p \<in> set ?later"
    by (auto simp: end_events_def Let_def)
  moreover have "Released p \<in> set ?later"
  proof -
    have "p \<in> pids ?t" using assms(2) by (force simp: pids_def end_processes_pids_ok(2) unmountAll_events)
    then have "p \<in> pids s3 \<or> Released p \<in> set new" using new(3) by blast
    then show ?thesis using rel [of p] by auto
  qed
  moreover have quiet: "StartAsked q \<notin> set (l @ end_events E (p, m) (?earlier @ events s) @ ?earlier)" for q
    using t(3) by (auto simp: le)
  have ?may if "StartAsked q \<in> set (?later @ ?earlier)" for q
  proof -
    have "StartAsked q \<in> set new" using that quiet [of q] by auto
    then show ?thesis using new(4) by blast
  qed
  moreover have "Released q \<in> set a" if "?later @ ?earlier = a @ StartAsked q # b" for q a b
  proof -
    have "?rel @ new @ (l @ end_events E (p, m) (?earlier @ events s) @ ?earlier) = a @ StartAsked q # b"
      using that by simp
    then obtain a' where a: "a = ?rel @ a'"
        "new @ (l @ end_events E (p, m) (?earlier @ events s) @ ?earlier) = a' @ StartAsked q # b"
      by (rule split_start) auto
    obtain b' where "new = a' @ StartAsked q # b'"
      using split_start_left [OF a(2) quiet [of q]] .
    then have "q \<in> pids s3 \<or> Released q \<in> set a'" using new(2) by blast
    then show ?thesis using rel [of q] a(1) by auto
  qed
  ultimately show ?thesis
    using all by (intro conjI exI [of _ ?later] exI [of _ ?earlier]) (simp_all add: run(4) release_all_events(2))
qed

definition two_mounts :: daemon where
  "two_mounts = Daemon_start (Some (write_mlist [sample_info1, sample_info2]))"

lemma two_mounts_reachable: "daemon_reachable E two_mounts"
  unfolding two_mounts_def
  by (rule daemon_reachable.started)
    (use sample_daemon_ok(2,3) in \<open>simp add: file_ok_def mounts_value_write mlist_ok_def\<close>)

lemma two_mounts_list: "mounts two_mounts = [(0, sample_info1), (1, sample_info2)]"
proof -
  have "mounts_value (Some (write_mlist [sample_info1, sample_info2])) = [sample_info1, sample_info2]"
    using sample_daemon_ok(2) by (simp add: sample_daemon_def new_daemon_def)
  then show ?thesis
    by (simp add: two_mounts_def Daemon_start_def reloadMounts_def new_daemon_def add_info_def
        new_process_def mountAll_def log_event_def Let_def)
qed

text \<open>The witness: a \<open>mount\<close> for which a background loop waits is delivered at the first call.\<close>

theorem destroy_ends_workers_witness:
  "\<exists>s'. destroy_daemon sample_env (quiet_shutdown\<lparr>first_events := [mount_sig 1]\<rparr>) two_mounts = Ret s' \<and>
    StartAsked 0 \<in> set (events s') \<and> mounts s' = [] \<and> Released 0 \<in> set (events s')"
proof -
  let ?sh = "quiet_shutdown\<lparr>first_events := [mount_sig 1]\<rparr>"
  have "uuid sample_info1 = 1" by (simp add: sample_info1_def new_MountInfo_def)
  then have "\<exists>s'. destroy_daemon sample_env ?sh two_mounts = Ret s' \<and> StartAsked 0 \<in> set (events s')"
    by (simp add: destroy_daemon_def quiet_shutdown_def Let_def unmountAll_events two_mounts_list
        end_process_events mount_worker_def raise_priority_def release_all_events)
  then obtain s' where s': "destroy_daemon sample_env ?sh two_mounts = Ret s'" "StartAsked 0 \<in> set (events s')"
    by blast
  have "(0, sample_info1) \<in> set (mounts two_mounts)" by (simp add: two_mounts_list)
  from destroy_ends_workers [OF two_mounts_reachable this s'(1)] s' show ?thesis by auto
qed

text \<open>
  A \<open>mount\<close> delivered after the server is gone reports to a deleted object; a server thread that does
  not end in its second aborts the service.
\<close>

theorem late_mount_uses_deleted_server:
  assumes "(p, m) \<in> set (mounts s)" and "third_events sh = [mount_sig (uuid m)]" and "thread_ended sh"
    and "first_events sh = []" and "second_events sh = []"
  shows "destroy_daemon E sh s = Fault DeletedObject"
proof -
  have "uuid m \<in> (\<lambda>e. uuid (snd e)) ` set (mounts s)" using assms(1) by (rule rev_image_eqI) simp
  then have "entry_of (uuid m) (mounts s) \<noteq> None" by (simp add: entry_of_None)
  then show ?thesis
    using assms(2-5) by (simp add: destroy_daemon_def Let_def unmountAll_events end_processes_pids_ok(2))
qed

text \<open>
  The time the service allows is too short for two workers that do not react: the thread of the
  daemon still runs when it is deleted, and the service aborts.
\<close>

lemma wait_time_count: "wait_time es = 2000 * length (filter (\<lambda>e. \<exists>p. e = Waited p False) es)"
  by (induction es) (auto split: daemon_event.splits)

theorem two_slow_workers_abort_stop:
  assumes "sv_daemon s = Some d" and "sv_thread s" and "destroy_daemon E sh d = Ret d'"
    and "events d' = new @ events d" and "wait_time new \<le> elapsed"
    and "2 \<le> length (filter (\<lambda>e. \<exists>p. e = Waited p False) new)"
  shows "service_stop E sh elapsed s = Fault Aborted"
  using assms by (simp add: service_stop_def wait_time_count)

end
