(* ===== verification/Runner.thy ===== *)
theory Runner
  imports Common CacheThread
begin

text \<open>
  The worker process of one mount (seamless_smb_service/process/dokanrunner.cpp, dokanrunner.h): it
  looks its mount up in the settings file by the identifier the daemon gave it, mounts it, saves the
  security descriptors every minute and unmounts at the end. Which drive letters are free is
  answered by the system from the calls made so far (the freeDrives library). The exit codes handed
  to the event loop are logged, newest first.
\<close>

record runner =
  filemount :: "fmount option"
  exit_codes :: "int list"
  timer_on :: bool
  shut_down :: bool

definition zero_options :: dokan_options where
  "zero_options = \<lparr>Version = 0, SingleThread = False, Options = 0, GlobalContext = 0,
     opt_MountPoint = [], opt_UNCName = [], Timeout = 0, AllocationUnitSize = 0, SectorSize = 0\<rparr>"

definition MountInfoToGlobal :: "mountinfo \<Rightarrow> globals \<times> dokan_options" where
  "MountInfoToGlobal info =
     (let g = new_Globals;
          g = Globals_setRootDirectory (RootDirectory info) g;
          g = Globals_setMountPoint (MountPoint info) g;
          g = Globals_setUNCName (UNCName info) g;
          g = Globals_setCaseSensitive (CaseSensitive info) g;
          g = Globals_setImpersonateCallerUser (ImpersonateCallerUser info) g;
          g = Globals_setVolname (volname info) g;
          g = Globals_setHasSeSecurityPrivilege (HasSeSecurityPrivilege info) g in
      (g, zero_options\<lparr>opt_MountPoint := m_MountPoint g, Options := options info,
            SingleThread := singlethreaded info\<rparr>))"

text \<open>The drive letter: the first unit of the mount point, the terminating zero for an empty one.\<close>

definition mount_letter :: "wstr \<Rightarrow> wstr" where
  "mount_letter mp = (case mp of [] \<Rightarrow> [0] | c # _ \<Rightarrow> [c])"

definition find_info :: "uuid \<Rightarrow> mlist \<Rightarrow> mountinfo option" where
  "find_info u L = find (\<lambda>i. uuid i = u) L"

definition exits :: "int \<Rightarrow> runner \<Rightarrow> runner" where
  "exits code r = r\<lparr>exit_codes := code # exit_codes r\<rparr>"

definition mount_if_free :: "dokan \<Rightarrow> (dokan_call list \<Rightarrow> wstr list) \<Rightarrow> fmount \<Rightarrow> runner \<Rightarrow> runner outcome" where
  "mount_if_free D freeDrives f r =
     (let letter = mount_letter (m_MountPoint (mount_globals f)) in
      if letter \<in> set (freeDrives (calls f)) then
        (case mount D f of
           (Fault e, _) \<Rightarrow> Fault e
         | (Ret status, f') \<Rightarrow>
             (let r = r\<lparr>filemount := Some f'\<rparr>;
                  r = (if status \<noteq> DOKAN_SUCCESS then exits 2 r else r);
                  r = (if letter \<in> set (freeDrives (calls f')) then exits 3 r else r) in
              Ret r))
      else Ret (exits 3 (r\<lparr>filemount := Some f\<rparr>)))"

text \<open>Construction, with the settings file, the identifier and the disk.\<close>

definition DokanRunner ::
  "dokan \<Rightarrow> (dokan_call list \<Rightarrow> wstr list) \<Rightarrow> qitem list option \<Rightarrow> uuid \<Rightarrow>
    (wstr \<Rightarrow> item list option) \<Rightarrow> runner outcome" where
  "DokanRunner D freeDrives f u d =
     (let r0 = \<lparr>filemount = None, exit_codes = [], timer_on = False, shut_down = False\<rparr>;
          made = (case find_info u (mounts_value f) of
                    None \<Rightarrow> Ret r0
                  | Some info \<Rightarrow>
                      (let (g, opts) = MountInfoToGlobal info in
                       case FileMount D g opts True d of
                         Fault e \<Rightarrow> Fault e
                       | Ret fm \<Rightarrow> mount_if_free D freeDrives fm r0)) in
      case made of Fault e \<Rightarrow> Fault e | Ret r \<Rightarrow> Ret (r\<lparr>timer_on := True\<rparr>))"

text \<open>\<open>if (filemount && filemount->isRunning()) filemount->unmount();\<close>\<close>

definition unmount_if_running :: "dokan \<Rightarrow> runner \<Rightarrow> runner outcome" where
  "unmount_if_running D r =
     (case filemount r of
        None \<Rightarrow> Ret r
      | Some f \<Rightarrow>
          (case bind (isRunning D) (\<lambda>b. whenM b (unmount D)) f of
             (Fault e, _) \<Rightarrow> Fault e
           | (Ret _, f') \<Rightarrow> Ret (r\<lparr>filemount := Some f'\<rparr>)))"

text \<open>
  The destructor writes the mount point to a file first, without a check. At its end the runner holds
  the last reference to the file mount, whose context holds the last one to the cache, so that the
  destructor of the cache runs too, in the state \<open>ct\<close> of the cache and its thread.
\<close>

definition destroy_runner :: "dokan \<Rightarrow> cache_run \<Rightarrow> runner \<Rightarrow> runner outcome" where
  "destroy_runner D ct r =
     (case filemount r of
        None \<Rightarrow> Fault NullPointer
      | Some _ \<Rightarrow>
          (case unmount_if_running D r of
             Fault e \<Rightarrow> Fault e
           | Ret r' \<Rightarrow>
               (case destroy_Cache ct of
                  Fault e \<Rightarrow> Fault e
                | Ret _ \<Rightarrow> Ret (r'\<lparr>shut_down := True\<rparr>))))"

definition myexit :: "dokan \<Rightarrow> int \<Rightarrow> runner \<Rightarrow> int outcome" where
  "myexit D code r =
     (case unmount_if_running D r of Fault e \<Rightarrow> Fault e | Ret _ \<Rightarrow> Ret code)"

definition onSaveSecurity :: "dokan \<Rightarrow> runner \<Rightarrow> runner outcome" where
  "onSaveSecurity D r =
     (case filemount r of
        None \<Rightarrow> Fault NullPointer
      | Some f \<Rightarrow>
          (case saveSecurity D f of
             (Fault e, _) \<Rightarrow> Fault e
           | (Ret _, f') \<Rightarrow> Ret (r\<lparr>filemount := Some f'\<rparr>)))"

subsection \<open>What a worker does\<close>

text \<open>
  A worker mounts or reports that it did not: when its mount is in the settings file and the
  worker came up without asking for its own exit, the file system is mounted, its mount point is
  the one of the settings, and its drive letter was free before.
\<close>

theorem worker_mounts_or_exits:
  assumes "DokanRunner D freeDrives f u d = Ret r"
    and "find_info u (mounts_value f) = Some info" and "exit_codes r = []"
  shows "\<exists>fm. filemount r = Some fm \<and> mounted fm \<and>
    opt_MountPoint (dokan_opts fm) = MountPoint info \<and>
    mount_letter (MountPoint info) \<in> set (freeDrives [])"
proof -
  obtain g opts where go: "MountInfoToGlobal info = (g, opts)" by (cases "MountInfoToGlobal info")
  have g: "m_MountPoint g = MountPoint info" using go by (auto simp: MountInfoToGlobal_def Let_def)
  obtain fm where fm: "FileMount D g opts True d = Ret fm"
    using assms(1,2) go by (auto simp: DokanRunner_def split: outcome.splits)
  then have init: "mount_globals fm = g" "calls fm = []" "\<not> mounted fm" "dokan_opts fm = mount_options D g opts"
    by (auto simp: FileMount_def Let_def split: option.splits prod.splits)
  let ?r0 = "\<lparr>filemount = None, exit_codes = [], timer_on = False, shut_down = False\<rparr>"
  obtain r' where r': "mount_if_free D freeDrives fm ?r0 = Ret r'" "r = r'\<lparr>timer_on := True\<rparr>"
    using assms(1,2) go fm by (auto simp: DokanRunner_def split: outcome.splits)
  then have "exit_codes r' = []" using assms(3) by simp
  then have letter: "mount_letter (MountPoint info) \<in> set (freeDrives [])"
    using r'(1) by (auto simp: mount_if_free_def init g exits_def Let_def split: if_splits)
  obtain h status where cr: "dk_create D [] = (status, h)" by (cases "dk_create D []")
  have "\<exists>fm'. filemount r' = Some fm' \<and> mounted fm' \<and> dokan_opts fm' = dokan_opts fm"
    using r'(1) letter \<open>exit_codes r' = []\<close> cr
    by (auto simp: mount_if_free_def init g exits_def Let_def mount_def bind_def gets_def log_call_def
        modify_def whenM_def return_def split: if_splits)
  then show ?thesis using letter r'(2) init(4) g by (auto simp: mount_options_def)
qed

definition sample_mount :: mountinfo where
  "sample_mount = (new_MountInfo 1)\<lparr>RootDirectory := W ''C'', MountPoint := W ''M''\<rparr>"

definition sample_drives :: "dokan_call list \<Rightarrow> wstr list" where
  "sample_drives cs = (if cs = [] then [W ''M'', W ''N''] else [W ''N''])"

lemma sample_found: "find_info 1 (mounts_value (Some (write_mlist [sample_mount]))) = Some sample_mount"
  by (subst mounts_value_write)
    (simp_all add: mlist_ok_def find_info_def sample_mount_def new_MountInfo_def)

lemma sample_runner:
  "\<exists>r. DokanRunner sample_dokan sample_drives (Some (write_mlist [sample_mount])) 1 (\<lambda>_. None) = Ret r \<and>
    exit_codes r = []"
proof -
  have W: "W ''M'' = [0x4D]" "W ''N'' = [0x4E]" by (simp_all add: W_def)
  show ?thesis
    unfolding DokanRunner_def sample_found
    by (simp add: sample_mount_def new_MountInfo_def MountInfoToGlobal_def
        Let_def FileMount_def mount_if_free_def mount_letter_def W sample_drives_def mount_def bind_def
        gets_def log_call_def modify_def whenM_def return_def exits_def sample_dokan_def new_Globals_def)
qed

theorem worker_mounts_or_exits_witness:
  "\<exists>r fm. DokanRunner sample_dokan sample_drives (Some (write_mlist [sample_mount])) 1 (\<lambda>_. None) = Ret r \<and>
    filemount r = Some fm \<and> mounted fm"
proof -
  obtain r where r: "DokanRunner sample_dokan sample_drives (Some (write_mlist [sample_mount])) 1
      (\<lambda>_. None) = Ret r" "exit_codes r = []"
    using sample_runner by blast
  then show ?thesis using worker_mounts_or_exits [OF r(1) sample_found r(2)] by blast
qed

text \<open>
  A worker whose mount is not in the settings file any more comes up without a word, with no file
  system and no exit code, and runs into a null pointer at the first tick of its timer, and also when
  it is ended before.
\<close>

theorem unknown_mount_crashes:
  assumes "u \<notin> uuid ` set (mounts_value f)"
  shows "\<exists>r. DokanRunner D freeDrives f u d = Ret r \<and> filemount r = None \<and> exit_codes r = [] \<and>
    timer_on r \<and> onSaveSecurity D r = Fault NullPointer \<and> destroy_runner D ct r = Fault NullPointer"
proof -
  have "find_info u (mounts_value f) = None"
    using assms by (auto simp: find_info_def find_None_iff)
  then show ?thesis
    by (simp add: DokanRunner_def onSaveSecurity_def destroy_runner_def)
qed

theorem unknown_mount_crashes_witness:
  "\<exists>r. DokanRunner sample_dokan sample_drives (Some (write_mlist [])) 1 (\<lambda>_. None) = Ret r \<and>
    onSaveSecurity sample_dokan r = Fault NullPointer"
  using unknown_mount_crashes [of 1 "Some (write_mlist [])" sample_dokan sample_drives "\<lambda>_. None"]
  by (auto simp: mounts_value_write mlist_ok_def)

end
