(* ===== verification/WorkerMain.thy ===== *)
theory WorkerMain
  imports Runner
begin

text \<open>
  The worker process from its command line to its end (seamless_smb_service/process/main.cpp): the
  arguments the daemon gives it, the name of its log, the hidden window whose WM_CLOSE ends it (a
  \<open>QProcess::terminate\<close> posts that message), and the event loop between construction and
  destruction of the \<open>DokanRunner\<close>. While the loop runs, the driver's requests change the nodes of the
  mount, and the thread of its cache drops the cached file. The messages, ticks, requests and
  notifications that arrive are the argument \<open>evs\<close>; the last theorem follows a worker from its start
  over any of them to the next start of a worker for its mount.
\<close>

datatype worker_event =
    Served dokan_file_info request
  | SaveTick
  | Noticed "wake list"
  | WindowMessage dword

abbreviation WM_CLOSE :: dword where "WM_CLOSE \<equiv> 0x10"

subsection \<open>Operations\<close>

text \<open>The name the log file of the worker gets: the root directory without separators.\<close>

definition worker_log_name :: "mlist \<Rightarrow> uuid \<Rightarrow> wstr" where
  "worker_log_name L u =
     (let uncName = (case find_info u L of None \<Rightarrow> [] | Some info \<Rightarrow> RootDirectory info);
          uncName = map (\<lambda>c. if c = BACKSLASH then UNDERSCORE else c) uncName in
      map (\<lambda>c. if c = SLASH then UNDERSCORE else c) uncName)"

text \<open>The window procedure: whether the loop goes on, and the runner with the exit code asked for.\<close>

definition WindowProc :: "dword \<Rightarrow> runner \<Rightarrow> bool \<times> runner" where
  "WindowProc uMsg r = (if uMsg = WM_CLOSE then (False, exits 0 r) else (True, r))"

text \<open>A request of the driver; it comes only while the file system is mounted.\<close>

definition serve ::
  "('a) secos_scheme \<Rightarrow> dokan_file_info \<Rightarrow> request \<Rightarrow> runner \<Rightarrow> ctx \<Rightarrow> (runner \<times> ctx) outcome" where
  "serve E i q r c =
     (case filemount r of
        None \<Rightarrow> Ret (r, c)
      | Some f \<Rightarrow>
          (if \<not> mounted f then Ret (r, c)
           else
             (case dispatch E q (load_info i (c\<lparr>fs := mount_nodes f\<rparr>)) of
                (Fault e, _) \<Rightarrow> Fault e
              | (Ret _, c') \<Rightarrow> Ret (r\<lparr>filemount := Some (f\<lparr>mount_nodes := fs c'\<rparr>)\<rparr>, c'))))"

fun event_loop ::
  "('a) secos_scheme \<Rightarrow> dokan \<Rightarrow> worker_event list \<Rightarrow> runner \<Rightarrow> ctx \<Rightarrow> runner outcome" where
  "event_loop E D [] r c = Ret r"
| "event_loop E D (Served i q # evs) r c =
     (case serve E i q r c of Fault e \<Rightarrow> Fault e | Ret (r', c') \<Rightarrow> event_loop E D evs r' c')"
| "event_loop E D (SaveTick # evs) r c =
     (case onSaveSecurity D r of Fault e \<Rightarrow> Fault e | Ret r' \<Rightarrow> event_loop E D evs r' c)"
| "event_loop E D (Noticed ws # evs) r c =
     event_loop E D evs r (c\<lparr>cache := MonitorDirectoryChanges ws (cache c)\<rparr>)"
| "event_loop E D (WindowMessage m # evs) r c =
     (case WindowProc m r of (goes_on, r') \<Rightarrow>
        if goes_on then event_loop E D evs r' c else Ret r')"

text \<open>
  The main function. An exit code asked for by the constructor ends the loop before anything
  else; the loop answers the code asked for last. The second argument is converted without a check
  that it is there.
\<close>

definition worker_main ::
  "('a) secos_scheme \<Rightarrow> dokan \<Rightarrow> (dokan_call list \<Rightarrow> wstr list) \<Rightarrow> (wstr \<Rightarrow> uuid) \<Rightarrow>
    (wstr \<Rightarrow> qitem list option) \<Rightarrow> (wstr \<Rightarrow> item list option) \<Rightarrow> wstr list \<Rightarrow> worker_event list \<Rightarrow>
    cache_run \<Rightarrow> (int \<times> runner option) outcome" where
  "worker_main E D freeDrives uuid_of files d argv evs ct =
     (if length argv < 2 then Ret (-1, None)
      else if length argv < 3 then Fault NullPointer
      else
        (case DokanRunner D freeDrives (files (argv ! 1)) (uuid_of (argv ! 2)) d of
           Fault e \<Rightarrow> Fault e
         | Ret r \<Rightarrow>
             (let c = new_ctx (case filemount r of None \<Rightarrow> new_Globals | Some f \<Rightarrow> mount_globals f);
                  evs = (if exit_codes r = [] then evs else []) in
              case event_loop E D evs r c of
                Fault e \<Rightarrow> Fault e
              | Ret r' \<Rightarrow>
                  (let ret = (case exit_codes r' of [] \<Rightarrow> 0 | code # _ \<Rightarrow> code) in
                   case destroy_runner D ct r' of
                     Fault e \<Rightarrow> Fault e
                   | Ret r'' \<Rightarrow> Ret (ret, Some r'')))))"

subsection \<open>The worker while it runs\<close>

text \<open>Up: mounted for these options, with an instance and well-formed nodes.\<close>

definition up_mount :: "globals \<Rightarrow> fmount \<Rightarrow> bool" where
  "up_mount g f \<longleftrightarrow> mounted f \<and> fs_handle f \<noteq> 0 \<and> mount_globals f = g \<and> mount_ok (mount_nodes f)"

definition up :: "globals \<Rightarrow> runner \<Rightarrow> bool" where
  "up g r \<longleftrightarrow> (\<exists>f. filemount r = Some f \<and> up_mount g f)"

lemma up_serve:
  assumes "up g r" and "serve E i q r c = Ret (r', c')"
  shows "up g r'"
proof -
  obtain f where f: "filemount r = Some f" "up_mount g f"
    using assms(1) by (auto simp: up_def)
  let ?c = "load_info i (c\<lparr>fs := mount_nodes f\<rparr>)"
  have "fs_inv mount_ok (snd (dispatch E q ?c))"
    by (rule preservesD [OF dispatch_nodes]) (use f(2) in \<open>simp add: fs_inv_def up_mount_def\<close>)
  then show ?thesis
    using assms(2) f
    by (auto simp: serve_def up_def up_mount_def fs_inv_def split: prod.splits outcome.splits)
qed

lemma saveSecurity_up: "preserves (up_mount g) (saveSecurity D)"
  unfolding saveSecurity_def
  by (rule preserves_by_wpf) (simp add: wp_simps up_mount_def split: outcome.split)

lemma up_save:
  assumes "up g r" and "onSaveSecurity D r = Ret r'"
  shows "up g r'"
proof -
  obtain f where f: "filemount r = Some f" "up_mount g f" using assms(1) by (auto simp: up_def)
  then have "up_mount g (snd (saveSecurity D f))" using preservesD [OF saveSecurity_up] by blast
  then show ?thesis
    using assms(2) f(1) by (auto simp: onSaveSecurity_def up_def split: prod.splits outcome.splits)
qed

lemma up_loop:
  assumes "event_loop E D evs r c = Ret r'" and "up g r"
  shows "up g r'"
  using assms
proof (induction E D evs r c rule: event_loop.induct)
  case (2 E D i q evs r c)
  then show ?case using up_serve by (fastforce split: outcome.splits prod.splits)
next
  case (3 E D evs r c)
  then show ?case using up_save by (fastforce split: outcome.splits)
next
  case (5 E D m evs r c)
  then show ?case by (auto simp: WindowProc_def exits_def up_def split: if_splits)
qed simp_all

subsection \<open>From its start to the next start\<close>

text \<open>What the constructor gives for a mount of the settings whose node file can be read.\<close>

lemma DokanRunner_found:
  assumes "find_info u (mounts_value file) = Some info" and "MountInfoToGlobal info = (g, opts)"
    and "FileMount D g opts True d = Ret fm" and "dk_create D [] = (status, h)"
  shows "DokanRunner D freeDrives file u d =
    (let letter = mount_letter (m_MountPoint g); made = [FileSystemCreated status h] in
     Ret \<lparr>filemount = Some (if letter \<in> set (freeDrives [])
             then fm\<lparr>calls := made, fs_handle := h, mounted := (status = DOKAN_SUCCESS)\<rparr> else fm),
          exit_codes = (if letter \<notin> set (freeDrives []) then [3]
             else (if letter \<in> set (freeDrives made) then [3] else []) @
                  (if status \<noteq> DOKAN_SUCCESS then [2] else [])),
          timer_on = True, shut_down = False\<rparr>)"
proof -
  have fm: "mount_globals fm = g" "calls fm = []" "\<not> mounted fm"
    using assms(3) by (auto simp: FileMount_def Let_def split: option.splits prod.splits)
  have "mount D fm = (Ret status,
      fm\<lparr>calls := [FileSystemCreated status h], fs_handle := h, mounted := (status = DOKAN_SUCCESS)\<rparr>)"
    using fm(2,3) assms(4)
    by (cases fm) (simp add: mount_def bind_def gets_def log_call_def modify_def whenM_def return_def)
  then show ?thesis
    using assms fm by (simp add: DokanRunner_def mount_if_free_def exits_def Let_def)
qed

lemma push_new_counts: "writeCounts (push_new xs n) = writeCounts n"
  by (induction xs arbitrary: n) (simp_all add: make_shared_def)

lemma FileMount_ok:
  assumes "FileMount D g opts True d = Ret fm"
  shows "mount_ok (mount_nodes fm)" and "mount_globals fm = g"
proof -
  have "counts_ok n" if "load_nodes ts empty_nodes = Some (n, rest)" for ts n rest
    using that
    by (cases "(ts, empty_nodes)" rule: load_nodes.cases)
      (auto simp: counts_ok_def push_new_counts empty_nodes_def)
  then show "mount_ok (mount_nodes fm)" "mount_globals fm = g"
    using assms mount_ok_empty load_nodes_ok [OF _ nodes_ok_empty]
    by (auto simp: FileMount_def mount_ok_def Let_def split: option.splits prod.splits)
qed

lemma up_after_start:
  assumes "DokanRunner D freeDrives file u d = Ret r" and "exit_codes r = []"
    and "find_info u (mounts_value file) = Some info"
    and "\<And>cs h. dk_create D cs = (DOKAN_SUCCESS, h) \<Longrightarrow> h \<noteq> 0"
  shows "up (fst (MountInfoToGlobal info)) r"
proof -
  obtain g opts where go: "MountInfoToGlobal info = (g, opts)" by (cases "MountInfoToGlobal info")
  obtain fm where fm: "FileMount D g opts True d = Ret fm"
    using assms(1,3) go by (auto simp: DokanRunner_def split: outcome.splits)
  obtain status h where cr: "dk_create D [] = (status, h)" by (cases "dk_create D []")
  show ?thesis
    using DokanRunner_found [OF assms(3) go fm cr, of freeDrives] assms(1,2,4) cr FileMount_ok [OF fm] go
    by (auto simp: up_def up_mount_def Let_def split: if_splits)
qed

text \<open>
  What the destructor meets: the file system still runs at both questions, and the node file can be
  written when it is saved.
\<close>

definition running_and_writable :: "dokan \<Rightarrow> fmount \<Rightarrow> bool" where
  "running_and_writable D f \<longleftrightarrow>
     (let h = fs_handle f; asked = AskedRunning h True # calls f in
      dk_running D (calls f) h \<and> dk_running D asked h \<and>
      dk_can_write D (FileSystemClosed h # AskedRunning h True # asked)
        (datfile D (m_RootDirectory (mount_globals f))))"

lemma destroyed_worker_saves:
  assumes "up g r" and "filemount r = Some f" and "running_and_writable D f" and "thread_at ct \<noteq> NotBegun"
  shows "\<exists>r' f' new. destroy_runner D ct r = Ret r' \<and> shut_down r' \<and>
    filemount r' = Some f' \<and> \<not> mounted f' \<and>
    FileMount D g opts True (disk f') = Ret new \<and>
    (\<forall>n. map_option (store (mount_nodes new)) (findFileNode (mount_nodes new) n) =
         map_option (store (mount_nodes f)) (findFileNode (mount_nodes f) n))"
proof -
  have f: "mounted f" "fs_handle f \<noteq> 0" "mount_globals f = g" "nodes_ok (mount_nodes f)"
    using assms(1,2) by (auto simp: up_def up_mount_def mount_ok_def)
  let ?f = "f\<lparr>calls := AskedRunning (fs_handle f) True # calls f\<rparr>"
  have end_: "dk_running D (calls f) (fs_handle f)" "dk_running D (calls ?f) (fs_handle ?f)"
    "dk_can_write D (FileSystemClosed (fs_handle ?f) # AskedRunning (fs_handle ?f) True # calls ?f)
      (datfile D (m_RootDirectory (mount_globals ?f)))"
    using assms(3) by (simp_all add: running_and_writable_def Let_def)
  have "isRunning D f = (Ret True, ?f)"
    using f(1,2) end_(1)
    by (simp add: isRunning_def DokanIsFileSystemRunning_def bind_def gets_def log_call_def modify_def
        whenM_def return_def)
  then have destroy: "destroy_runner D ct r =
      (case unmount D ?f of (Fault e, _) \<Rightarrow> Fault e
       | (Ret _, f') \<Rightarrow> Ret (r\<lparr>filemount := Some f', shut_down := True\<rparr>))"
    using assms(4)
    by (simp add: destroy_runner_def unmount_if_running_def assms(2) bind_def whenM_def destroy_Cache_def
        split: prod.split outcome.split)
  have "\<exists>s' new. unmount D ?f = (Ret (), s') \<and> \<not> mounted s' \<and>
      FileMount D (mount_globals ?f) opts True (disk s') = Ret new \<and> nodes_ok (mount_nodes new) \<and>
      (\<forall>n. map_option (store (mount_nodes new)) (findFileNode (mount_nodes new) n) =
           map_option (store (mount_nodes ?f)) (findFileNode (mount_nodes ?f) n))"
    by (rule restart_keeps_security [OF _ _ _ end_(2,3)]) (simp_all add: f)
  then show ?thesis by (auto simp: destroy f)
qed


definition begun_Cache :: cache_run where
  "begun_Cache = new_Cache\<lparr>thread_at := AtWait, exitEvent := Some False, dir_open := True\<rparr>"

lemma begun_Cache_begun [simp]: "thread_at begun_Cache \<noteq> NotBegun"
  by (simp add: begun_Cache_def)


subsection \<open>Arguments\<close>

text \<open>The check of the arguments is off by one: with the settings path alone the worker crashes.\<close>

lemma missing_id_crashes:
  "length argv = 2 \<Longrightarrow> worker_main E D freeDrives uuid_of files d argv evs ct = Fault NullPointer"
  by (simp add: worker_main_def)

end
