(* ===== verification/WorkerSafe.thy ===== *)
theory WorkerSafe
  imports WorkerMain NoFault
begin

text \<open>
  The whole life of a worker without a fault: what theory NoFault shows of one request is carried
  through the event loop of theory WorkerMain (requests, saving ticks, notifications, window
  messages, in any order) and through the destruction of the \<open>DokanRunner\<close>. Each part has a progress
  lemma, that it returns, with the invariant \<open>held\<close> kept.
\<close>

subsection \<open>What arrives\<close>

text \<open>
  A run of the event loop in which every request that is served fits (theory NoFault) in the state it
  meets: the configuration, what the cache holds then, the descriptors the nodes have then.
\<close>

definition served_fits :: "('a) secos_scheme \<Rightarrow> dokan_file_info \<Rightarrow> request \<Rightarrow> runner \<Rightarrow> ctx \<Rightarrow> bool" where
  "served_fits E i q r c \<longleftrightarrow>
     (case filemount r of
        None \<Rightarrow> True
      | Some f \<Rightarrow>
          \<not> mounted f \<or>
          (let s = load_info i (c\<lparr>fs := mount_nodes f\<rparr>) in
           request_fits (globals s) (cache s) q \<and> descriptors_fit E s q))"

fun loop_fits ::
  "('a) secos_scheme \<Rightarrow> dokan \<Rightarrow> worker_event list \<Rightarrow> runner \<Rightarrow> ctx \<Rightarrow> bool" where
  "loop_fits E D [] r c = True"
| "loop_fits E D (Served i q # evs) r c =
     (served_fits E i q r c \<and>
      (case serve E i q r c of Fault e \<Rightarrow> True | Ret (r', c') \<Rightarrow> loop_fits E D evs r' c'))"
| "loop_fits E D (SaveTick # evs) r c =
     (case onSaveSecurity D r of Fault e \<Rightarrow> True | Ret r' \<Rightarrow> loop_fits E D evs r' c)"
| "loop_fits E D (Noticed ws # evs) r c =
     loop_fits E D evs r (c\<lparr>cache := MonitorDirectoryChanges ws (cache c)\<rparr>)"
| "loop_fits E D (WindowMessage m # evs) r c =
     (case WindowProc m r of (goes_on, r') \<Rightarrow> if goes_on then loop_fits E D evs r' c else True)"

text \<open>The run of the worker that the arguments start.\<close>

definition requests_fit ::
  "('a) secos_scheme \<Rightarrow> dokan \<Rightarrow> (dokan_call list \<Rightarrow> wstr list) \<Rightarrow> (wstr \<Rightarrow> uuid) \<Rightarrow>
    (wstr \<Rightarrow> qitem list option) \<Rightarrow> (wstr \<Rightarrow> item list option) \<Rightarrow> wstr list \<Rightarrow> worker_event list \<Rightarrow> bool"
  where
  "requests_fit E D freeDrives uuid_of files d argv evs \<longleftrightarrow>
     (case DokanRunner D freeDrives (files (argv ! 1)) (uuid_of (argv ! 2)) d of
        Fault e \<Rightarrow> True
      | Ret r \<Rightarrow>
          exit_codes r \<noteq> [] \<or>
          loop_fits E D evs r
            (new_ctx (case filemount r of None \<Rightarrow> new_Globals | Some f \<Rightarrow> mount_globals f)))"

text \<open>
  A condition on the events alone, for a system whose security API never fails: their names fit, and
  reads of the special file are left out, because the thread of the cache decides between two
  requests what they find.
\<close>

fun event_fits :: "globals \<Rightarrow> worker_event \<Rightarrow> bool" where
  "event_fits g (Served i q) =
     (request_fits g empty_cache q \<and> (case q of Read f n off \<Rightarrow> f \<noteq> bzvolfile | _ \<Rightarrow> True))"
| "event_fits g SaveTick = True"
| "event_fits g (Noticed ws) = True"
| "event_fits g (WindowMessage m) = True"

lemma event_fits_any: "event_fits g (Served i q) \<Longrightarrow> request_fits g c q"
  by (cases q) auto

text \<open>
  A worker that holds a file mount: for the options \<open>g\<close>, with well-formed nodes, and as many file systems
  at the driver as the mount says.
\<close>

definition held_mount :: "globals \<Rightarrow> fmount \<Rightarrow> bool" where
  "held_mount g f \<longleftrightarrow> mount_globals f = g \<and> mount_ok (mount_nodes f) \<and> life_ok f"

definition held :: "globals \<Rightarrow> runner \<Rightarrow> bool" where
  "held g r \<longleftrightarrow> (\<exists>f. filemount r = Some f \<and> held_mount g f)"

lemma heldE:
  assumes "held g r" obtains f where "filemount r = Some f" "held_mount g f"
  using assms by (auto simp: held_def)

lemma held_update [simp]: "held g (r\<lparr>filemount := Some f\<rparr>) \<longleftrightarrow> held_mount g f"
  "held g (exits code r) \<longleftrightarrow> held g r" "held g (r\<lparr>shut_down := b\<rparr>) \<longleftrightarrow> held g r"
  by (simp_all add: held_def exits_def)

subsection \<open>Serving, saving, the loop\<close>

lemma serve_returns:
  assumes "0 \<notin> set (m_UNCName g)" and "served_fits E i q r c" and "held g r" and "globals c = g"
  shows "\<exists>r' c'. serve E i q r c = Ret (r', c') \<and> held g r' \<and> globals c' = g \<and> exit_codes r' = exit_codes r"
proof -
  obtain f where f: "filemount r = Some f" "held_mount g f" using assms(3) by (rule heldE)
  let ?c = "load_info i (c\<lparr>fs := mount_nodes f\<rparr>)"
  show ?thesis
  proof (cases "mounted f")
    case True
    then have fits: "request_fits g (cache ?c) q" "descriptors_fit E ?c q"
      using assms(2,4) f(1) by (simp_all add: served_fits_def Let_def)
    have "sound UNIV g ?c"
      using f(2) assms(4) by (simp add: sound_def held_mount_def mount_ok_def nodes_ok_def)
    from request_returns [OF fits(2) assms(1) fits(1) this]
    obtain c' where c': "dispatch E q ?c = (Ret (), c')" "sound UNIV g c'"
      by (auto simp: wpf_def simp del: dispatch.simps split: prod.splits outcome.splits)
    have "fs_inv mount_ok c'"
      using preservesD [OF dispatch_nodes, of ?c E q] c'(1) f(2) by (simp add: fs_inv_def held_mount_def)
    then have "held_mount g (f\<lparr>mount_nodes := fs c'\<rparr>)"
      using f(2) by (simp add: held_mount_def fs_inv_def life_ok_def)
    then show ?thesis
      using assms(3,4) f(1) c' by (simp add: serve_def sound_def del: dispatch.simps)
  qed (use assms(3,4) f(1) in \<open>simp add: serve_def\<close>)
qed

lemma saveSecurity_returns:
  assumes "held_mount g f"
  shows "wpf (saveSecurity D) (\<lambda>_ f'. held_mount g f' \<and> calls f' = calls f \<and> mounted f' = mounted f)
    (\<lambda>_ _. False) f"
proof -
  obtain ts where "save_nodes (mount_nodes f) = Ret ts"
    using assms archive_roundtrip [of "mount_nodes f", OF _ nodes_ok_empty]
    by (auto simp: held_mount_def mount_ok_def)
  then show ?thesis
    using assms by (simp add: saveSecurity_def wp_simps held_mount_def life_ok_def)
qed

lemma save_returns:
  assumes "held g r"
  shows "\<exists>r'. onSaveSecurity D r = Ret r' \<and> held g r' \<and> exit_codes r' = exit_codes r"
proof -
  obtain f where f: "filemount r = Some f" "held_mount g f" using assms by (rule heldE)
  obtain f' where "saveSecurity D f = (Ret (), f')" "held_mount g f'"
    using saveSecurity_returns [OF f(2), of D] by (auto simp: wpf_def split: prod.splits outcome.splits)
  then show ?thesis using f(1) by (simp add: onSaveSecurity_def)
qed

lemma loop_returns:
  assumes "0 \<notin> set (m_UNCName g)" and "loop_fits E D evs r c" and "held g r" and "globals c = g"
  shows "\<exists>r'. event_loop E D evs r c = Ret r' \<and> held g r' \<and>
    (exit_codes r' = exit_codes r \<or> exit_codes r' = 0 # exit_codes r)"
  using assms(2-4)
proof (induction evs arbitrary: r c)
  case (Cons e evs)
  show ?case
  proof (cases e)
    case (Served i q)
    then obtain r' c' where s: "serve E i q r c = Ret (r', c')" "held g r'" "globals c' = g"
        "exit_codes r' = exit_codes r"
      using serve_returns [OF assms(1) _ Cons.prems(2,3), of E i q] Cons.prems(1) by auto
    then show ?thesis using Cons.IH [OF _ s(2,3)] Cons.prems(1) by (simp add: Served)
  next
    case SaveTick
    obtain r' where r': "onSaveSecurity D r = Ret r'" "held g r'" "exit_codes r' = exit_codes r"
      using save_returns [OF Cons.prems(2)] by blast
    then show ?thesis using Cons.IH [OF _ r'(2) Cons.prems(3)] Cons.prems(1) by (simp add: SaveTick)
  next
    case (Noticed ws)
    then show ?thesis using Cons.IH [OF _ Cons.prems(2)] Cons.prems by simp
  next
    case (WindowMessage m)
    then show ?thesis
      using Cons.IH [OF _ Cons.prems(2,3)] Cons.prems by (simp add: WindowProc_def exits_def [symmetric] split: if_splits)
        (simp add: exits_def)
  qed
qed simp

lemma never_fails_loop:
  assumes "security_never_fails E" and "0 \<notin> set (m_UNCName g)" and "list_all (event_fits g) evs"
    and "held g r" and "globals c = g"
  shows "loop_fits E D evs r c"
  using assms(3-5)
proof (induction evs arbitrary: r c)
  case (Cons e evs)
  show ?case
  proof (cases e)
    case (Served i q)
    then have fits: "served_fits E i q r c"
      using Cons.prems(1,3) never_fails_fit [OF assms(1)] event_fits_any [of g i q]
      by (simp add: served_fits_def Let_def split: option.split)
    from serve_returns [OF assms(2) this Cons.prems(2,3)] show ?thesis
      using fits Cons.IH Cons.prems(1) by (auto simp: Served)
  next
    case SaveTick
    obtain r' where r': "onSaveSecurity D r = Ret r'" "held g r'"
      using save_returns [OF Cons.prems(2)] by blast
    then show ?thesis using Cons.IH [OF _ r'(2) Cons.prems(3)] Cons.prems(1) by (simp add: SaveTick)
  next
    case (Noticed ws)
    then show ?thesis using Cons.IH [OF _ Cons.prems(2)] Cons.prems by simp
  next
    case (WindowMessage m)
    then show ?thesis using Cons.IH [OF _ Cons.prems(2,3)] Cons.prems(1) by (simp add: WindowProc_def)
  qed
qed simp

subsection \<open>Start and end\<close>

text \<open>
  The exit code: 3 for a drive letter in use before the mount or free after it, 2 for a refused mount.
\<close>

definition worker_code :: "dokan \<Rightarrow> (dokan_call list \<Rightarrow> wstr list) \<Rightarrow> wstr \<Rightarrow> int" where
  "worker_code D freeDrives mp =
     (let letter = mount_letter mp; (status, h) = dk_create D [] in
      if letter \<notin> set (freeDrives []) \<or> letter \<in> set (freeDrives [FileSystemCreated status h]) then 3
      else if status \<noteq> DOKAN_SUCCESS then 2 else 0)"

text \<open>A refused mount leaves the letter free, so the code for it is replaced by the one for the letter.\<close>

lemma refused_mount_answers_3:
  assumes "dk_create D [] = (status, h)" and "status \<noteq> DOKAN_SUCCESS"
    and "mount_letter mp \<in> set (freeDrives [FileSystemCreated status h])"
  shows "worker_code D freeDrives mp = 3"
  using assms by (simp add: worker_code_def)

definition last_code :: "int list \<Rightarrow> int" where
  "last_code codes = (case codes of [] \<Rightarrow> 0 | code # _ \<Rightarrow> code)"

lemma start_held:
  assumes "find_info u (mounts_value file) = Some info" and "MountInfoToGlobal info = (g, opts)"
    and "FileMount D g opts True d = Ret fm"
    and "\<And>cs h. dk_create D cs = (DOKAN_SUCCESS, h) \<Longrightarrow> h \<noteq> 0"
  shows "\<exists>r. DokanRunner D freeDrives file u d = Ret r \<and> held g r \<and>
    last_code (exit_codes r) = worker_code D freeDrives (m_MountPoint g) \<and>
    (\<forall>f. filemount r = Some f \<longrightarrow> (mounted f \<longleftrightarrow>
       mount_letter (m_MountPoint g) \<in> set (freeDrives []) \<and> fst (dk_create D []) = DOKAN_SUCCESS))"
proof -
  obtain status h where cr: "dk_create D [] = (status, h)" by (cases "dk_create D []")
  have fm: "calls fm = []" "\<not> mounted fm"
    using assms(3) by (auto simp: FileMount_def Let_def split: option.splits prod.splits)
  note ok = FileMount_ok [OF assms(3)]
  have "held_mount g fm"
    "held_mount g (fm\<lparr>calls := [FileSystemCreated status h], fs_handle := h, mounted := (status = DOKAN_SUCCESS)\<rparr>)"
    using fm ok assms(4) cr by (auto simp: held_mount_def life_ok_def instances_def)
  then show ?thesis
    unfolding DokanRunner_found [OF assms(1-3) cr, of freeDrives] Let_def
    using fm by (auto simp: held_def last_code_def worker_code_def cr)
qed

text \<open>The driver's answer to the question whether a file system runs does not change by asking.\<close>

definition asking_changes_nothing :: "dokan \<Rightarrow> bool" where
  "asking_changes_nothing D \<longleftrightarrow>
     (\<forall>cs h b. dk_running D (AskedRunning h b # cs) h = dk_running D cs h)"

lemma unmount_returns:
  assumes "held_mount g f" and "asking_changes_nothing D"
  shows "wpf (bind (isRunning D) (\<lambda>b. whenM b (unmount D)))
    (\<lambda>_ f'. held_mount g f' \<and> \<not> mounted f') (\<lambda>_ _. False) f"
proof (cases "mounted f")
  case True
  then have h: "fs_handle f \<noteq> 0" using assms(1) by (simp add: held_mount_def life_ok_def)
  let ?h = "fs_handle f"
  let ?f = "f\<lparr>calls := FileSystemClosed ?h # AskedRunning ?h True # AskedRunning ?h True # calls f,
    mounted := False, fs_handle := 0\<rparr>"
  have "held_mount g ?f" using assms(1) True by (simp add: held_mount_def life_ok_def instances_def)
  from saveSecurity_returns [OF this, of D]
  have "wpf (saveSecurity D) (\<lambda>_ f'. held_mount g f' \<and> \<not> mounted f') (\<lambda>_ _. False) ?f"
    by (rule wpf_mono) simp_all
  then show ?thesis
    using assms True h
    by (simp add: isRunning_def unmount_def DokanIsFileSystemRunning_def log_call_def wp_simps
        asking_changes_nothing_def held_mount_def life_ok_def instances_def)
qed (use assms in \<open>simp add: isRunning_def wp_simps\<close>)

lemma destroy_returns:
  assumes "held g r" and "asking_changes_nothing D"
    and "thread_at ct \<noteq> NotBegun"
  obtains r' f where "destroy_runner D ct r = Ret r'" "shut_down r'" "filemount r' = Some f"
    "held_mount g f" "\<not> mounted f"
proof -
  obtain f where f: "filemount r = Some f" "held_mount g f" using assms(1) by (rule heldE)
  obtain f' where "bind (isRunning D) (\<lambda>b. whenM b (unmount D)) f = (Ret (), f')" "held_mount g f'" "\<not> mounted f'"
    using unmount_returns [OF f(2) assms(2)] by (auto simp: wpf_def split: prod.splits outcome.splits)
  then show thesis using f(1) by (intro that [of "r\<lparr>filemount := Some f', shut_down := True\<rparr>" f'])
      (simp_all add: destroy_runner_def unmount_if_running_def destroy_Cache_def assms(3))
qed

subsection \<open>The life of a worker\<close>

text \<open>What the file of the nodes must be for the constructor to get through.\<close>

definition archive_readable :: "dokan \<Rightarrow> mountinfo \<Rightarrow> (wstr \<Rightarrow> item list option) \<Rightarrow> bool" where
  "archive_readable D info d =
     (case d (datfile D (RootDirectory info)) of
        None \<Rightarrow> True | Some ts \<Rightarrow> load_nodes ts empty_nodes \<noteq> None)"

definition info_globals :: "mountinfo \<Rightarrow> globals" where
  "info_globals info = fst (MountInfoToGlobal info)"

lemma info_globals_simps [simp]:
  "m_RootDirectory (info_globals info) = RootDirectory info"
  "m_MountPoint (info_globals info) = MountPoint info"
  "m_UNCName (info_globals info) = UNCName info"
  by (simp_all add: info_globals_def MountInfoToGlobal_def Let_def)

lemma archive_mounts:
  assumes "archive_readable D info d"
  obtains fm where "FileMount D (info_globals info) opts True d = Ret fm"
  using assms by (auto simp: archive_readable_def FileMount_def Let_def split: option.splits)

text \<open>The conditions on the driver and on the system a worker is started in.\<close>

definition driver_sound :: "dokan \<Rightarrow> bool" where
  "driver_sound D \<longleftrightarrow>
     (\<forall>cs h. dk_create D cs = (DOKAN_SUCCESS, h) \<longrightarrow> h \<noteq> 0) \<and> asking_changes_nothing D"

definition clean_end :: "mountinfo \<Rightarrow> runner \<Rightarrow> bool" where
  "clean_end info r \<longleftrightarrow> shut_down r \<and>
     (case filemount r of None \<Rightarrow> False
      | Some f \<Rightarrow> mount_globals f = info_globals info \<and> \<not> mounted f \<and> instances (calls f) = 0)"

lemma worker_main_ends:
  assumes "driver_sound D" and "2 < length argv"
    and "find_info (uuid_of (argv ! 2)) (mounts_value (files (argv ! 1))) = Some info"
    and "archive_readable D info d" and "0 \<notin> set (UNCName info)"
    and "requests_fit E D freeDrives uuid_of files d argv evs" and "thread_at ct \<noteq> NotBegun"
  shows "\<exists>r. worker_main E D freeDrives uuid_of files d argv evs ct =
    Ret (worker_code D freeDrives (MountPoint info), Some r) \<and> clean_end info r"
proof -
  let ?g = "info_globals info"
  have go: "MountInfoToGlobal info = (?g, snd (MountInfoToGlobal info))" by (simp add: info_globals_def)
  obtain fm where fm: "FileMount D ?g (snd (MountInfoToGlobal info)) True d = Ret fm"
    using archive_mounts [OF assms(4)] by blast
  have "\<And>cs h. dk_create D cs = (DOKAN_SUCCESS, h) \<Longrightarrow> h \<noteq> 0"
    using assms(1) by (simp add: driver_sound_def)
  then obtain r where r: "DokanRunner D freeDrives (files (argv ! 1)) (uuid_of (argv ! 2)) d = Ret r"
      "held ?g r" "last_code (exit_codes r) = worker_code D freeDrives (MountPoint info)"
    using start_held [OF assms(3) go fm, of freeDrives] by auto
  let ?c = "new_ctx (case filemount r of None \<Rightarrow> new_Globals | Some f \<Rightarrow> mount_globals f)"
  let ?evs = "if exit_codes r = [] then evs else []"
  have "globals ?c = ?g" using r(2) by (auto simp: held_def held_mount_def new_ctx_def)
  moreover have "loop_fits E D ?evs r ?c" using assms(6) r(1) by (simp add: requests_fit_def)
  ultimately obtain r' where r': "event_loop E D ?evs r ?c = Ret r'" "held ?g r'"
      "exit_codes r' = exit_codes r \<or> exit_codes r' = 0 # exit_codes r"
    using loop_returns [OF _ _ r(2), of E D ?evs ?c] assms(5) by auto
  have code: "last_code (exit_codes r') = last_code (exit_codes r)"
  proof (cases "exit_codes r = []")
    case False
    then show ?thesis using r'(1) by simp
  qed (use r'(3) in \<open>auto simp: last_code_def\<close>)
  obtain r'' f where "destroy_runner D ct r' = Ret r''" "shut_down r''" "filemount r'' = Some f"
      "held_mount ?g f" "\<not> mounted f"
    using destroy_returns [OF r'(2) _ assms(7)] assms(1) by (auto simp: driver_sound_def)
  then show ?thesis
    using assms(2) r(1,3) r'(1) code
    by (simp add: worker_main_def last_code_def [symmetric] clean_end_def held_mount_def life_ok_def Let_def)
qed


definition sample_events :: "worker_event list" where
  "sample_events = [Served sample_info (SetFileSecurity (W ''x'') 4 (replicate 20 1)), SaveTick,
     Noticed [OtherWake], Served sample_info (FindFiles (W ''x'')), WindowMessage WM_CLOSE]"

lemma sample_events_fit: "list_all (event_fits (info_globals sample_mount)) sample_events"
  by (simp add: sample_events_def fits_def mirror_path_def relative_part_def under_unc_def sample_mount_def
      new_MountInfo_def W_def c_str_def)

lemma sample_driver_sound: "driver_sound sample_dokan"
  by (simp add: driver_sound_def asking_changes_nothing_def sample_dokan_def)

lemma sample_code: "worker_code sample_dokan sample_drives (MountPoint sample_mount) = 0"
  by (simp add: worker_code_def sample_dokan_def sample_drives_def sample_mount_def mount_letter_def W_def)

lemma sample_archive: "archive_readable sample_dokan sample_mount (\<lambda>_. None)"
  "0 \<notin> set (UNCName sample_mount)"
  by (simp_all add: archive_readable_def sample_mount_def new_MountInfo_def)

text \<open>On a system whose security API never fails, fitting events are enough.\<close>

lemma never_fails_worker:
  assumes "security_never_fails E" and "driver_sound D"
    and "find_info (uuid_of (argv ! 2)) (mounts_value (files (argv ! 1))) = Some info"
    and "archive_readable D info d" and "0 \<notin> set (UNCName info)"
    and "list_all (event_fits (info_globals info)) evs"
  shows "requests_fit E D freeDrives uuid_of files d argv evs"
proof -
  let ?g = "info_globals info"
  have go: "MountInfoToGlobal info = (?g, snd (MountInfoToGlobal info))" by (simp add: info_globals_def)
  obtain fm where fm: "FileMount D ?g (snd (MountInfoToGlobal info)) True d = Ret fm"
    using archive_mounts [OF assms(4)] by blast
  have "\<And>cs h. dk_create D cs = (DOKAN_SUCCESS, h) \<Longrightarrow> h \<noteq> 0"
    using assms(2) by (simp add: driver_sound_def)
  then obtain r where r: "DokanRunner D freeDrives (files (argv ! 1)) (uuid_of (argv ! 2)) d = Ret r" "held ?g r"
    using start_held [OF assms(3) go fm, of freeDrives] by auto
  moreover have "globals (new_ctx (case filemount r of None \<Rightarrow> new_Globals | Some f \<Rightarrow> mount_globals f)) = ?g"
    using r(2) by (auto simp: held_def held_mount_def new_ctx_def)
  ultimately show ?thesis
    using never_fails_loop [OF assms(1) _ assms(6)] assms(5) by (simp add: requests_fit_def)
qed


text \<open>
  A worker destroyed before the thread of its cache has begun does not return from its main function,
  when the system refuses that thread nothing.
\<close>

theorem early_end_hangs:
  assumes "driver_sound D" and "2 < length argv"
    and "find_info (uuid_of (argv ! 2)) (mounts_value (files (argv ! 1))) = Some info"
    and "archive_readable D info d" and "0 \<notin> set (UNCName info)"
    and "requests_fit E D freeDrives uuid_of files d argv evs" and "thread_at ct = NotBegun"
  shows "worker_main E D freeDrives uuid_of files d argv evs ct = Fault NeverReturns"
proof -
  have other: "worker_main E D freeDrives uuid_of files d argv evs begun_Cache = Ret x \<Longrightarrow>
      worker_main E D freeDrives uuid_of files d argv evs ct = Fault NeverReturns" for x
    using assms(2,7)
    by (auto simp: worker_main_def destroy_runner_def destroy_Cache_def Let_def
        split: outcome.splits option.splits split del: if_split)
  show ?thesis
    using worker_main_ends [where uuid_of = uuid_of and files = files and argv = argv
        and freeDrives = freeDrives, OF assms(1-6) begun_Cache_begun] other by blast
qed

end
