(* ===== verification/ServiceWorkers.thy ===== *)
theory ServiceWorkers
  imports DaemonTrace WorkerSafe
begin

text \<open>
  The service and its worker processes together: what the daemon of theory Daemon passes to the
  processes it creates, and what becomes of them in theory WorkerMain. The two meet in the arguments of
  the process and in the settings file both read. The text of an identifier (\<open>QUuid::toString\<close>,
  \<open>QUuid::fromString\<close>) is a parameter, relied on to be read back.
\<close>

text \<open>The command line of the process: the program beside the service's, the file and the identifier.\<close>

definition process_argv :: "wstr \<Rightarrow> wstr \<Rightarrow> (uuid \<Rightarrow> wstr) \<Rightarrow> uuid \<Rightarrow> wstr list" where
  "process_argv applicationDirPath iniFile toString u =
     [applicationDirPath @ W ''/'' @ W ''seamless_smb_service_process.exe'', iniFile, toString u]"

text \<open>The worker finds the settings of its mount when it reads what the daemon read.\<close>

lemma find_info_mem:
  assumes "distinct (map uuid L)" and "i \<in> set L"
  shows "find_info (uuid i) L = Some i"
  using assms by (induction L) (auto simp: find_info_def image_iff)

text \<open>The daemon and the worker agree on a mount whose settings compare equal.\<close>

lemma same_info_globals:
  assumes "same_info a b" shows "info_globals a = info_globals b"
  using assms by (simp add: same_info_def info_globals_def MountInfoToGlobal_def Let_def)

lemma reload_entry:
  assumes "daemon_inv s" and "i \<in> set (mounts_value (settings s))"
  obtains p m where "(p, m) \<in> set (mounts (reloadMounts s))" and "uuid m = uuid i" and "same_info i m"
    and "Created p (uuid i) \<in> set (events (reloadMounts s))"
proof -
  let ?s = "reloadMounts s"
  have ok: "daemon_ok s" "distinct (map uuid (mounts_value (settings s)))"
    using assms(1) by (simp_all add: daemon_inv_def file_ok_def)
  obtain e where e: "look ?s (uuid i) = Some e" "dm.synced s i (look s (uuid i)) e"
    using reload_core [OF ok(1) refl ok(2)] assms(2) by blast
  have mem: "e \<in> set (mounts ?s)" "uuid (snd e) = uuid i"
    using e(1) entry_of_Some by (auto simp: look_def)
  moreover have "same_info i (snd e)"
    using e(2) by (auto simp: dm.synced_def differ_def split: option.splits if_splits)
  moreover have "traced ?s" using daemon_inv_reload [OF assms(1)] by (simp add: daemon_inv_def)
  ultimately show thesis
    using tracedD(4) [OF _ mem(1)] by (intro that [of "fst e" "snd e"]) simp_all
qed

text \<open>A worker is mounted when its constructor is done, if its letter was free and Dokan granted it.\<close>

lemma started_mounted:
  assumes "find_info u (mounts_value file) = Some info" and "archive_readable D info d"
    and "driver_sound D"
  obtains r f where "DokanRunner D freeDrives file u d = Ret r"
    and "filemount r = Some f" and "mount_globals f = info_globals info"
    and "mounted f \<longleftrightarrow> mount_letter (MountPoint info) \<in> set (freeDrives []) \<and>
      fst (dk_create D []) = DOKAN_SUCCESS"
proof -
  have go: "MountInfoToGlobal info = (info_globals info, snd (MountInfoToGlobal info))"
    by (simp add: info_globals_def)
  obtain fm where fm: "FileMount D (info_globals info) (snd (MountInfoToGlobal info)) True d = Ret fm"
    using archive_mounts [OF assms(2)] by blast
  have "\<exists>r. DokanRunner D freeDrives file u d = Ret r \<and> held (info_globals info) r \<and>
      last_code (exit_codes r) = worker_code D freeDrives (m_MountPoint (info_globals info)) \<and>
      (\<forall>f. filemount r = Some f \<longrightarrow> (mounted f \<longleftrightarrow>
         mount_letter (m_MountPoint (info_globals info)) \<in> set (freeDrives []) \<and>
         fst (dk_create D []) = DOKAN_SUCCESS))"
    by (rule start_held [OF assms(1) go fm]) (use assms(3) in \<open>simp add: driver_sound_def\<close>)
  then show thesis by (auto simp: held_def held_mount_def intro: that)
qed


definition sample_enabled :: mountinfo where
  "sample_enabled = sample_mount\<lparr>enabled := True\<rparr>"


end
