(* ===== verification/EntryPoints.thy ===== *)
theory EntryPoints
  imports Controller Service ServiceWorkers
begin

text \<open>
  The main functions around the components (seamless_smb_service/main.cpp and servicetestmain.cpp,
  seamless_smb_service_controller/main.cpp, seamless_smb_service_tester/main.cpp) and the console
  handler nobody makes (consolehandler.cpp). What happens while an event loop runs is a parameter, a
  function on the state the loop works on.
\<close>

text \<open>The console handler keeps the options it is made with; its control handler is commented out.\<close>

datatype consolehandler = ConsoleHandler (m_globals: globals)

subsection \<open>The service\<close>

text \<open>Started and stopped by the service manager.\<close>

definition service_main ::
  "daemon_env \<Rightarrow> wstr list \<Rightarrow> (wstr \<Rightarrow> qitem list option) \<Rightarrow> (daemon \<Rightarrow> daemon) \<Rightarrow> shutdown \<Rightarrow> nat \<Rightarrow>
    int outcome" where
  "service_main En plist files run sh elapsed =
     (case service_start plist files new_service of
        None \<Rightarrow> Fault Aborted
      | Some s \<Rightarrow>
          (case service_stop En sh elapsed (s\<lparr>sv_daemon := map_option run (sv_daemon s)\<rparr>) of
             Fault e \<Rightarrow> Fault e
           | Ret _ \<Rightarrow> Ret 0))"

text \<open>
  The test program of the service makes a daemon and does not start it: the destructor then stops a
  timer through a pointer that was never set.
\<close>

definition servicetest_main :: "wstr list \<Rightarrow> int outcome option" where
  "servicetest_main plist =
     (case Daemon_settings plist of None \<Rightarrow> None | Some f \<Rightarrow> Some (Fault Uninitialised))"

text \<open>The controller: what it leaves behind is its settings file.\<close>

definition controller_main :: "qitem list option \<Rightarrow> bool \<Rightarrow> bool \<Rightarrow> bool \<Rightarrow> (app \<Rightarrow> app) \<Rightarrow> app" where
  "controller_main f installed run answers loop =
     destroy_ui (loop (ApplicationUI f installed run answers))"

subsection \<open>The tester\<close>

definition tester_info :: "uuid \<Rightarrow> mountinfo" where
  "tester_info createUuid =
     (let info = new_MountInfo createUuid in
      info\<lparr>MountPoint := W ''Z:'',
        RootDirectory := [BACKSLASH, BACKSLASH] @ W ''192.168.1.4'' @ [BACKSLASH] @ W ''temp'',
        volname := W ''temp'', options := options info OR DOKAN_OPTION_MOUNT_MANAGER,
        debug := True, enabled := True, keepAlive := True\<rparr>)"

text \<open>It installs the service, then writes a settings file with one mount in the place of the old list.\<close>

definition tester_main ::
  "bool \<Rightarrow> uuid \<Rightarrow> wstr list \<Rightarrow> int \<Rightarrow> (wstr \<Rightarrow> qitem list option) \<Rightarrow> int \<times> (wstr \<Rightarrow> qitem list option)" where
  "tester_main installed createUuid plist ret files =
     (if \<not> installed then (-1, files)
      else (ret, files(config_path plist @ W ''/mounts.ini'' \<mapsto> write_mlist [tester_info createUuid])))"

subsection \<open>The programs together\<close>

lemma tester_info_fields [simp]:
  "uuid (tester_info u) = u" "enabled (tester_info u)" "keepAlive (tester_info u)"
  by (simp_all add: tester_info_def Let_def new_MountInfo_def)

lemma Daemon_start_one:
  assumes "mounts_value f = [i]"
  shows "mounts (Daemon_start f) = [(0, i)]" "tasks (Daemon_start f) = [MountAllQueued]"
  using assms
  by (simp_all add: Daemon_start_def reloadMounts_def new_daemon_def add_info_def new_process_def mountAll_def
      log_event_def Let_def)

text \<open>
  After the tester has run, the service it installed comes up, whatever was in the settings, with
  exactly one worker, for the tester's mount, and the loop that starts it is queued.
\<close>

theorem tester_sets_service_up:
  assumes "Daemon_settings plist = Some f" and "tester_main True u plist ret files = (code, files')"
    and "mlist_ok [tester_info u]"
  shows "\<exists>s d. service_start plist files' new_service = Some s \<and> sv_daemon s = Some d \<and>
    mounts d = [(0, tester_info u)] \<and> tasks d = [MountAllQueued]"
proof -
  have "files' f = Some (write_mlist [tester_info u])"
    using assms(1,2) by (auto simp: tester_main_def Daemon_settings_def Let_def split: if_splits)
  then have "mounts_value (files' f) = [tester_info u]"
    using assms(3) by (simp add: mounts_value_write)
  from Daemon_start_one [OF this] show ?thesis
    using assms(1) by (simp add: service_start_def new_service_def)
qed

theorem tester_sets_service_up_witness:
  "\<exists>s d. service_start [W ''C:/ProgramData'']
      (snd (tester_main True 1 [W ''C:/ProgramData''] 0 (\<lambda>_. None))) new_service = Some s \<and>
    sv_daemon s = Some d \<and> mounts d = [(0, tester_info 1)]"
proof -
  have "W ''C:/ProgramData'' = W ''C:/'' @ W ''ProgramData'' @ []" by (simp add: W_def)
  then have "sublist (W ''ProgramData'') (W ''C:/ProgramData'')" unfolding sublist_def by blast
  then have "Daemon_settings [W ''C:/ProgramData''] = Some (W ''C:/ProgramData'' @ W ''/mounts.ini'')"
    by (simp add: Daemon_settings_def config_path_def Let_def) (simp add: W_def)
  from tester_sets_service_up [OF this, of 1 0 "\<lambda>_. None"] show ?thesis
    by (auto simp: tester_main_def mlist_ok_def tester_info_def Let_def new_MountInfo_def)
qed

text \<open>The service answers 0 when its daemon ends, and ends within three seconds.\<close>

lemma service_main_ends:
  assumes "Daemon_settings plist = Some f"
  shows "service_main En plist files run sh elapsed =
    (case destroy_daemon En sh (run (Daemon_start (files f))) of
       Fault e \<Rightarrow> Fault e
     | Ret d \<Rightarrow> if 3000 < elapsed then Fault Aborted else Ret 0)"
  using assms
  by (simp add: service_main_def service_start_def new_service_def service_stop_def split: outcome.split)

end
