(* ===== verification/CutSave.thy ===== *)
theory CutSave
  imports WorkerSafe
begin

text \<open>
  A worker that ends while it saves. \<open>FileMount::saveSecurity\<close> truncates the file of the nodes and then
  writes it value by value; the daemon kills a worker that does not end within two seconds, and the
  destructor of the worker saves. What the next workers of the mount make of the file that is left.
\<close>

text \<open>The save, with the process ended after \<open>k\<close> values.\<close>

definition saveSecurity_until :: "dokan \<Rightarrow> nat \<Rightarrow> unit fm" where
  "saveSecurity_until D k =
    bind (gets (\<lambda>s. datfile D (m_RootDirectory (mount_globals s)))) (\<lambda>file.
    bind (gets (\<lambda>s. dk_can_write D (calls s) file)) (\<lambda>ok.
    whenM ok
      (bind (gets (\<lambda>s. save_nodes (mount_nodes s))) (\<lambda>r.
       bind (lift_outcome r) (\<lambda>ts.
       modify (\<lambda>s. s\<lparr>disk := (disk s)(file \<mapsto> take k ts)\<rparr>))))))"

text \<open>Not cut short, it is the save.\<close>

lemma saveSecurity_until_end:
  assumes "save_nodes (mount_nodes f) = Ret ts" and "length ts \<le> k"
  shows "saveSecurity_until D k f = saveSecurity D f"
  using assms
  by (simp add: saveSecurity_until_def saveSecurity_def bind_def gets_def modify_def whenM_def
      lift_outcome_def return_def split: prod.split)

lemma saveSecurity_until_disk:
  assumes "save_nodes (mount_nodes f) = Ret ts" and "dk_can_write D (calls f) (datfile D (m_RootDirectory (mount_globals f)))"
    and "saveSecurity_until D k f = (Ret (), f')"
  shows "disk f' (datfile D (m_RootDirectory (mount_globals f))) = Some (take k ts)"
proof -
  have "wpf (saveSecurity_until D k) (\<lambda>_ f'. disk f' (datfile D (m_RootDirectory (mount_globals f))) = Some (take k ts))
      (\<lambda>_ _. False) f"
    using assms(1,2) by (simp add: saveSecurity_until_def wp_simps)
  then show ?thesis using assms(3) by (simp add: wpf_def)
qed

text \<open>
  C17: A save that is cut short loses the mount for good. When a worker ends after \<open>saveSecurity\<close> has
  opened its file and before it has written the last value, every later worker for the mount, whatever
  it is sent, ends in the archive's exception in its constructor; it has then not written the file, so
  the next one fares the same.
\<close>

theorem cut_save_is_fatal:
  assumes "up (info_globals info) r" and "filemount r = Some f"
    and "dk_can_write D (calls f) (datfile D (RootDirectory info))"
    and "save_nodes (mount_nodes f) = Ret ts" and "k < length ts"
    and "saveSecurity_until D k f = (Ret (), f')"
    and "2 < length argv" and "find_info (uuid_of (argv ! 2)) (mounts_value (files (argv ! 1))) = Some info"
  shows "worker_main E D freeDrives uuid_of files (disk f') argv evs ct = Fault LibraryException"
proof -
  have f: "mount_globals f = info_globals info" "nodes_ok (mount_nodes f)"
    using assms(1,2) by (auto simp: up_def up_mount_def mount_ok_def)
  then have d: "disk f' (datfile D (RootDirectory info)) = Some (take k ts)"
    using saveSecurity_until_disk [OF assms(4) _ assms(6)] assms(3) by simp
  have "strict_prefix (take k ts) ts"
    using assms(5) take_is_prefix [of k ts] by (auto simp: strict_prefix_def dest: arg_cong [of _ _ length])
  then have unreadable: "load_nodes (take k ts) empty_nodes = None"
    using cut_archive_unreadable [OF f(2) assms(4)] by blast
  have "FileMount D (info_globals info) opts True (disk f') = Fault LibraryException" for opts
    using d unreadable by (simp add: FileMount_def Let_def)
  moreover obtain opts where "MountInfoToGlobal info = (info_globals info, opts)"
    by (cases "MountInfoToGlobal info") (simp add: info_globals_def)
  ultimately have "DokanRunner D freeDrives (files (argv ! 1)) (uuid_of (argv ! 2)) (disk f') = Fault LibraryException"
    using assms(8) by (simp add: DokanRunner_def)
  then show ?thesis using assms(7) by (simp add: worker_main_def)
qed

theorem cut_save_is_fatal_witness:
  "\<exists>r f f'. DokanRunner sample_dokan sample_drives (Some (write_mlist [sample_mount])) 1 (\<lambda>_. None) = Ret r \<and>
    filemount r = Some f \<and> saveSecurity_until sample_dokan 0 f = (Ret (), f') \<and>
    worker_main sample_system sample_dokan sample_drives (\<lambda>_. 1) (\<lambda>_. Some (write_mlist [sample_mount]))
      (disk f') [W ''w'', W ''f'', W ''1''] sample_events begun_Cache = Fault LibraryException"
proof -
  obtain r where r: "DokanRunner sample_dokan sample_drives (Some (write_mlist [sample_mount])) 1
      (\<lambda>_. None) = Ret r" "exit_codes r = []"
    using sample_runner by blast
  have up: "up (info_globals sample_mount) r"
    unfolding info_globals_def
    by (rule up_after_start [OF r sample_found]) (simp add: sample_dokan_def)
  then obtain f where f: "filemount r = Some f" "nodes_ok (mount_nodes f)"
    by (auto simp: up_def up_mount_def mount_ok_def)
  obtain ts where ts: "save_nodes (mount_nodes f) = Ret ts" "0 < length ts"
    using save_nodes_ok [OF f(2)] by simp
  have can: "dk_can_write sample_dokan cs x" for cs x by (simp add: sample_dokan_def)
  have "wpf (saveSecurity_until sample_dokan 0) (\<lambda>_ _. True) (\<lambda>_ _. False) f"
    using ts(1) by (simp add: saveSecurity_until_def wp_simps)
  then obtain f' where f': "saveSecurity_until sample_dokan 0 f = (Ret (), f')"
    by (auto simp: wpf_def split: prod.splits outcome.splits)
  have "worker_main sample_system sample_dokan sample_drives (\<lambda>_. 1) (\<lambda>_. Some (write_mlist [sample_mount]))
      (disk f') [W ''w'', W ''f'', W ''1''] sample_events begun_Cache = Fault LibraryException"
    by (rule cut_save_is_fatal [OF up f(1) can ts f']) (simp_all add: sample_found)
  then show ?thesis using r(1) f(1) f' by blast
qed

end
