(* ===== verification/Logs.thy ===== *)
theory Logs
  imports QtText "HOL-Library.Multiset"
begin

text \<open>
  The loggers of the worker process and of the service (seamless_smb_lib/DbgPrint.cpp,
  seamless_smb_service/logger.cpp, process/logger.cpp, process/otherlogger.cpp): which file a line
  goes to, when a new file is begun and which old one is removed. The directory is part of the
  state; the names made from the clock, the process number, whether a file can be opened or removed, and
  the order of the directory by time come from the system, a function of the number of lines printed
  before. Qt's name filter (a wildcard pattern, matched without regard to case) is a parameter too.
\<close>

text \<open>The base class: a line goes to standard error or to the debugger, or nowhere.\<close>

datatype sink = StdErr wstr | Debugger wstr

definition DbgPrint_print :: "bool \<Rightarrow> bool \<Rightarrow> wstr \<Rightarrow> sink list \<Rightarrow> sink list" where
  "DbgPrint_print UseStdErr DebugMode line out =
     (if DebugMode then (if UseStdErr then StdErr line else Debugger line) # out else out)"

text \<open>Files are named texts; a log line is one unit of text, and the newest is first.\<close>

type_synonym directory = "(wstr \<times> wstr list) list"

record log_env =
  log_time :: "nat \<Rightarrow> wstr" \<comment> \<open>what begins a line: the time and the process\<close>
  log_now :: "nat \<Rightarrow> wstr"
  log_stamp :: "nat \<Rightarrow> wstr"
  log_opens :: "nat \<Rightarrow> wstr \<Rightarrow> bool"
  log_by_time :: "nat \<Rightarrow> wstr list \<Rightarrow> wstr list" \<comment> \<open>newest first\<close>
  log_removes :: "nat \<Rightarrow> bool" \<comment> \<open>whether a removal asked for at this line works\<close>
  log_matches :: "wstr \<Rightarrow> wstr \<Rightarrow> bool" \<comment> \<open>the pattern \<open>*.log\<close> behind a path finds a file\<close>

record logger =
  log_debug :: bool
  log_path :: wstr
  log_file :: "wstr option"
  log_lines :: nat
  log_dir :: directory
  log_clock :: nat

subsection \<open>Operations\<close>

text \<open>A line goes to the open file; a file that was removed while open is no longer in the directory.\<close>

definition append_line :: "wstr \<Rightarrow> wstr \<Rightarrow> directory \<Rightarrow> directory" where
  "append_line name line d = map (\<lambda>(n, ls). if n = name then (n, line # ls) else (n, ls)) d"

definition touch :: "wstr \<Rightarrow> directory \<Rightarrow> directory" where
  "touch name d = (if name \<in> fst ` set d then d else (name, []) # d)"

definition new_Logger :: "wstr \<Rightarrow> bool \<Rightarrow> directory \<Rightarrow> logger" where
  "new_Logger path debug d = \<lparr>log_debug = debug, log_path = path, log_file = None, log_lines = 0,
     log_dir = d, log_clock = 0\<rparr>"

text \<open>Opening for appending makes the file; a failed open leaves no file object.\<close>

definition open_log :: "log_env \<Rightarrow> wstr \<Rightarrow> logger \<Rightarrow> logger" where
  "open_log E name l =
     (if log_opens E (log_clock l) name
      then l\<lparr>log_file := Some name, log_dir := touch name (log_dir l)\<rparr>
      else l\<lparr>log_file := None\<rparr>)"

definition write_line :: "wstr \<Rightarrow> wstr \<Rightarrow> logger \<Rightarrow> logger" where
  "write_line name line l = l\<lparr>log_dir := append_line name line (log_dir l)\<rparr>"

text \<open>The log files of a path: what the name filter finds.\<close>

definition own_logs :: "log_env \<Rightarrow> wstr \<Rightarrow> directory \<Rightarrow> wstr list" where
  "own_logs E path d = filter (log_matches E path) (map fst d)"

text \<open>
  After ten thousand lines: the file is closed, the oldest of more than thirty files is removed if
  the system lets it be (the answer is not looked at), and a new one is begun. When that cannot be
  opened the count stays.
\<close>

definition rotate :: "log_env \<Rightarrow> logger \<Rightarrow> logger" where
  "rotate E l =
     (let fileList = log_by_time E (log_clock l) (own_logs E (log_path l) (log_dir l));
          l = (if length fileList > 30 \<and> log_removes E (log_clock l)
               then l\<lparr>log_dir := filter (\<lambda>(n, ls). n \<noteq> last fileList) (log_dir l)\<rparr> else l);
          l = open_log E (log_path l @ W ''_'' @ log_stamp E (log_clock l) @ W ''.log'') l in
      if log_file l = None then l else l\<lparr>log_lines := 0\<rparr>)"

text \<open>
  \<open>Logger::print\<close> and \<open>OtherLogger::print\<close> of the worker differ in the name of their first file: the
  argument \<open>mid\<close> is what stands between the path and the time.
\<close>

definition log_header :: "log_env \<Rightarrow> logger \<Rightarrow> wstr" where
  "log_header E l =
     [NEWLINE] @ log_time E (log_clock l) @ W ''--- DEBUG LOG OPENED ---'' @ [NEWLINE]"

definition start_file :: "log_env \<Rightarrow> wstr \<Rightarrow> logger \<Rightarrow> logger" where
  "start_file E name l =
     (if log_file l = None
      then (let l' = open_log E name l in
            if log_file l' = None then l' else write_line name (log_header E l) l')
      else l)"

definition worker_print :: "log_env \<Rightarrow> wstr \<Rightarrow> wstr \<Rightarrow> logger \<Rightarrow> logger" where
  "worker_print E mid line l =
     (if \<not> log_debug l then l
      else
        (let l = l\<lparr>log_clock := Suc (log_clock l)\<rparr>;
             s = log_time E (log_clock l);
             l = start_file E (log_path l @ mid @ log_stamp E (log_clock l) @ W ''_Start.log'') l in
         case log_file l of
           None \<Rightarrow> l
         | Some name \<Rightarrow>
             (let l = write_line name (s @ line) l;
                  l = l\<lparr>log_lines := Suc (log_lines l)\<rparr> in
              if log_lines l \<ge> 10000 then rotate E l else l)))"

definition Logger_print :: "log_env \<Rightarrow> wstr \<Rightarrow> logger \<Rightarrow> logger" where
  "Logger_print E = worker_print E (W ''_'')"

definition OtherLogger_print :: "log_env \<Rightarrow> wstr \<Rightarrow> logger \<Rightarrow> logger" where
  "OtherLogger_print E = worker_print E (W ''_SECURITY_OTHER_'')"

text \<open>The service's logger has one file and appends a terminator (the length counts it) and a line end.\<close>

definition service_print :: "log_env \<Rightarrow> wstr \<Rightarrow> logger \<Rightarrow> logger" where
  "service_print E line l =
     (if \<not> log_debug l then l
      else
        (let l = l\<lparr>log_clock := Suc (log_clock l)\<rparr>;
             s = log_time E (log_clock l);
             l = start_file E (log_path l) l in
         case log_file l of
           None \<Rightarrow> l
         | Some name \<Rightarrow> write_line name (s @ line @ [0, NEWLINE]) l))"

definition destroy_logger :: "log_env \<Rightarrow> logger \<Rightarrow> logger" where
  "destroy_logger E l =
     (case log_file l of
        None \<Rightarrow> l
      | Some name \<Rightarrow>
          (write_line name (log_now E (log_clock l) @ W '' --- DEBUG LOG CLOSED ---'' @ [NEWLINE, NEWLINE]) l)
            \<lparr>log_file := None\<rparr>)"

text \<open>
  A worker has one logger of each kind, with one path (\<open>DokanRunner\<close>) and so with one directory.
\<close>

definition loggers_print :: "log_env \<Rightarrow> bool \<times> wstr \<Rightarrow> logger \<times> logger \<Rightarrow> logger \<times> logger" where
  "loggers_print E x ls =
     (case (x, ls) of ((other, line), (l, k)) \<Rightarrow>
        if other
        then (let k = OtherLogger_print E line k in
              (l\<lparr>log_dir := log_dir k, log_clock := log_clock k\<rparr>, k))
        else (let l = Logger_print E line l in
              (l, k\<lparr>log_dir := log_dir l, log_clock := log_clock l\<rparr>)))"

subsection \<open>The number of files stays bounded\<close>

abbreviation own_count :: "log_env \<Rightarrow> logger \<Rightarrow> nat" where
  "own_count E l \<equiv> length (own_logs E (log_path l) (log_dir l))"

lemma own_touch: "length (own_logs E p (touch n d)) \<le> Suc (length (own_logs E p d))"
  by (simp add: own_logs_def touch_def)

lemma own_append [simp]: "own_logs E p (append_line n x d) = own_logs E p d"
proof -
  have "map fst (append_line n x d) = map fst d" by (auto simp: append_line_def)
  then show ?thesis by (simp only: own_logs_def)
qed

lemma own_remove:
  assumes "n \<in> set (own_logs E p d)"
  shows "length (own_logs E p (filter (\<lambda>(m, ls). m \<noteq> n) d)) < length (own_logs E p d)"
proof -
  have "map fst (filter (\<lambda>(m, ls). m \<noteq> n) d) = filter (\<lambda>m. m \<noteq> n) (map fst d)"
    by (induction d) auto
  then have "own_logs E p (filter (\<lambda>(m, ls). m \<noteq> n) d) = filter (\<lambda>m. m \<noteq> n) (own_logs E p d)"
    by (simp add: own_logs_def conj_commute)
  then show ?thesis
    using assms length_filter_less [of n "own_logs E p d" "\<lambda>m. m \<noteq> n"] by simp
qed

text \<open>With no file open there is room for one more. A removal that fails takes one place more.\<close>

definition logs_inv :: "log_env \<Rightarrow> nat \<Rightarrow> logger \<Rightarrow> bool" where
  "logs_inv E B l \<longleftrightarrow>
     (if log_file l = None then own_count E l < B else own_count E l \<le> B \<and> log_lines l < 10000)"

definition failed_at :: "log_env \<Rightarrow> nat \<Rightarrow> nat" where
  "failed_at E k = of_bool (\<not> log_removes E k)"

lemma logs_inv_mono: "logs_inv E B l \<Longrightarrow> B \<le> B' \<Longrightarrow> logs_inv E B' l"
  by (auto simp: logs_inv_def)

lemma open_log_inv:
  assumes "own_count E l < B"
  shows "log_file (open_log E n l) = None \<and> own_count E (open_log E n l) < B \<or>
    log_file (open_log E n l) = Some n \<and> own_count E (open_log E n l) \<le> B"
  using assms own_touch [of E "log_path l" n "log_dir l"]
  by (simp add: open_log_def)

lemma open_log_frame [simp]:
  "log_lines (open_log E n l) = log_lines l" "log_path (open_log E n l) = log_path l"
  "log_clock (open_log E n l) = log_clock l"
  by (simp_all add: open_log_def)

lemma open_reset_inv:
  assumes "own_count E l < B"
  shows "logs_inv E B (if log_file (open_log E n l) = None then open_log E n l
    else (open_log E n l)\<lparr>log_lines := 0\<rparr>)"
  using open_log_inv [OF assms, of n] by (elim disjE) (simp_all add: logs_inv_def)

definition sorts :: "log_env \<Rightarrow> bool" where
  "sorts E \<longleftrightarrow> (\<forall>k xs. mset (log_by_time E k xs) = mset xs)"

lemma sortsD: "sorts E \<Longrightarrow> length (log_by_time E k xs) = length xs \<and> set (log_by_time E k xs) = set xs"
  unfolding sorts_def by (metis set_mset_mset size_mset)

lemma rotate_inv:
  assumes "sorts E" and "own_count E l \<le> B" and "31 \<le> B"
  shows "logs_inv E (B + failed_at E (log_clock l)) (rotate E l)"
proof -
  let ?files = "log_by_time E (log_clock l) (own_logs E (log_path l) (log_dir l))"
  let ?l = "if length ?files > 30 \<and> log_removes E (log_clock l)
    then l\<lparr>log_dir := filter (\<lambda>(n, ls). n \<noteq> last ?files) (log_dir l)\<rparr> else l"
  let ?name = "log_path ?l @ W ''_'' @ log_stamp E (log_clock ?l) @ W ''.log''"
  note files = sortsD [OF assms(1)]
  have "own_count E ?l < B + failed_at E (log_clock l)"
  proof (cases "length ?files > 30 \<and> log_removes E (log_clock l)")
    case True
    then have "?files \<noteq> []" by auto
    then have "last ?files \<in> set (own_logs E (log_path l) (log_dir l))"
      using files last_in_set by blast
    then show ?thesis using True own_remove assms(2) by fastforce
  next
    case False
    then show ?thesis using files assms(2,3) by (auto simp: failed_at_def)
  qed
  from open_reset_inv [OF this, of ?name] show ?thesis
    unfolding rotate_def Let_def .
qed

lemma start_file_inv:
  assumes "logs_inv E B l"
  shows "if log_file (start_file E n l) = None then own_count E (start_file E n l) < B
    else own_count E (start_file E n l) \<le> B"
proof (cases "log_file l")
  case None
  then have "own_count E l < B" using assms by (simp add: logs_inv_def)
  from open_log_inv [OF this, of n] show ?thesis
    using None by (elim disjE) (simp_all add: start_file_def write_line_def Let_def)
qed (use assms in \<open>simp add: start_file_def logs_inv_def\<close>)

lemma print_frame [simp]:
  "log_path (worker_print E mid line l) = log_path l" "log_debug (worker_print E mid line l) = log_debug l"
  by (auto simp: worker_print_def start_file_def rotate_def write_line_def open_log_def Let_def split: option.split)

lemma print_clock:
  "log_clock (worker_print E mid line l) = (if log_debug l then Suc (log_clock l) else log_clock l)"
  by (auto simp: worker_print_def start_file_def rotate_def write_line_def Let_def split: option.split)

lemma worker_print_inv:
  assumes "sorts E" and "logs_inv E B l" and "31 \<le> B"
  shows "logs_inv E (B + (if log_debug l then failed_at E (Suc (log_clock l)) else 0)) (worker_print E mid line l)"
proof (cases "log_debug l")
  case True
  let ?l0 = "l\<lparr>log_clock := Suc (log_clock l)\<rparr>"
  let ?B = "B + failed_at E (Suc (log_clock l))"
  define l1 where "l1 = start_file E (log_path ?l0 @ mid @ log_stamp E (log_clock ?l0) @ W ''_Start.log'') ?l0"
  have "logs_inv E B ?l0" using assms(2) by (simp add: logs_inv_def)
  then have l1: "if log_file l1 = None then own_count E l1 < B else own_count E l1 \<le> B"
    unfolding l1_def by (rule start_file_inv)
  have clock: "log_clock l1 = Suc (log_clock l)"
    by (simp add: l1_def start_file_def write_line_def Let_def)
  have print: "worker_print E mid line l =
      (case log_file l1 of None \<Rightarrow> l1
       | Some n \<Rightarrow> (let l = (write_line n (log_time E (log_clock ?l0) @ line) l1);
                        l = l\<lparr>log_lines := Suc (log_lines l)\<rparr> in
                    if log_lines l \<ge> 10000 then rotate E l else l))"
    unfolding worker_print_def Let_def l1_def by (subst if_not_P) (simp_all only: True not_not simp_thms)
  have "logs_inv E ?B (worker_print E mid line l)"
  proof (cases "log_file l1")
    case None
    then show ?thesis using l1 by (simp add: print logs_inv_def)
  next
    case (Some n)
    let ?l = "(write_line n (log_time E (log_clock ?l0) @ line) l1)\<lparr>log_lines := Suc (log_lines l1)\<rparr>"
    have l: "log_file ?l = Some n" "own_count E ?l \<le> B" "log_clock ?l = Suc (log_clock l)"
      using Some l1 clock by (simp_all add: write_line_def)
    have "worker_print E mid line l = (if log_lines ?l \<ge> 10000 then rotate E ?l else ?l)"
      unfolding print Some option.case Let_def by (simp add: write_line_def)
    moreover have "logs_inv E ?B (rotate E ?l)"
      using rotate_inv [OF assms(1) l(2) assms(3)] unfolding l(3) .
    moreover have "logs_inv E ?B ?l" if "\<not> log_lines ?l \<ge> 10000" using that l by (simp add: logs_inv_def)
    ultimately show ?thesis by presburger
  qed
  then show ?thesis using True by simp
qed (use assms(2) in \<open>simp add: worker_print_def\<close>)

text \<open>The two loggers: each leaves room for the first file of the other.\<close>

definition both_inv :: "log_env \<Rightarrow> nat \<Rightarrow> logger \<times> logger \<Rightarrow> bool" where
  "both_inv E B ls \<longleftrightarrow>
     (case ls of (l, k) \<Rightarrow>
        logs_inv E (B - of_bool (log_file k = None)) l \<and> logs_inv E (B - of_bool (log_file l = None)) k \<and>
        log_dir k = log_dir l \<and> log_clock k = log_clock l \<and> log_path k = log_path l \<and> 32 \<le> B)"

lemma both_inv_sym: "both_inv E B (l, k) \<longleftrightarrow> both_inv E B (k, l)"
  by (auto simp: both_inv_def)

lemma other_inv:
  assumes "logs_inv E (B - of_bool (log_file k = None)) l" and "1 \<le> B"
    and "log_file k = None \<or> log_lines k < 10000" and "log_path k = log_path l"
  shows "logs_inv E (B - of_bool (log_file l = None)) (k\<lparr>log_dir := log_dir l, log_clock := c\<rparr>)"
  using assms by (auto simp: logs_inv_def split: if_splits)

lemma both_inv_print:
  assumes "sorts E" and "both_inv E B (l, k)" and "l' = worker_print E mid line l"
  shows "both_inv E (B + (if log_debug l then failed_at E (Suc (log_clock l)) else 0))
    (l', k\<lparr>log_dir := log_dir l', log_clock := log_clock l'\<rparr>)"
proof -
  let ?d = "if log_debug l then failed_at E (Suc (log_clock l)) else 0"
  let ?n = "of_bool (log_file k = None) :: nat"
  have inv: "logs_inv E (B - ?n) l" "logs_inv E (B - of_bool (log_file l = None)) k" "32 \<le> B"
      "log_path k = log_path l"
    using assms(2) by (auto simp: both_inv_def)
  have "31 \<le> B - ?n" using inv(3) unfolding of_bool_def by (simp split: if_split) linarith
  then have "logs_inv E (B - ?n + ?d) l'" unfolding assms(3) by (rule worker_print_inv [OF assms(1) inv(1)])
  moreover have "B - ?n + ?d = B + ?d - ?n" using inv(3) by (cases "log_file k = None") simp_all
  ultimately have l': "logs_inv E (B + ?d - ?n) l'" by simp
  moreover have "log_file k = None \<or> log_lines k < 10000" using inv(2) by (auto simp: logs_inv_def split: if_splits)
  ultimately have "logs_inv E (B + ?d - of_bool (log_file l' = None))
      (k\<lparr>log_dir := log_dir l', log_clock := log_clock l'\<rparr>)"
    by (intro other_inv) (use inv assms(3) in simp_all)
  then show ?thesis using l' inv assms(3) by (simp add: both_inv_def)
qed

text \<open>How many removals the system refuses up to a line.\<close>

definition refused :: "log_env \<Rightarrow> nat \<Rightarrow> nat" where
  "refused E c = length (filter (\<lambda>k. \<not> log_removes E k) [1..<Suc c])"

lemma refused_simps: "refused E 0 = 0" "refused E (Suc c) = refused E c + failed_at E (Suc c)"
  by (simp_all add: refused_def failed_at_def)

lemma loggers_print_inv:
  assumes "sorts E" and "both_inv E (B + refused E (log_clock (fst ls))) ls"
  shows "both_inv E (B + refused E (log_clock (fst (loggers_print E x ls)))) (loggers_print E x ls) \<and>
    log_path (fst (loggers_print E x ls)) = log_path (fst ls)"
proof -
  obtain other line l k where x: "x = (other, line)" "ls = (l, k)" by (cases x, cases ls)
  have inv: "both_inv E (B + refused E (log_clock l)) (l, k)" using assms(2) by (simp add: x)
  then have inv': "both_inv E (B + refused E (log_clock k)) (k, l)" by (simp add: both_inv_sym both_inv_def)
  show ?thesis
  proof (cases other)
    case False
    from both_inv_print [OF assms(1) inv refl, of "W ''_''" line] False show ?thesis
      by (cases "log_debug l") (simp_all add: x loggers_print_def Logger_print_def Let_def print_clock refused_simps add.assoc)
  next
    case True
    from both_inv_print [OF assms(1) inv' refl, of "W ''_SECURITY_OTHER_''" line] True show ?thesis
      by (cases "log_debug k") (simp_all add: x loggers_print_def OtherLogger_print_def Let_def print_clock refused_simps add.assoc
          both_inv_sym [of E _ "_\<lparr>log_dir := _, log_clock := _\<rparr>"])
  qed
qed


definition sample_logs :: log_env where
  "sample_logs = \<lparr>log_time = (\<lambda>k. []), log_now = (\<lambda>k. []), log_stamp = (\<lambda>k. [of_nat k]), log_opens = (\<lambda>k n. True),
     log_by_time = (\<lambda>k xs. xs), log_removes = (\<lambda>k. True),
     log_matches = (\<lambda>p n. prefix p n \<and> suffix (W ''.log'') n)\<rparr>"


text \<open>
  Where the oldest file cannot be removed, for one because the other logger of the process holds it
  open, the files grow without bound: a rotation then makes one file more, whatever their number.
\<close>

theorem refused_removal_grows:
  assumes "\<not> log_removes E (log_clock l)" and "name = log_path l @ W ''_'' @ log_stamp E (log_clock l) @ W ''.log''"
    and "log_opens E (log_clock l) name" and "name \<notin> fst ` set (log_dir l)" and "log_matches E (log_path l) name"
  shows "own_count E (rotate E l) = Suc (own_count E l)"
  using assms by (simp add: rotate_def Let_def open_log_def touch_def own_logs_def)

end
