(* ===== verification/MirrorMain.thy ===== *)
theory MirrorMain
  imports Common
begin

text \<open>
  The command line program (mirror.cpp): its options, the checks on their combination, the privilege
  it asks for, and the mount it makes. The console output is not modelled. What the system answers is
  a parameter (record \<open>privilege_env\<close>); the program's arguments are the list \<open>argv\<close>, the name of the
  program first.
\<close>

abbreviation EXIT_SUCCESS :: int where "EXIT_SUCCESS \<equiv> 0"
abbreviation EXIT_FAILURE :: int where "EXIT_FAILURE \<equiv> 1"

record privilege_env =
  lookup_ok :: bool
  lookup_error :: dword
  open_ok :: bool
  open_error :: dword
  adjust_error :: dword \<comment> \<open>the last error after \<open>AdjustTokenPrivileges\<close>\<close>

text \<open>Whether the privilege was added, and the number of token handles left open.\<close>

definition AddSeSecurityNamePrivilege :: "privilege_env \<Rightarrow> bool \<times> int" where
  "AddSeSecurityNamePrivilege P =
     (if \<not> lookup_ok P \<and> lookup_error P \<noteq> 0 then (False, 0)
      else if \<not> open_ok P \<and> open_error P \<noteq> 0 then (False, 0)
      else
        (let opened = of_bool (open_ok P) in
         if adjust_error P \<noteq> 0 then (False, opened - of_bool (open_ok P))
         else (True, opened - of_bool (open_ok P))))"

subsection \<open>Options\<close>

record args =
  arg_globals :: globals
  arg_options :: dokan_options
  g_DebugMode :: bool
  g_UseStdErr :: bool

definition new_args :: args where
  "new_args = \<lparr>arg_globals = new_Globals,
     arg_options = \<lparr>Version = DOKAN_VERSION, SingleThread = False, Options = 0, GlobalContext = 0,
       opt_MountPoint = [], opt_UNCName = [], Timeout = 0, AllocationUnitSize = 0, SectorSize = 0\<rparr>,
     g_DebugMode = False, g_UseStdErr = False\<rparr>"

text \<open>\<open>_wtol\<close>: blanks, a sign, digits; out of range it gives the nearest long.\<close>

definition digit :: "wchar \<Rightarrow> bool" where
  "digit c \<longleftrightarrow> 0x30 \<le> c \<and> c \<le> 0x39"

definition blank :: "wchar \<Rightarrow> bool" where
  "blank c \<longleftrightarrow> c = SPACE \<or> 0x09 \<le> c \<and> c \<le> 0x0D"

definition digits_value :: "wstr \<Rightarrow> int" where
  "digits_value s = foldl (\<lambda>n c. 10 * n + uint (c - 0x30)) 0 (takeWhile digit s)"

definition wtol :: "wstr \<Rightarrow> dword" where
  "wtol s =
     (let t = dropWhile blank s;
          v = (case t of
                 [] \<Rightarrow> 0
               | c # r \<Rightarrow> if c = 0x2D then - digits_value r else if c = 0x2B then digits_value r
                           else digits_value t) in
      word_of_int (max (- (2 ^ 31)) (min (2 ^ 31 - 1) v)))"

definition set_option :: "dword \<Rightarrow> args \<Rightarrow> args" where
  "set_option f a =
     a\<lparr>arg_options := (arg_options a)\<lparr>Options := Options (arg_options a) OR f\<rparr>\<rparr>"

text \<open>The options without an argument. The letter is the second unit of the argument, lowered.\<close>

definition flag_option :: "wchar \<Rightarrow> args \<Rightarrow> args option" where
  "flag_option c a =
     (if [c] = W ''t'' then Some (a\<lparr>arg_options := (arg_options a)\<lparr>SingleThread := True\<rparr>\<rparr>)
      else if [c] = W ''d'' then Some (a\<lparr>g_DebugMode := True\<rparr>)
      else if [c] = W ''s'' then Some (a\<lparr>g_UseStdErr := True\<rparr>)
      else if [c] = W ''n'' then Some (set_option DOKAN_OPTION_NETWORK a)
      else if [c] = W ''m'' then Some (set_option DOKAN_OPTION_REMOVABLE a)
      else if [c] = W ''w'' then Some (set_option DOKAN_OPTION_WRITE_PROTECT a)
      else if [c] = W ''o'' then Some (set_option DOKAN_OPTION_MOUNT_MANAGER a)
      else if [c] = W ''c'' then Some (set_option DOKAN_OPTION_CURRENT_SESSION a)
      else if [c] = W ''f'' then Some (set_option DOKAN_OPTION_FILELOCK_USER_MODE a)
      else if [c] = W ''x'' then Some (set_option DOKAN_OPTION_ENABLE_UNMOUNT_NETWORK_DRIVE a)
      else if [c] = W ''e'' then Some (set_option DOKAN_OPTION_DISPATCH_DRIVER_LOGS a)
      else if [c] = W ''b'' then
        Some (set_option DOKAN_OPTION_CASE_SENSITIVE
               (a\<lparr>arg_globals := Globals_setCaseSensitive True (arg_globals a)\<rparr>))
      else if [c] = W ''p'' then
        Some (a\<lparr>arg_globals := Globals_setImpersonateCallerUser True (arg_globals a)\<rparr>)
      else None)"

text \<open>The options with an argument; an empty root directory is refused.\<close>

definition takes_argument :: "wchar \<Rightarrow> bool" where
  "takes_argument c \<longleftrightarrow> c \<in> set (W ''rluiakv'')"

definition value_option :: "wchar \<Rightarrow> wstr \<Rightarrow> args \<Rightarrow> args option" where
  "value_option c v a =
     (if [c] = W ''r'' then
        (if v = [] then None
         else Some (a\<lparr>arg_globals := Globals_setRootDirectory v (arg_globals a)\<rparr>))
      else if [c] = W ''l'' then
        Some (a\<lparr>arg_globals := Globals_setMountPoint v (arg_globals a),
                arg_options := (arg_options a)\<lparr>opt_MountPoint := v\<rparr>\<rparr>)
      else if [c] = W ''u'' then
        Some (a\<lparr>arg_globals := Globals_setUNCName v (arg_globals a),
                arg_options := (arg_options a)\<lparr>opt_UNCName := v\<rparr>\<rparr>)
      else if [c] = W ''i'' then Some (a\<lparr>arg_options := (arg_options a)\<lparr>Timeout := wtol v\<rparr>\<rparr>)
      else if [c] = W ''a'' then
        Some (a\<lparr>arg_options := (arg_options a)\<lparr>AllocationUnitSize := wtol v\<rparr>\<rparr>)
      else if [c] = W ''k'' then Some (a\<lparr>arg_options := (arg_options a)\<lparr>SectorSize := wtol v\<rparr>\<rparr>)
      else if [c] = W ''v'' then Some (a\<lparr>arg_globals := Globals_setVolname v (arg_globals a)\<rparr>)
      else None)"

text \<open>
  The loop over the arguments: \<open>None\<close> is the exit with EXIT_FAILURE. The second unit of an empty
  argument is behind its terminator.
\<close>

fun parse_args :: "wstr list \<Rightarrow> args \<Rightarrow> args option outcome" where
  "parse_args [] a = Ret (Some a)"
| "parse_args ([] # rest) a = Fault OutOfBounds"
| "parse_args ([c] # rest) a = Ret None"
| "parse_args ((c0 # c1 # cs) # rest) a =
     (let c = towlower c1 in
      if takes_argument c then
        (case rest of
           [] \<Rightarrow> Ret None
         | v # rest' \<Rightarrow>
             (case value_option c v a of None \<Rightarrow> Ret None | Some a' \<Rightarrow> parse_args rest' a'))
      else (case flag_option c a of None \<Rightarrow> Ret None | Some a' \<Rightarrow> parse_args rest a'))"

definition options_consistent :: "args \<Rightarrow> bool" where
  "options_consistent a \<longleftrightarrow>
     (let opt = Options (arg_options a) in
      \<not> (has_flag opt DOKAN_OPTION_NETWORK \<and> has_flag opt DOKAN_OPTION_MOUNT_MANAGER) \<and>
      \<not> (\<not> has_flag opt DOKAN_OPTION_MOUNT_MANAGER \<and> length (m_MountPoint (arg_globals a)) = 0) \<and>
      \<not> (has_flag opt DOKAN_OPTION_MOUNT_MANAGER \<and> has_flag opt DOKAN_OPTION_CURRENT_SESSION))"

text \<open>The options of the mount, after the privilege was asked for.\<close>

definition final_args :: "privilege_env \<Rightarrow> args \<Rightarrow> args" where
  "final_args P a =
     (let a = a\<lparr>arg_globals := Globals_setHasSeSecurityPrivilege (fst (AddSeSecurityNamePrivilege P)) (arg_globals a)\<rparr>;
          a = (if g_DebugMode a then set_option DOKAN_OPTION_DEBUG a else a);
          a = (if g_UseStdErr a then set_option DOKAN_OPTION_STDERR a else a) in
      set_option DOKAN_OPTION_ALT_STREAM a)"

text \<open>The mount is made without the second logger: the argument \<open>otherPrint\<close> keeps its default, null.\<close>

definition wmain ::
  "dokan \<Rightarrow> privilege_env \<Rightarrow> (wstr \<Rightarrow> item list option) \<Rightarrow> wstr list \<Rightarrow> int outcome" where
  "wmain D P d argv =
     (if length argv < 3 then Ret EXIT_FAILURE
      else case parse_args (tl argv) new_args of
        Fault e \<Rightarrow> Fault e
      | Ret None \<Rightarrow> Ret EXIT_FAILURE
      | Ret (Some a) \<Rightarrow>
          (if \<not> options_consistent a then Ret EXIT_FAILURE
           else
             (let a = final_args P a in
              case FileMount D (arg_globals a) (arg_options a) False d of
                Fault e \<Rightarrow> Fault e
              | Ret fm \<Rightarrow> (case mount D fm of (Fault e, _) \<Rightarrow> Fault e | (Ret status, _) \<Rightarrow> Ret EXIT_SUCCESS))))"

text \<open>The control handler: the events that end the program unmount the file system.\<close>

abbreviation CTRL_C_EVENT :: dword where "CTRL_C_EVENT \<equiv> 0"
abbreviation CTRL_BREAK_EVENT :: dword where "CTRL_BREAK_EVENT \<equiv> 1"
abbreviation CTRL_CLOSE_EVENT :: dword where "CTRL_CLOSE_EVENT \<equiv> 2"
abbreviation CTRL_LOGOFF_EVENT :: dword where "CTRL_LOGOFF_EVENT \<equiv> 5"
abbreviation CTRL_SHUTDOWN_EVENT :: dword where "CTRL_SHUTDOWN_EVENT \<equiv> 6"

definition CtrlHandler :: "dokan \<Rightarrow> dword \<Rightarrow> bool fm" where
  "CtrlHandler D ev =
     (if ev = CTRL_C_EVENT \<or> ev = CTRL_BREAK_EVENT \<or> ev = CTRL_CLOSE_EVENT \<or>
         ev = CTRL_LOGOFF_EVENT \<or> ev = CTRL_SHUTDOWN_EVENT
      then bind (unmount D) (\<lambda>_. return True)
      else return False)"

subsection \<open>What the program achieves\<close>

text \<open>
  The command line program never mounts anything: with any arguments it either fails on them or
  stops with a fault; with arguments it accepts, the fault is the call through the null logger
  in the constructor of the cache.
\<close>

theorem mirror_never_succeeds:
  "wmain D P d argv \<noteq> Ret EXIT_SUCCESS \<and>
   (3 \<le> length argv \<longrightarrow> (\<forall>a. parse_args (tl argv) new_args = Ret (Some a) \<longrightarrow> options_consistent a \<longrightarrow>
      wmain D P d argv = Fault NullPointer))"
  by (auto simp: wmain_def FileMount_def Let_def split: outcome.split option.split)

definition sample_argv :: "wstr list" where
  "sample_argv = [W ''mirror'', W ''/r'', W ''C'', W ''/l'', W ''M'', W ''/n'']"

definition sample_privileges :: privilege_env where
  "sample_privileges = \<lparr>lookup_ok = True, lookup_error = 0, open_ok = True, open_error = 0,
     adjust_error = 0\<rparr>"

theorem mirror_never_succeeds_witness:
  "wmain sample_dokan sample_privileges (\<lambda>_. None) sample_argv = Fault NullPointer"
proof -
  have p: "parse_args (tl sample_argv) new_args =
      Ret (Some (set_option DOKAN_OPTION_NETWORK (new_args\<lparr>
        arg_globals := (arg_globals new_args)\<lparr>m_RootDirectory := W ''C'', m_MountPoint := W ''M''\<rparr>,
        arg_options := (arg_options new_args)\<lparr>opt_MountPoint := W ''M''\<rparr>\<rparr>)))"
    by (simp add: sample_argv_def W_def towlower_def takes_argument_def value_option_def
        flag_option_def set_option_def new_args_def)
  have "options_consistent (set_option DOKAN_OPTION_NETWORK (new_args\<lparr>
      arg_globals := (arg_globals new_args)\<lparr>m_RootDirectory := W ''C'', m_MountPoint := W ''M''\<rparr>,
      arg_options := (arg_options new_args)\<lparr>opt_MountPoint := W ''M''\<rparr>\<rparr>))"
    by (simp add: options_consistent_def set_option_def new_args_def W_def)
  then show ?thesis
    using mirror_never_succeeds [of sample_dokan sample_privileges "\<lambda>_. None" sample_argv] p
    by (simp add: sample_argv_def)
qed

end
