(* ===== verification/DebugOutput.thy ===== *)
theory DebugOutput
  imports Prelude
begin

text \<open>
  The stream buffer the command line program puts behind \<open>wcout\<close>, \<open>wcerr\<close> and \<open>wclog\<close> (mirror.cpp,
  \<open>OutputDebugStringBuf\<close>): a put area of 256 units that is handed to \<open>OutputDebugStringW\<close> when it is full
  or the stream is flushed. \<open>sputc\<close> is what \<open>std::basic_streambuf\<close> does with one unit. Whether the
  string of the message can be allocated is a parameter, a function of the messages so far.
\<close>

abbreviation WEOF :: wchar where "WEOF \<equiv> 0xFFFF"

record debugbuf =
  put_area :: wstr \<comment> \<open>from \<open>pbase\<close> to \<open>pptr\<close>\<close>
  messages :: "wstr list" \<comment> \<open>newest first\<close>

definition buffer_size :: nat where
  "buffer_size = 256"

definition new_debugbuf :: debugbuf where
  "new_debugbuf = \<lparr>put_area = [], messages = []\<rparr>"

definition sync :: "(wstr list \<Rightarrow> bool) \<Rightarrow> debugbuf \<Rightarrow> int \<times> debugbuf" where
  "sync can_alloc b =
     (if can_alloc (messages b) then (0, b\<lparr>messages := c_str (put_area b) # messages b, put_area := []\<rparr>)
      else (-1, b))"

definition overflow :: "(wstr list \<Rightarrow> bool) \<Rightarrow> wchar \<Rightarrow> debugbuf \<Rightarrow> wchar \<times> debugbuf" where
  "overflow can_alloc c b =
     (let (syncRet, b) = sync can_alloc b;
          b = (if c \<noteq> WEOF then b\<lparr>put_area := [c]\<rparr> else b) in
      (if syncRet = -1 then WEOF else 0, b))"

definition sputc :: "(wstr list \<Rightarrow> bool) \<Rightarrow> wchar \<Rightarrow> debugbuf \<Rightarrow> debugbuf" where
  "sputc can_alloc c b =
     (if length (put_area b) < buffer_size then b\<lparr>put_area := put_area b @ [c]\<rparr>
      else snd (overflow can_alloc c b))"

definition sputn :: "(wstr list \<Rightarrow> bool) \<Rightarrow> wstr \<Rightarrow> debugbuf \<Rightarrow> debugbuf" where
  "sputn can_alloc s b = fold (sputc can_alloc) s b"

subsection \<open>What comes out\<close>

definition shown :: "debugbuf \<Rightarrow> wstr" where
  "shown b = concat (List.rev (messages b)) @ put_area b"

definition debugbuf_ok :: "debugbuf \<Rightarrow> bool" where
  "debugbuf_ok b \<longleftrightarrow> length (put_area b) \<le> buffer_size \<and> 0 \<notin> set (put_area b) \<and>
     (\<forall>m \<in> set (messages b). length m \<le> buffer_size)"

lemma debugbuf_ok_new: "debugbuf_ok new_debugbuf"
  by (simp add: debugbuf_ok_def new_debugbuf_def)

lemma c_str_no_zero: "0 \<notin> set s \<Longrightarrow> c_str s = s"
  unfolding c_str_def by (rule takeWhile_eq_all_conv [THEN iffD2]) auto

lemma sputc_shown:
  assumes "debugbuf_ok b" and "c \<noteq> 0" and "c \<noteq> WEOF" and "\<And>ms. can_alloc ms"
  shows "shown (sputc can_alloc c b) = shown b @ [c] \<and> debugbuf_ok (sputc can_alloc c b)"
  using assms
  by (auto simp: sputc_def overflow_def sync_def shown_def debugbuf_ok_def c_str_no_zero buffer_size_def)

text \<open>
  Text written to the stream and flushed comes out complete and in order, in pieces of at most 256
  units, as long as it holds no zero (the message ends there) and no 0xFFFF (taken for the end of
  file when the area is full).
\<close>

theorem debug_output_complete:
  assumes "debugbuf_ok b" and "0 \<notin> set s" and "WEOF \<notin> set s" and "\<And>ms. can_alloc ms"
  shows "shown (snd (sync can_alloc (sputn can_alloc s b))) = shown b @ s \<and>
    put_area (snd (sync can_alloc (sputn can_alloc s b))) = [] \<and>
    (\<forall>m \<in> set (messages (snd (sync can_alloc (sputn can_alloc s b)))). length m \<le> buffer_size)"
proof -
  have "shown (sputn can_alloc s b) = shown b @ s \<and> debugbuf_ok (sputn can_alloc s b)"
    using assms(1-3)
  proof (induction s arbitrary: b)
    case (Cons c s)
    then have "shown (sputc can_alloc c b) = shown b @ [c]" "debugbuf_ok (sputc can_alloc c b)"
      using sputc_shown [OF _ _ _ assms(4), of b c] by simp_all
    then show ?case
      using Cons.IH [of "sputc can_alloc c b"] Cons.prems by (simp add: sputn_def)
  qed (simp add: sputn_def)
  then show ?thesis
    using assms(4) by (auto simp: sync_def shown_def debugbuf_ok_def c_str_no_zero)
qed

theorem debug_output_complete_witness:
  "shown (snd (sync (\<lambda>_. True) (sputn (\<lambda>_. True) (replicate 300 0x61) new_debugbuf))) = replicate 300 0x61"
proof -
  have "0 \<notin> set (replicate 300 (0x61 :: wchar))" "WEOF \<notin> set (replicate 300 (0x61 :: wchar))" by simp_all
  from debug_output_complete [OF debugbuf_ok_new this, of "\<lambda>_. True"]
  have "shown (snd (sync (\<lambda>_. True) (sputn (\<lambda>_. True) (replicate 300 0x61) new_debugbuf))) =
      shown new_debugbuf @ replicate 300 0x61" by (rule conjunct1) simp
  also have "shown new_debugbuf = []" by (simp add: shown_def new_debugbuf_def)
  finally show ?thesis by simp
qed

text \<open>When the message cannot be allocated, a full area is overwritten and its text lost.\<close>

lemma failed_overflow_loses_text:
  assumes "\<not> can_alloc (messages b)" and "c \<noteq> WEOF"
  shows "overflow can_alloc c b = (WEOF, b\<lparr>put_area := [c]\<rparr>)"
  using assms by (simp add: overflow_def sync_def)

end
