(* ===== verification/Spec2Isabelle.thy ===== *)
theory Spec2Isabelle
  imports SetSecurityObject AccountLookup SecurityPrint Sessions NodeRaces NoFault CacheThread Passthrough EntryPoints CutSave Logs MirrorMain DebugOutput
begin

text \<open>
  Verification development of seamless_smb: a set of programs that mirror local directories as
  drives through the Dokan user mode file system library. This is the root theory; it imports every
  other one.

  The program and its parts.
  A worker process (seamless_smb_service/process) mounts one directory: \<open>DokanRunner\<close> reads its settings,
  builds a \<open>FileMount\<close> (seamless_smb_lib), which hands a table of handlers (\<open>FileOps\<close>) to the Dokan
  library. The library calls a handler for each request of the file system driver; the handlers map
  the name to the mirrored directory, make system calls, and keep in \<open>Context\<close> the open handle, in
  \<open>Nodes\<close> the names with a security descriptor of their own, and in \<open>Cache\<close> one special file. A
  Windows service (seamless_smb_service) runs a \<open>Daemon\<close>, which keeps one worker process for each mount
  of the settings file and starts the ones that are enabled, and a \<open>Server\<close> on a local socket. The
  controller (seamless_smb_service_controller) shows and edits the mounts (\<open>MountListModel\<close>), writes the
  settings file and talks to the server through a \<open>Client\<close>. \<open>mirror.cpp\<close> is a command line program
  that mounts one directory. \<open>seamless_smb_common\<close> holds the settings of a mount.

  How the theories follow the code.
  \<^item> Prelude: machine types (wide strings are lists of 16-bit units, DWORD a 32-bit word, handles and
    offsets 64-bit words, all with their wrap-around), the state monad of the handlers with faults
    (a read outside a block, a null pointer, the runtime's invalid parameter handler), its weakest
    precondition \<open>wpf\<close> and the collection \<open>wp_simps\<close>.
  \<^item> Win32: the system and Dokan calls. What they answer is a parameter (record \<open>os\<close>), a function
    of the calls made before; each call is recorded in the trace of the state, newest first. Every call
    with a documented failure may fail, \<open>RevertToSelf\<close> and \<open>malloc\<close> included. Handle and
    search accounting (\<open>net_open\<close>, \<open>net_search\<close>) and \<open>impersonating\<close> are read from the trace.
  \<^item> Paths (globals.cpp, \<open>FileOps::GetFilePath\<close>), Context (the state of a handler, processinfo.cpp),
    Nodes, NodeTable, NodeArchive (nodes.h, filenode.h, filenode.cpp), Cache (cache.cpp), WinSec and
    SetSecurityObject (WinSec.cpp), FileOpen, FileData, FileMeta (fileops.cpp), FileSecurity
    (filesecurity.cpp), Dispatch (the operations table and the states a mount can reach), FileMount
    (filemount.cpp).
  \<^item> Passthrough: the abstract file that the data handlers implement on an open handle. FileNodes: the
    descriptor of a file across renaming and deletion. CacheThread: the thread of the cache beside the
    destructor, as a step relation. Sessions: the files the driver has open, each with its \<open>Context\<close>, from
    opening to closing. SecurityMap: the abstract map from names to descriptors that the handlers
    implement. NodeRaces: the handlers called from many threads, with \<open>MirrorSetFileSecurity\<close> in the steps
    between its locks. NoFault: the conditions on a request and a state under which no handler has an
    undefined result, and the fault where they do not hold.
  \<^item> AccountLookup and SecurityPrint: the functions of WinSec.cpp and securityprocessor.cpp that query
    accounts, and those that print descriptors, lists and SIDs.
  \<^item> QtText and Common (common.cpp), Server (server.cpp), MountTable, Daemon, DaemonTrace (daemon.cpp),
    Service (seamless_smb_service.cpp), Runner (dokanrunner.cpp), WorkerMain (process/main.cpp), Logs
    (DbgPrint.cpp and the loggers), MountList (mountlistmodel.cpp, mounteditor.cpp), Client
    (client.cpp), Controller (applicationui.cpp and the composition with server and daemon), MirrorMain
    and DebugOutput (mirror.cpp and its stream buffer), EntryPoints (the main functions of service,
    controller and tester, consolehandler.cpp).
  \<^item> WorkerSafe: the life of a worker from its arguments to its exit code, without a fault. ServiceWorkers:
    the daemon and the processes it starts, through the arguments and the settings file both read.
    CutSave: a worker that is killed while it writes the file of the nodes.

  Interfaces. Locale \<open>codec\<close> (Codec) is the contract of a serializer; the archive of the nodes and the
  settings in a \<open>QDataStream\<close> are its interpretations; \<open>strict_codec\<close> adds that no proper beginning of what
  was written can be read, which the archive of the nodes interprets at each of its levels. Locale \<open>name_table\<close> (NodeTable) is what the
  handlers rely on from the nodes, a finite map by name; \<open>Nodes\<close> interprets it. Locale \<open>mount_table\<close>
  (MountTable) is the contract of a table of mounts that is kept in step with a list of settings;
  the daemon's workers and the controller's rows both interpret it. Locales \<open>counter_free\<close> and \<open>growing\<close>
  (Dispatch) are invariants of the nodes that the handlers keep by the shape of what they do; the map of
  SecurityMap and the frame of NodeRaces interpret them.

  What the lemmas show.
  \<^item> Safety of a mount over all reachable states: no path outside the root directory is ever named, the
    tables stay well formed, no request but open and close changes which handles are open
    (Dispatch); the exact handle account of open, cleanup and close, the leak of the two early
    returns included, and that each impersonation is followed by a \<open>RevertToSelf\<close>, whose failure alone
    leaves the thread impersonating (FileOpen).
  \<^item> Over the whole life of a mount: without impersonation, in every interleaving of files being opened,
    used, cleaned up and closed, a handle is open exactly as often as an open file holds it (Sessions); as
    long as renamings go onto names without a node, the mount implements
    a map from names to descriptors, one request after the other (SecurityMap) and in any interleaving
    of threads (NodeRaces), and a request touches no name but its own; a request that fits, and whose
    descriptors are there, is always answered, without a fault (NoFault). Where this ends is proved too: a
    replacing rename, the files of a renamed directory, two first changes at once, a default descriptor
    that cannot be made.
  \<^item> Functional behaviour and bounds of the handlers: clamped paging writes, cached reads, the flush of
    every sixth write, sizes (FileData); listings, deletion, volume flags (FileMeta); security
    queries after changes (FileSecurity) and after a renaming (FileNodes); the layout of a descriptor and
    the size of the default access list (SetSecurityObject, WinSec).
  \<^item> Refinement: on an open handle the drive is the file, for any sequence of reads, writes and size
    changes (Passthrough); the list of nodes is a finite map (NodeTable).
  \<^item> Round trips: the node file (NodeArchive), and a worker from its start over any requests to its end
    and the next start (FileMount, WorkerMain), unless a save is cut short: then no worker of the mount
    starts any more (CutSave); options as text, settings as data, status lines (Common, Client).
  \<^item> The service: a reload brings the workers exactly in step with the settings, disturbs nothing
    else, and under every interleaving of signals, timer and background loops a process is created,
    started, stopped and released in this order (Daemon, DaemonTrace); the loops over the mounts end;
    stopping the service ends every worker, whatever its \<open>processEvents\<close> deliver, or uses the deleted server
    when they deliver a late \<open>mount\<close> (Daemon, Service). The destructor of the cache ends once its thread
    has made the exit event, and hangs when it comes earlier (CacheThread); the destructors of the file mount
    and of the runner go through it (\<open>destroy_Cache\<close>, \<open>destroy_runner\<close>, with the position of that thread as
    an argument). The log files stay bounded but for the removals that fail (Logs).
  \<^item> A worker: over any fitting requests, saving ticks, notifications and window messages its main function
    returns, with the exit code that tells what became of the mount, and leaves no file system open
    (WorkerSafe). The parts are progress lemmas with one invariant, \<open>held\<close>, for serving, saving, the
    loop and the destructor.
  \<^item> Composition: what an edit in the controller does to the workers, and what the workers' states
    show in the controller (Controller); how a mount of the settings file becomes a process of the
    daemon, a mounted drive and a clean exit (ServiceWorkers); how the tester's settings reach the
    service (EntryPoints).

  Hypotheses. The hypotheses of a property about code outside the repository are documented
  behaviour: a SID has at most 68 bytes, Dokan gives an instance when it succeeds, Qt reads back the
  text it made of an identifier or a number (\<open>qt_ok\<close>), the driver cleans a file up before it closes it
  (the rules of \<open>mount_run\<close>), asking Dokan
  whether a file system runs does not change the answer (\<open>driver_sound\<close>), the order of a directory by time
  loses no file (\<open>sorts\<close>), and an identifier is read back from its text. Others are conditions on the
  situation a property is about, and the text of the property names them: the user of a token can be read
  (\<open>tokens_readable\<close>), a request fits and its descriptors are there in the state it meets (\<open>request_fits\<close>,
  \<open>descriptors_fit\<close>, and \<open>requests_fit\<close> for all the requests of a worker), the file of the nodes can be read
  (\<open>archive_readable\<close>) or written (\<open>running_and_writable\<close>), the thread of the cache has begun. No property
  assumes that the system never fails. Each hypothesis is shown satisfiable by a witness.

  Termination. The handlers are loop free except for lists the system gives, which are finite in the
  model; the reading loop of the client consumes its buffer; the daemon's background loops are tasks
  of the state that run one entry at a time, and \<open>run_to_end\<close> terminates because the entries left
  decrease; there is no fuel in the development.

  Not modelled. The text that is logged (DbgPrint, loggers) and the handlers' calls of the printing
  functions (these have a theory of their own), but for the call through a null logger
  that ends the command line program and the printing of security; the threads' memory model
  (handlers and slots are atomic steps, but \<open>MirrorSetFileSecurity\<close> is cut at its locks, the daemon's
  background loops interleave entry by entry, and the cache's thread with its destructor); the view of the controller
  (QML) and the change notifications to it; the Qt service library and Qt's event loops, of which the
  entry points keep what they are given to run; the list of free drive letters and the service library
  (git submodules whose sources are not in the repository); the vendored sources (rtl, boost, the Dokan
  headers). Smaller parts left out: the release of the old block at the end of \<open>RtlpSetSecurityObject\<close>; the
  interleaving of the unlocked write counters inside \<open>MirrorWriteFile\<close>; a peer of the service socket may go
  away at any time, which the server does not see (\<open>peer_gone\<close>), but what is written to such a peer is not
  followed; a background loop of the daemon that still runs after its destructor has returned.
\<close>

text \<open>
  C9: The translation of names is exact. When the UNC name holds no zero unit, \<open>GetFilePath\<close> gives
  the root directory followed by the name's part relative to the UNC name whenever the result fits
  the buffer of 32768 units, and stops in the runtime's invalid parameter handler otherwise; it
  never reads outside the name.
\<close>

theorem GetFilePath_exact:
  assumes "0 \<notin> set (m_UNCName g)"
  shows "GetFilePath_at g fn =
    (if length (mirror_path g fn) < DOKAN_MAX_PATH then Ret (mirror_path g fn)
     else Fault InvalidParameter)"
  using assms by (rule GetFilePath_at_eq)

theorem GetFilePath_exact_witness:
  "GetFilePath_at (Globals_of (W ''C:'') (W ''M'') (W ''srv'')) (W ''SRV/x'') =
    (if length (mirror_path (Globals_of (W ''C:'') (W ''M'') (W ''srv'')) (W ''SRV/x''))
        < DOKAN_MAX_PATH
     then Ret (mirror_path (Globals_of (W ''C:'') (W ''M'') (W ''srv'')) (W ''SRV/x''))
     else Fault InvalidParameter)"
  by (rule GetFilePath_exact) (simp add: Globals_of_def new_Globals_def W_def)

end
